(* ===== verification/Contracts.thy ===== *)
theory Contracts
  imports Prelude
begin

text \<open>
  The contracts between components, as locales: a system whose steps keep an invariant, a system
  that hands out claims, and (in the theories of their components) the registry of agent streams and
  the stores behind the REST handlers. What follows from a contract is proved here once; the
  components interpret it on their own definitions.
\<close>

subsection \<open>A system whose every step keeps an invariant\<close>

locale invariant_system =
  fixes step :: "'op \<Rightarrow> 's \<Rightarrow> 's"
    and inv :: "'s \<Rightarrow> bool"
  assumes step_keeps: "inv s \<Longrightarrow> inv (step op s)"
begin

lemma run_keeps: "inv s \<Longrightarrow> inv (fold step ops s)"
  by (induction ops arbitrary: s) (auto intro: step_keeps)

end

subsection \<open>A system that hands out claims\<close>

text \<open>The claims a run hands out, in order.\<close>

fun claims_of :: "('op \<Rightarrow> 's \<Rightarrow> 'id option \<times> 's) \<Rightarrow> 'op list \<Rightarrow> 's \<Rightarrow> 'id list" where
  "claims_of step [] s = []"
| "claims_of step (op # ops) s =
     (case step op s of
        (None, s') \<Rightarrow> claims_of step ops s'
      | (Some i, s') \<Rightarrow> i # claims_of step ops s')"

text \<open>
  The contract: a step hands out only what was not claimed before and records it, and no step
  forgets a claim. Then no run hands out the same claim twice.
\<close>

locale claim_register = invariant_system "\<lambda>op s. snd (step op s)" inv
  for step :: "'op \<Rightarrow> 's \<Rightarrow> 'id option \<times> 's" and inv :: "'s \<Rightarrow> bool" +
  fixes claimed :: "'s \<Rightarrow> 'id set"
  assumes claim_fresh: "inv s \<Longrightarrow> step op s = (Some i, s') \<Longrightarrow> i \<notin> claimed s \<and> i \<in> claimed s'"
    and claimed_mono: "inv s \<Longrightarrow> claimed s \<subseteq> claimed (snd (step op s))"
begin

lemma claims_unclaimed: "inv s \<Longrightarrow> i \<in> set (claims_of step ops s) \<Longrightarrow> i \<notin> claimed s"
proof (induction ops arbitrary: s)
  case Nil
  then show ?case by simp
next
  case (Cons op ops)
  obtain r s' where st: "step op s = (r, s')" by (cases "step op s")
  then have inv': "inv s'" and mono: "claimed s \<subseteq> claimed s'"
    using step_keeps [of s op] claimed_mono [of s op] Cons.prems(1) by simp_all
  show ?case
  proof (cases "r = Some i")
    case True
    then show ?thesis using claim_fresh Cons.prems(1) st by blast
  next
    case False
    with Cons.prems st have "i \<in> set (claims_of step ops s')" by (cases r) auto
    then show ?thesis using Cons.IH [OF inv'] mono by blast
  qed
qed

lemma claims_distinct: "inv s \<Longrightarrow> distinct (claims_of step ops s)"
proof (induction ops arbitrary: s)
  case Nil
  then show ?case by simp
next
  case (Cons op ops)
  obtain r s' where st: "step op s = (r, s')" by (cases "step op s")
  then have inv': "inv s'" using step_keeps [of s op] Cons.prems by simp
  have "i \<notin> set (claims_of step ops s')" if "r = Some i" for i
    using claims_unclaimed [OF inv'] claim_fresh [OF Cons.prems] st that by blast
  then show ?case using st Cons.IH [OF inv'] by (cases r) auto
qed

end

end
