(* ===== verification/World.thy ===== *)
theory World
  imports Prelude
begin

text \<open>
  The world the server acts on: the Postgres tables of \<open>internal/db/migrations\<close> as lists of
  rows, the errors a call can return, and the outcomes the environment decides (the reading of a
  clock, the bytes of \<open>crypto/rand\<close>, a fresh ULID, the loss of the database connection
  before or after a statement has taken effect, the collation of the database as the sort key of a
  text). Each interaction with the environment takes the
  next number \<open>w_tick\<close>, and the outcome functions of the world give what happens at that
  number; nothing is assumed of them, so a clock may even run backwards. A statement is a function
  \<open>instant \<Rightarrow> db \<Rightarrow> db_error + 'a \<times> db\<close> of \<open>NOW()\<close> and the tables, and
  \<open>exec_stmt\<close> runs it. Text the driver attaches to an error is the environment's, too.
  Postgres rounds a stored timestamp to microseconds; instants are kept exact here.
\<close>

subsection \<open>Go errors\<close>

datatype db_error =
    NoRows
  | UniqueViolation string
  | ForeignKeyViolation string
  | ConnectionFault
  | ParameterRange
  | ScanMismatch

datatype go_error =
    DriverError db_error string
  | ErrorText string
  | Wrapped string go_error

fun error_text :: "go_error \<Rightarrow> string" where
  "error_text (DriverError _ t) = t"
| "error_text (ErrorText t) = t"
| "error_text (Wrapped p e) = p @ '': '' @ error_text e"

text \<open>\<open>errors.Is(err, pgx.ErrNoRows)\<close>: follows the chain that the verb \<open>%w\<close> builds.\<close>

fun is_no_rows :: "go_error \<Rightarrow> bool" where
  "is_no_rows (DriverError d _) = (d = NoRows)"
| "is_no_rows (ErrorText _) = False"
| "is_no_rows (Wrapped _ e) = is_no_rows e"

text \<open>A gRPC status, with the codes the server uses.\<close>

datatype grpc_code = InvalidArgument | Unauthenticated | Internal

datatype grpc_error = Status grpc_code string

subsection \<open>JSON values, as JSONB columns hold them\<close>

datatype json =
    JNull
  | JBool bool
  | JNum int
  | JStr string
  | JArr "json list"
  | JObj "(string \<times> json) list"

subsection \<open>The tables\<close>

text \<open>A Go slice or map that may be nil is an option; \<open>None\<close> is nil.\<close>

record host_row =
  hr_id :: string
  hr_hostname :: string
  hr_os :: string
  hr_os_version :: "string option"
  hr_kernel :: "string option"
  hr_arch :: string
  hr_cpu_cores :: "int option"
  hr_memory_bytes :: "int option"
  hr_machine_id :: "string option"
  hr_ip_addresses :: "json option"
  hr_labels :: "json option"
  hr_first_seen_at :: instant
  hr_last_heartbeat_at :: "instant option"
  hr_status :: string
  hr_agent_version :: "string option"
  hr_org_id :: string

record token_row =
  tr_id :: string
  tr_token_hash :: string
  tr_label :: "string option"
  tr_org_id :: string
  tr_created_by :: "string option"
  tr_created_at :: instant
  tr_expires_at :: instant
  tr_used_at :: "instant option"
  tr_used_by_host_id :: "string option"
  tr_revoked_at :: "instant option"

record identity_row =
  ir_id :: int
  ir_host_id :: string
  ir_cert_pem :: string
  ir_cert_fingerprint :: string
  ir_issued_at :: instant
  ir_expires_at :: instant
  ir_revoked_at :: "instant option"
  ir_revoked_reason :: "string option"

record config_row =
  cr_host_id :: string
  cr_config_version :: int
  cr_heartbeat_interval_seconds :: int
  cr_metric_collection_interval_seconds :: int
  cr_log_sources :: "string list"
  cr_updated_at :: instant

record command_row =
  xr_id :: string
  xr_host_id :: string
  xr_tier :: int
  xr_command_json :: json
  xr_reason :: string
  xr_issued_by :: string
  xr_issued_at :: instant
  xr_completed_at :: "instant option"
  xr_exit_code :: "int option"
  xr_stdout :: "string option"
  xr_stderr :: "string option"
  xr_stdout_truncated :: bool
  xr_stderr_truncated :: bool
  xr_duration_ms :: "int option"
  xr_error :: "string option"
  xr_status :: string

record event_row =
  er_id :: int
  er_host_id :: string
  er_occurred_at :: instant
  er_received_at :: instant
  er_type :: string
  er_source :: string
  er_data :: json
  er_raw :: string

record db =
  db_hosts :: "host_row list"
  db_tokens :: "token_row list"
  db_identities :: "identity_row list"
  db_configs :: "config_row list"
  db_commands :: "command_row list"
  db_events :: "event_row list"
  db_identity_seq :: int
  db_event_seq :: int

definition empty_db :: db where
  "empty_db = \<lparr>db_hosts = [], db_tokens = [], db_identities = [], db_configs = [],
     db_commands = [], db_events = [], db_identity_seq = 1, db_event_seq = 1\<rparr>"

definition host_exists :: "string \<Rightarrow> db \<Rightarrow> bool" where
  "host_exists h d \<longleftrightarrow> find_by hr_id h (db_hosts d) \<noteq> None"

subsection \<open>The world and its interactions\<close>

datatype fault = NoFault | LostBefore | LostAfter

record world =
  w_db :: db
  w_tick :: nat
  w_clock :: "nat \<Rightarrow> instant"
  w_fault :: "nat \<Rightarrow> fault"
  w_text :: "nat \<Rightarrow> string"
  w_ulid :: "nat \<Rightarrow> string"
  w_rand :: "nat \<Rightarrow> nat \<Rightarrow> 8 word"
  w_rand_fails :: "nat \<Rightarrow> bool"
  w_sortkey :: "string \<Rightarrow> string"

definition tick :: "world \<Rightarrow> world" where
  "tick w = w\<lparr>w_tick := Suc (w_tick w)\<rparr>"

text \<open>\<open>time.Now()\<close>, a fresh ULID and \<open>rand.Read\<close> of \<open>k\<close> bytes.\<close>

definition go_now :: "world \<Rightarrow> instant \<times> world" where
  "go_now w = (w_clock w (w_tick w), tick w)"

definition new_ulid :: "world \<Rightarrow> string \<times> world" where
  "new_ulid w = (w_ulid w (w_tick w), tick w)"

definition rand_read :: "nat \<Rightarrow> world \<Rightarrow> (go_error + bytes) \<times> world" where
  "rand_read k w =
     (if w_rand_fails w (w_tick w) then (Inl (ErrorText (w_text w (w_tick w))), tick w)
      else (Inr (map (w_rand w (w_tick w)) [0..<k]), tick w))"

definition exec_stmt ::
  "(instant \<Rightarrow> db \<Rightarrow> db_error + 'a \<times> db) \<Rightarrow> world \<Rightarrow> (go_error + 'a) \<times> world" where
  "exec_stmt f w =
     (let n = w_tick w; fail = (\<lambda>k. Inl (DriverError k (w_text w n)))
      in case w_fault w n of
           LostBefore \<Rightarrow> (fail ConnectionFault, tick w)
         | NoFault \<Rightarrow>
             (case f (w_clock w n) (w_db w) of
                Inl k \<Rightarrow> (fail k, tick w)
              | Inr (a, d) \<Rightarrow> (Inr a, (tick w)\<lparr>w_db := d\<rparr>))
         | LostAfter \<Rightarrow>
             (case f (w_clock w n) (w_db w) of
                Inl k \<Rightarrow> (fail k, tick w)
              | Inr (a, d) \<Rightarrow> (fail ConnectionFault, (tick w)\<lparr>w_db := d\<rparr>)))"

lemma tick_simps [simp]:
  "w_db (tick w) = w_db w" "w_tick (tick w) = Suc (w_tick w)" "w_clock (tick w) = w_clock w"
  "w_fault (tick w) = w_fault w" "w_text (tick w) = w_text w" "w_ulid (tick w) = w_ulid w"
  "w_rand (tick w) = w_rand w" "w_rand_fails (tick w) = w_rand_fails w"
  "w_sortkey (tick w) = w_sortkey w"
  by (simp_all add: tick_def)

lemma tick_db_update [simp]: "tick (w\<lparr>w_db := d\<rparr>) = (tick w)\<lparr>w_db := d\<rparr>"
  by (simp add: tick_def)

lemma snd_go_now [frame_simps, simp]: "w_db (snd (go_now w)) = w_db w"
  by (simp add: go_now_def)

lemma snd_new_ulid [frame_simps, simp]: "w_db (snd (new_ulid w)) = w_db w"
  by (simp add: new_ulid_def)

lemma snd_rand_read [frame_simps, simp]: "w_db (snd (rand_read k w)) = w_db w"
  by (simp add: rand_read_def)

lemma length_rand_read: "rand_read k w = (Inr b, w') \<Longrightarrow> length b = k"
  by (auto simp: rand_read_def split: if_splits)

text \<open>What the tables can be after a statement: unchanged, or the statement's own result.\<close>

lemma exec_stmt_effect:
  assumes "exec_stmt f w = (r, w')"
  obtains (unchanged) e where "r = Inl e" "w_db w' = w_db w"
  | (applied) a d where "f (w_clock w (w_tick w)) (w_db w) = Inr (a, d)" "w_db w' = d"
      "r = Inr a \<or> (\<exists>e. r = Inl e)"
  using assms
  by (auto simp: exec_stmt_def Let_def split: fault.splits sum.splits prod.splits)

lemma exec_stmt_Inr:
  assumes "exec_stmt f w = (Inr a, w')"
  shows "f (w_clock w (w_tick w)) (w_db w) = Inr (a, w_db w')"
  using assms
  by (auto simp: exec_stmt_def Let_def split: fault.splits sum.splits prod.splits)

text \<open>A statement without a fault returns exactly what its function says.\<close>

lemma exec_stmt_NoFault:
  "w_fault w (w_tick w) = NoFault \<Longrightarrow>
   exec_stmt f w =
     (case f (w_clock w (w_tick w)) (w_db w) of
        Inl k \<Rightarrow> (Inl (DriverError k (w_text w (w_tick w))), tick w)
      | Inr (a, d) \<Rightarrow> (Inr a, (tick w)\<lparr>w_db := d\<rparr>))"
  by (simp add: exec_stmt_def Let_def)

text \<open>The rule every invariant proof uses: a property the statement keeps is kept, faults or not.\<close>

lemma exec_stmt_keeps:
  assumes "\<And>t a d. f t (w_db w) = Inr (a, d) \<Longrightarrow> I d" "I (w_db w)"
  shows "I (w_db (snd (exec_stmt f w)))"
proof -
  obtain r w' where x: "exec_stmt f w = (r, w')" by (cases "exec_stmt f w")
  then have "I (w_db w')"
    by (cases rule: exec_stmt_effect) (use assms in auto)
  with x show ?thesis by simp
qed

text \<open>The environment's outcome functions never change.\<close>

lemma exec_stmt_env [simp]:
  "w_clock (snd (exec_stmt f w)) = w_clock w" "w_fault (snd (exec_stmt f w)) = w_fault w"
  "w_text (snd (exec_stmt f w)) = w_text w" "w_ulid (snd (exec_stmt f w)) = w_ulid w"
  "w_tick (snd (exec_stmt f w)) = Suc (w_tick w)" "w_sortkey (snd (exec_stmt f w)) = w_sortkey w"
  "w_rand (snd (exec_stmt f w)) = w_rand w" "w_rand_fails (snd (exec_stmt f w)) = w_rand_fails w"
  by (auto simp: exec_stmt_def Let_def split: fault.splits sum.splits prod.splits)

text \<open>Time has gone on: the same environment, at a later interaction.\<close>

definition goes_on :: "world \<Rightarrow> world \<Rightarrow> bool" where
  "goes_on w w' \<longleftrightarrow> w_clock w' = w_clock w \<and> w_ulid w' = w_ulid w \<and> w_fault w' = w_fault w
     \<and> w_rand_fails w' = w_rand_fails w \<and> w_rand w' = w_rand w \<and> w_tick w \<le> w_tick w'"

lemma goes_on_refl [simp]: "goes_on w w"
  by (simp add: goes_on_def)

lemma goes_on_trans: "goes_on w w1 \<Longrightarrow> goes_on w1 w2 \<Longrightarrow> goes_on w w2"
  by (auto simp: goes_on_def)

lemma goes_on_steps [simp]: "goes_on w (tick w)" "goes_on w (snd (exec_stmt f w))"
  by (simp_all add: goes_on_def)

definition wrap_err :: "string \<Rightarrow> (go_error + 'a) \<times> world \<Rightarrow> (go_error + 'a) \<times> world" where
  "wrap_err p rw = (case rw of (Inl e, w) \<Rightarrow> (Inl (Wrapped p e), w) | (Inr a, w) \<Rightarrow> (Inr a, w))"

lemma snd_wrap_err [simp]: "snd (wrap_err p rw) = snd rw"
  by (auto simp: wrap_err_def split: prod.splits sum.splits)

lemma wrap_err_Inr [simp]: "wrap_err p rw = (Inr a, w') \<longleftrightarrow> rw = (Inr a, w')"
  by (auto simp: wrap_err_def split: prod.splits sum.splits)

lemma wrap_err_is_no_rows:
  "fst (wrap_err p rw) = Inl e \<Longrightarrow> \<exists>e'. fst rw = Inl e' \<and> is_no_rows e = is_no_rows e'"
  by (auto simp: wrap_err_def split: prod.splits sum.splits)

subsection \<open>Integrity of the tables: the constraints the migrations declare\<close>

text \<open>
  Primary keys, the partial unique indexes \<open>hosts_machine_id_org_id_uidx\<close> and
  \<open>agent_identities_fingerprint_uidx\<close>, and the foreign keys to \<open>hosts\<close>.
\<close>

definition machine_key :: "host_row \<Rightarrow> (string \<times> string) option" where
  "machine_key r = map_option (\<lambda>m. (m, hr_org_id r)) (hr_machine_id r)"

definition hosts_ok :: "host_row list \<Rightarrow> bool" where
  "hosts_ok hs \<longleftrightarrow>
     distinct (map hr_id hs) \<and>
     (\<forall>r \<in> set hs. \<forall>r' \<in> set hs.
        machine_key r \<noteq> None \<and> machine_key r = machine_key r' \<longrightarrow> hr_id r = hr_id r')"

definition identities_ok :: "identity_row list \<Rightarrow> bool" where
  "identities_ok rs \<longleftrightarrow>
     distinct (map ir_id rs) \<and>
     (\<forall>r \<in> set rs. \<forall>r' \<in> set rs.
        ir_revoked_at r = None \<and> ir_revoked_at r' = None \<and>
        ir_cert_fingerprint r = ir_cert_fingerprint r' \<longrightarrow> ir_id r = ir_id r')"

definition refs_ok :: "db \<Rightarrow> bool" where
  "refs_ok d \<longleftrightarrow>
     (\<forall>r \<in> set (db_identities d). host_exists (ir_host_id r) d) \<and>
     (\<forall>r \<in> set (db_configs d). host_exists (cr_host_id r) d) \<and>
     (\<forall>r \<in> set (db_commands d). host_exists (xr_host_id r) d) \<and>
     (\<forall>r \<in> set (db_events d). host_exists (er_host_id r) d) \<and>
     (\<forall>r \<in> set (db_tokens d). \<forall>h. tr_used_by_host_id r = Some h \<longrightarrow> host_exists h d)"

definition db_ok :: "db \<Rightarrow> bool" where
  "db_ok d \<longleftrightarrow>
     hosts_ok (db_hosts d) \<and> identities_ok (db_identities d) \<and>
     (\<forall>r \<in> set (db_identities d). ir_id r < db_identity_seq d) \<and>
     distinct (map tr_id (db_tokens d)) \<and>
     distinct (map cr_host_id (db_configs d)) \<and>
     distinct (map xr_id (db_commands d)) \<and>
     distinct (map er_id (db_events d)) \<and>
     (\<forall>r \<in> set (db_events d). er_id r < db_event_seq d) \<and>
     refs_ok d"

lemma host_exists_iff: "host_exists h d \<longleftrightarrow> h \<in> hr_id ` set (db_hosts d)"
  by (auto simp: host_exists_def find_by_None)

text \<open>Hosts are never deleted, so references stay valid when the host table changes.\<close>

lemma refs_ok_hosts_mono:
  assumes "refs_ok d" "\<And>h. h \<in> hr_id ` set (db_hosts d) \<Longrightarrow> h \<in> hr_id ` set hs"
  shows "refs_ok (d\<lparr>db_hosts := hs\<rparr>)"
  using assms by (fastforce simp: refs_ok_def host_exists_iff)

lemma db_ok_hostsI:
  assumes "db_ok d" "hosts_ok hs" "\<And>h. h \<in> hr_id ` set (db_hosts d) \<Longrightarrow> h \<in> hr_id ` set hs"
  shows "db_ok (d\<lparr>db_hosts := hs\<rparr>)"
  using assms refs_ok_hosts_mono [of d hs] by (simp add: db_ok_def)

lemma empty_db_ok: "db_ok empty_db"
  by (simp add: empty_db_def db_ok_def hosts_ok_def identities_ok_def refs_ok_def)

text \<open>Which constraint a statement may break, and the error texts of a scan that finds no row.\<close>

definition row_error :: "string \<Rightarrow> string \<Rightarrow> go_error \<Rightarrow> go_error" where
  "row_error norows other e = (if is_no_rows e then Wrapped norows e else Wrapped other e)"

lemma is_no_rows_row_error [simp]: "is_no_rows (row_error p q e) = is_no_rows e"
  by (simp add: row_error_def)

text \<open>A query of several rows: the error of the call itself is wrapped, an error met while the rows are
  read is returned by \<open>rows.Err\<close> as it is.\<close>

definition wrap_rows :: "string \<Rightarrow> world \<Rightarrow> (go_error + 'a) \<times> world \<Rightarrow> (go_error + 'a) \<times> world" where
  "wrap_rows p w rw = (if w_fault w (w_tick w) = LostBefore then wrap_err p rw else rw)"

lemma snd_wrap_rows [simp]: "snd (wrap_rows p w rw) = snd rw"
  by (simp add: wrap_rows_def)

lemma wrap_rows_Inr [simp]: "wrap_rows p w rw = (Inr a, w') \<longleftrightarrow> rw = (Inr a, w')"
  by (simp add: wrap_rows_def)

text \<open>A query: it reads the tables and leaves them.\<close>

definition exec_query :: "(instant \<Rightarrow> db \<Rightarrow> db_error + 'a) \<Rightarrow> world \<Rightarrow> (go_error + 'a) \<times> world" where
  "exec_query q w = exec_stmt (\<lambda>t d. case q t d of Inl k \<Rightarrow> Inl k | Inr a \<Rightarrow> Inr (a, d)) w"

lemma exec_query_db [simp, frame_simps]: "w_db (snd (exec_query q w)) = w_db w"
  by (auto simp: exec_query_def exec_stmt_def Let_def
      split: fault.splits sum.splits prod.splits)

lemma exec_query_env [simp]:
  "w_clock (snd (exec_query q w)) = w_clock w" "w_fault (snd (exec_query q w)) = w_fault w"
  "w_ulid (snd (exec_query q w)) = w_ulid w" "w_rand (snd (exec_query q w)) = w_rand w"
  "w_rand_fails (snd (exec_query q w)) = w_rand_fails w" "w_tick (snd (exec_query q w)) = Suc (w_tick w)"
  by (simp_all add: exec_query_def)

lemma go_now_env [simp]:
  "w_clock (snd (go_now w)) = w_clock w" "w_fault (snd (go_now w)) = w_fault w"
  "w_ulid (snd (go_now w)) = w_ulid w" "w_rand (snd (go_now w)) = w_rand w"
  "w_rand_fails (snd (go_now w)) = w_rand_fails w" "w_tick (snd (go_now w)) = Suc (w_tick w)"
  "w_clock (snd (new_ulid w)) = w_clock w" "w_fault (snd (new_ulid w)) = w_fault w"
  "w_ulid (snd (new_ulid w)) = w_ulid w" "w_rand (snd (new_ulid w)) = w_rand w"
  "w_rand_fails (snd (new_ulid w)) = w_rand_fails w" "w_tick (snd (new_ulid w)) = Suc (w_tick w)"
  by (simp_all add: go_now_def new_ulid_def)

lemma exec_query_dbD: "exec_query q w = (r, w') \<Longrightarrow> w_db w' = w_db w"
  using exec_query_db [of q w] by simp

lemma exec_query_Inr:
  "exec_query q w = (Inr a, w') \<Longrightarrow> q (w_clock w (w_tick w)) (w_db w) = Inr a"
  by (auto simp: exec_query_def exec_stmt_def Let_def
      split: fault.splits sum.splits prod.splits)

lemma exec_query_NoFault:
  "w_fault w (w_tick w) = NoFault \<Longrightarrow>
   exec_query q w =
     (case q (w_clock w (w_tick w)) (w_db w) of
        Inl k \<Rightarrow> (Inl (DriverError k (w_text w (w_tick w))), tick w)
      | Inr a \<Rightarrow> (Inr a, tick w))"
  by (auto simp: exec_query_def exec_stmt_NoFault split: sum.splits)

definition first_row :: "'r list \<Rightarrow> db_error + 'r" where
  "first_row rs = (case rs of [] \<Rightarrow> Inl NoRows | r # _ \<Rightarrow> Inr r)"

definition key_row :: "('r \<Rightarrow> 'k) \<Rightarrow> 'k \<Rightarrow> 'r list \<Rightarrow> db_error + 'r" where
  "key_row key k rs = (case find_by key k rs of None \<Rightarrow> Inl NoRows | Some r \<Rightarrow> Inr r)"

lemma key_row_simps [simp]:
  "key_row key k rs = Inr r \<longleftrightarrow> find_by key k rs = Some r"
  "key_row key k rs = Inl e \<longleftrightarrow> e = NoRows \<and> find_by key k rs = None"
  by (auto simp: key_row_def split: option.splits)

text \<open>A world without faults over given tables, for concrete runs.\<close>

definition calm_world :: "db \<Rightarrow> world" where
  "calm_world d = \<lparr>w_db = d, w_tick = 0, w_clock = (\<lambda>n. 1000 * int n), w_fault = (\<lambda>_. NoFault),
     w_text = (\<lambda>_. ''driver error''), w_ulid = (\<lambda>n. ''ULID-'' @ nat_digits n),
     w_rand = (\<lambda>_ _. 0), w_rand_fails = (\<lambda>_. False), w_sortkey = (\<lambda>t. t)\<rparr>"

definition plain_host :: "string \<Rightarrow> host_row" where
  "plain_host h = \<lparr>hr_id = h, hr_hostname = ''web'', hr_os = ''linux'', hr_os_version = None,
     hr_kernel = None, hr_arch = ''amd64'', hr_cpu_cores = None, hr_memory_bytes = None,
     hr_machine_id = None, hr_ip_addresses = None, hr_labels = None, hr_first_seen_at = 0,
     hr_last_heartbeat_at = None, hr_status = ''pending'', hr_agent_version = None,
     hr_org_id = ''default''\<rparr>"

text \<open>The calm world after \<open>n\<close> interactions, and what each interaction does there.\<close>

definition calm_at :: "nat \<Rightarrow> db \<Rightarrow> world" where
  "calm_at n d = (calm_world d)\<lparr>w_tick := n\<rparr>"

named_theorems calm_simps "runs in the calm world"

lemma calm_world_at [calm_simps]: "calm_world d = calm_at 0 d"
  by (simp add: calm_at_def calm_world_def)

lemma calm_at_fields [simp, calm_simps]:
  "w_db (calm_at n d) = d" "w_tick (calm_at n d) = n" "w_clock (calm_at n d) = (\<lambda>k. 1000 * int k)"
  "w_fault (calm_at n d) = (\<lambda>_. NoFault)" "w_ulid (calm_at n d) = (\<lambda>k. ''ULID-'' @ nat_digits k)"
  "w_rand_fails (calm_at n d) = (\<lambda>_. False)" "w_sortkey (calm_at n d) = (\<lambda>t. t)"
  "w_text (calm_at n d) = (\<lambda>_. ''driver error'')"
  by (simp_all add: calm_at_def calm_world_def)

lemma calm_steps [calm_simps]:
  "tick (calm_at n d) = calm_at (Suc n) d"
  "(calm_at n d)\<lparr>w_db := d'\<rparr> = calm_at n d'"
  "go_now (calm_at n d) = (1000 * int n, calm_at (Suc n) d)"
  "new_ulid (calm_at n d) = (''ULID-'' @ nat_digits n, calm_at (Suc n) d)"
  "rand_read k (calm_at n d) = (Inr (replicate k 0), calm_at (Suc n) d)"
  by (simp_all add: calm_at_def calm_world_def tick_def go_now_def new_ulid_def rand_read_def
      map_replicate_const)

lemma calm_exec [calm_simps]:
  "exec_stmt f (calm_at n d) =
     (case f (1000 * int n) d of
        Inl k \<Rightarrow> (Inl (DriverError k ''driver error''), calm_at (Suc n) d)
      | Inr (a, d') \<Rightarrow> (Inr a, calm_at (Suc n) d'))"
  "exec_query q (calm_at n d) =
     (case q (1000 * int n) d of
        Inl k \<Rightarrow> (Inl (DriverError k ''driver error''), calm_at (Suc n) d)
      | Inr a \<Rightarrow> (Inr a, calm_at (Suc n) d))"
  by (simp_all add: exec_stmt_NoFault exec_query_NoFault calm_steps split: sum.splits prod.splits)

end
