(* ===== verification/TokenStore.thy ===== *)
theory TokenStore
  imports World
begin

text \<open>
  \<open>internal/db/store/tokens.go\<close>: the table \<open>enrollment_tokens\<close> (migration 00003), and
  the statement that claims a token, which \<open>internal/enrollment/service.go\<close> sends itself.
  A row doubles as the Go struct \<open>EnrollmentToken\<close>, field for field. A token is usable at
  an instant when it is neither used nor revoked and expires later; the claim marks every usable row
  with the given hash as used and returns the first.
\<close>

definition token_usable :: "instant \<Rightarrow> token_row \<Rightarrow> bool" where
  "token_usable t r \<longleftrightarrow> tr_used_at r = None \<and> tr_revoked_at r = None \<and> tr_expires_at r > t"

subsection \<open>The statements\<close>

definition insert_token_sql :: "token_row \<Rightarrow> instant \<Rightarrow> db \<Rightarrow> db_error + instant \<times> db" where
  "insert_token_sql n t d =
     (if tr_id n \<in> tr_id ` set (db_tokens d) then Inl (UniqueViolation ''enrollment_tokens_pkey'')
      else Inr (t, d\<lparr>db_tokens := db_tokens d @
                     [n\<lparr>tr_created_at := t, tr_used_at := None, tr_used_by_host_id := None,
                        tr_revoked_at := None\<rparr>]\<rparr>))"

definition claim_token_sql :: "string \<Rightarrow> instant \<Rightarrow> db \<Rightarrow> db_error + (string \<times> string) \<times> db" where
  "claim_token_sql hash t d =
     (let hit = (\<lambda>r. tr_token_hash r = hash \<and> token_usable t r)
      in case filter hit (db_tokens d) of
           [] \<Rightarrow> Inl NoRows
         | r # _ \<Rightarrow>
             Inr ((tr_id r, tr_org_id r),
                  d\<lparr>db_tokens := update_where hit (\<lambda>r. r\<lparr>tr_used_at := Some t\<rparr>) (db_tokens d)\<rparr>))"

definition mark_used_sql :: "string \<Rightarrow> string \<Rightarrow> instant \<Rightarrow> db \<Rightarrow> db_error + nat \<times> db" where
  "mark_used_sql k h t d =
     (let hit = (\<lambda>r. tr_id r = k \<and> tr_used_at r = None \<and> tr_revoked_at r = None);
          n = length (filter hit (db_tokens d))
      in if n \<noteq> 0 \<and> \<not> host_exists h d
         then Inl (ForeignKeyViolation ''enrollment_tokens_used_by_host_id_fkey'')
         else Inr (n, d\<lparr>db_tokens := update_where hit
                (\<lambda>r. r\<lparr>tr_used_at := Some t, tr_used_by_host_id := Some h\<rparr>) (db_tokens d)\<rparr>))"

definition set_used_by_sql :: "string \<Rightarrow> string \<Rightarrow> instant \<Rightarrow> db \<Rightarrow> db_error + unit \<times> db" where
  "set_used_by_sql h k t d =
     (let hit = (\<lambda>r. tr_id r = k)
      in if filter hit (db_tokens d) \<noteq> [] \<and> \<not> host_exists h d
         then Inl (ForeignKeyViolation ''enrollment_tokens_used_by_host_id_fkey'')
         else Inr ((), d\<lparr>db_tokens := update_where hit
                (\<lambda>r. r\<lparr>tr_used_by_host_id := Some h\<rparr>) (db_tokens d)\<rparr>))"

definition revoke_token_sql :: "string \<Rightarrow> instant \<Rightarrow> db \<Rightarrow> db_error + nat \<times> db" where
  "revoke_token_sql k t d =
     (let hit = (\<lambda>r. tr_id r = k \<and> tr_revoked_at r = None)
      in Inr (length (filter hit (db_tokens d)),
              d\<lparr>db_tokens := update_where hit (\<lambda>r. r\<lparr>tr_revoked_at := Some t\<rparr>) (db_tokens d)\<rparr>))"

definition list_tokens_sql ::
  "string \<Rightarrow> bool \<Rightarrow> bool \<Rightarrow> instant \<Rightarrow> db \<Rightarrow> db_error + token_row list" where
  "list_tokens_sql org includeExpired includeRevoked t d =
     Inr (sort_key (\<lambda>r. - tr_created_at r)
           (filter (\<lambda>r. tr_org_id r = org \<and> tr_used_at r = None
                        \<and> (\<not> includeExpired \<longrightarrow> tr_expires_at r > t)
                        \<and> (\<not> includeRevoked \<longrightarrow> tr_revoked_at r = None)) (db_tokens d)))"

definition list_active_sql :: "string \<Rightarrow> instant \<Rightarrow> db \<Rightarrow> db_error + token_row list" where
  "list_active_sql org t d =
     Inr (sort_key (\<lambda>r. - tr_created_at r)
           (filter (\<lambda>r. tr_org_id r = org \<and> token_usable t r) (db_tokens d)))"

subsection \<open>The methods\<close>

definition token_Insert :: "token_row \<Rightarrow> world \<Rightarrow> (go_error + instant) \<times> world" where
  "token_Insert n w = wrap_err ''tokens: insert'' (exec_stmt (insert_token_sql n) w)"

definition token_GetByID :: "string \<Rightarrow> world \<Rightarrow> (go_error + token_row) \<times> world" where
  "token_GetByID k w =
     (case exec_query (\<lambda>_ d. key_row tr_id k (db_tokens d)) w of
        (Inl e, w1) \<Rightarrow> (Inl (row_error ''tokens'' ''tokens: get by id'' e), w1)
      | (Inr r, w1) \<Rightarrow> (Inr r, w1))"

definition token_MarkUsed :: "string \<Rightarrow> string \<Rightarrow> world \<Rightarrow> (go_error + unit) \<times> world" where
  "token_MarkUsed k h w =
     (case exec_stmt (mark_used_sql k h) w of
        (Inl e, w1) \<Rightarrow> (Inl (Wrapped ''tokens: mark used'' e), w1)
      | (Inr n, w1) \<Rightarrow>
          if n = 0 then (Inl (ErrorText (''tokens: '' @ k @ '' not found or already used'')), w1)
          else (Inr (), w1))"

definition token_Revoke :: "string \<Rightarrow> world \<Rightarrow> (go_error + unit) \<times> world" where
  "token_Revoke k w =
     (case exec_stmt (revoke_token_sql k) w of
        (Inl e, w1) \<Rightarrow> (Inl (Wrapped ''tokens: revoke'' e), w1)
      | (Inr n, w1) \<Rightarrow>
          if n = 0 then (Inl (Wrapped ''tokens'' (DriverError NoRows (w_text w (w_tick w)))), w1)
          else (Inr (), w1))"

definition token_List ::
  "string \<Rightarrow> bool \<Rightarrow> bool \<Rightarrow> world \<Rightarrow> (go_error + token_row list) \<times> world" where
  "token_List org includeExpired includeRevoked w =
     wrap_rows ''tokens: list'' w (exec_query (list_tokens_sql org includeExpired includeRevoked) w)"

definition token_ListActive :: "string \<Rightarrow> world \<Rightarrow> (go_error + token_row list) \<times> world" where
  "token_ListActive org w = wrap_rows ''tokens: list active'' w (exec_query (list_active_sql org) w)"

subsection \<open>How a token row may evolve\<close>

text \<open>
  Every statement of the server takes each token row to a row with the same identity, hash,
  organisation and lifetime; a use and a revocation, once recorded, stay.
\<close>

definition token_evolves :: "token_row \<Rightarrow> token_row \<Rightarrow> bool" where
  "token_evolves r r' \<longleftrightarrow>
     tr_id r' = tr_id r \<and> tr_token_hash r' = tr_token_hash r \<and> tr_org_id r' = tr_org_id r \<and>
     tr_expires_at r' = tr_expires_at r \<and> tr_created_at r' = tr_created_at r \<and>
     (tr_used_at r \<noteq> None \<longrightarrow> tr_used_at r' = tr_used_at r) \<and>
     (tr_revoked_at r \<noteq> None \<longrightarrow> tr_revoked_at r' = tr_revoked_at r)"

definition tokens_evolve :: "db \<Rightarrow> db \<Rightarrow> bool" where
  "tokens_evolve d d' \<longleftrightarrow>
     (\<forall>k r. find_by tr_id k (db_tokens d) = Some r \<longrightarrow>
        (\<exists>r'. find_by tr_id k (db_tokens d') = Some r' \<and> token_evolves r r'))"

lemma token_evolves_refl [simp]: "token_evolves r r"
  by (simp add: token_evolves_def)

lemma token_evolves_trans: "token_evolves a b \<Longrightarrow> token_evolves b c \<Longrightarrow> token_evolves a c"
  by (auto simp: token_evolves_def)

lemma tokens_evolve_same [simp]: "db_tokens d' = db_tokens d \<Longrightarrow> tokens_evolve d d'"
  by (simp add: tokens_evolve_def)

lemma tokens_evolve_trans: "tokens_evolve a b \<Longrightarrow> tokens_evolve b c \<Longrightarrow> tokens_evolve a c"
  unfolding tokens_evolve_def
proof (intro allI impI)
  fix k r
  assume ab: "\<forall>k r. find_by tr_id k (db_tokens a) = Some r \<longrightarrow>
      (\<exists>r'. find_by tr_id k (db_tokens b) = Some r' \<and> token_evolves r r')"
    and bc: "\<forall>k r. find_by tr_id k (db_tokens b) = Some r \<longrightarrow>
      (\<exists>r'. find_by tr_id k (db_tokens c) = Some r' \<and> token_evolves r r')"
    and r: "find_by tr_id k (db_tokens a) = Some r"
  from ab r obtain r1 where "find_by tr_id k (db_tokens b) = Some r1" "token_evolves r r1" by blast
  moreover from this(1) bc obtain r2 where "find_by tr_id k (db_tokens c) = Some r2" "token_evolves r1 r2"
    by blast
  ultimately show "\<exists>r'. find_by tr_id k (db_tokens c) = Some r' \<and> token_evolves r r'"
    by (blast intro: token_evolves_trans)
qed

lemma tokens_evolve_update:
  assumes "\<And>r. r \<in> set (db_tokens d) \<Longrightarrow> P r \<Longrightarrow> token_evolves r (f r)" "\<And>r. P r \<Longrightarrow> tr_id (f r) = tr_id r"
  shows "tokens_evolve d (d\<lparr>db_tokens := update_where P f (db_tokens d)\<rparr>)"
  unfolding tokens_evolve_def
proof (intro allI impI)
  fix k r assume r: "find_by tr_id k (db_tokens d) = Some r"
  then have mem: "r \<in> set (db_tokens d)" by (blast dest: find_by_SomeD)
  have "find_by tr_id k (update_where P f (db_tokens d)) =
      map_option (\<lambda>r. if P r then f r else r) (find_by tr_id k (db_tokens d))"
    by (rule find_by_update_where) (rule assms(2))
  with r assms(1) [OF mem] show "\<exists>r'. find_by tr_id k
      (db_tokens (d\<lparr>db_tokens := update_where P f (db_tokens d)\<rparr>)) = Some r' \<and> token_evolves r r'"
    by simp
qed

lemma insert_token_evolves: "insert_token_sql n t d = Inr (a, d') \<Longrightarrow> tokens_evolve d d'"
  by (auto simp: insert_token_sql_def tokens_evolve_def find_by_append split: if_splits)

lemma claim_token_evolves: "claim_token_sql h t d = Inr (a, d') \<Longrightarrow> tokens_evolve d d'"
  by (auto simp: claim_token_sql_def Let_def token_evolves_def token_usable_def
      intro!: tokens_evolve_update split: list.splits)

lemma mark_used_evolves: "mark_used_sql k h t d = Inr (a, d') \<Longrightarrow> tokens_evolve d d'"
  by (auto simp: mark_used_sql_def Let_def token_evolves_def
      intro!: tokens_evolve_update split: if_splits)

lemma set_used_by_evolves: "set_used_by_sql h k t d = Inr (a, d') \<Longrightarrow> tokens_evolve d d'"
  by (auto simp: set_used_by_sql_def Let_def token_evolves_def
      intro!: tokens_evolve_update split: if_splits)

lemma revoke_token_evolves: "revoke_token_sql k t d = Inr (a, d') \<Longrightarrow> tokens_evolve d d'"
  by (auto simp: revoke_token_sql_def Let_def token_evolves_def intro!: tokens_evolve_update)

subsection \<open>Integrity\<close>

lemma db_ok_tokensI:
  assumes "db_ok d" "distinct (map tr_id ts)"
    "\<And>r h. r \<in> set ts \<Longrightarrow> tr_used_by_host_id r = Some h \<Longrightarrow> host_exists h d"
  shows "db_ok (d\<lparr>db_tokens := ts\<rparr>)"
  using assms by (auto simp: db_ok_def refs_ok_def host_exists_def)

lemma db_ok_token_ref:
  "db_ok d \<Longrightarrow> r \<in> set (db_tokens d) \<Longrightarrow> tr_used_by_host_id r = Some h \<Longrightarrow> host_exists h d"
  by (simp add: db_ok_def refs_ok_def)

lemma db_ok_tokens_distinct: "db_ok d \<Longrightarrow> distinct (map tr_id (db_tokens d))"
  by (simp add: db_ok_def)

lemma db_ok_tokens_update:
  assumes "db_ok d" "\<And>r. P r \<Longrightarrow> tr_id (f r) = tr_id r"
    "\<And>r h. r \<in> set (db_tokens d) \<Longrightarrow> P r \<Longrightarrow> tr_used_by_host_id (f r) = Some h \<Longrightarrow> host_exists h d"
  shows "db_ok (d\<lparr>db_tokens := update_where P f (db_tokens d)\<rparr>)"
proof (rule db_ok_tokensI [OF assms(1)])
  show "distinct (map tr_id (update_where P f (db_tokens d)))"
    using assms(1,2) by (simp add: db_ok_tokens_distinct)
next
  fix r h assume "r \<in> set (update_where P f (db_tokens d))" "tr_used_by_host_id r = Some h"
  then obtain x where "x \<in> set (db_tokens d)" "tr_used_by_host_id (if P x then f x else x) = Some h"
    by (auto simp: set_update_where)
  then show "host_exists h d"
    using assms(3) [of x h] db_ok_token_ref [OF assms(1), of x h] by (cases "P x") auto
qed

lemma insert_token_db_ok: "insert_token_sql n t d = Inr (a, d') \<Longrightarrow> db_ok d \<Longrightarrow> db_ok d'"
  by (auto simp: insert_token_sql_def db_ok_tokens_distinct
      intro!: db_ok_tokensI dest: db_ok_token_ref split: if_splits)

lemma claim_token_db_ok: "claim_token_sql k t d = Inr (a, d') \<Longrightarrow> db_ok d \<Longrightarrow> db_ok d'"
  by (auto simp: claim_token_sql_def Let_def intro!: db_ok_tokens_update
      dest: db_ok_token_ref split: list.splits)

lemma mark_used_db_ok: "mark_used_sql k h t d = Inr (a, d') \<Longrightarrow> db_ok d \<Longrightarrow> db_ok d'"
  by (auto simp: mark_used_sql_def Let_def filter_empty_conv intro!: db_ok_tokens_update
      split: if_splits)

lemma set_used_by_db_ok: "set_used_by_sql h k t d = Inr (a, d') \<Longrightarrow> db_ok d \<Longrightarrow> db_ok d'"
  by (auto simp: set_used_by_sql_def Let_def filter_empty_conv intro!: db_ok_tokens_update
      split: if_splits)

lemma revoke_token_db_ok: "revoke_token_sql k t d = Inr (a, d') \<Longrightarrow> db_ok d \<Longrightarrow> db_ok d'"
  by (auto simp: revoke_token_sql_def Let_def intro!: db_ok_tokens_update dest: db_ok_token_ref)

subsection \<open>Claims\<close>

definition used_token_ids :: "db \<Rightarrow> string set" where
  "used_token_ids d = {tr_id r | r. r \<in> set (db_tokens d) \<and> tr_used_at r \<noteq> None}"

lemma used_token_ids_find:
  "db_ok d \<Longrightarrow> k \<in> used_token_ids d \<longleftrightarrow>
     (\<exists>r. find_by tr_id k (db_tokens d) = Some r \<and> tr_used_at r \<noteq> None)"
  unfolding used_token_ids_def
  by (blast dest: find_by_SomeD intro: find_by_distinct [OF db_ok_tokens_distinct])

lemma used_token_ids_mono:
  assumes "db_ok d" "tokens_evolve d d'"
  shows "used_token_ids d \<subseteq> used_token_ids d'"
proof
  fix k assume "k \<in> used_token_ids d"
  then obtain r where "find_by tr_id k (db_tokens d) = Some r" "tr_used_at r \<noteq> None"
    using used_token_ids_find [OF assms(1)] by blast
  with assms(2) obtain r' where "find_by tr_id k (db_tokens d') = Some r'" "token_evolves r r'"
    unfolding tokens_evolve_def by blast
  then have "r' \<in> set (db_tokens d')" "tr_id r' = k" "tr_used_at r' \<noteq> None"
    using \<open>tr_used_at r \<noteq> None\<close> by (auto simp: token_evolves_def dest: find_by_SomeD)
  then show "k \<in> used_token_ids d'" by (auto simp: used_token_ids_def)
qed

lemma claim_token_row:
  assumes "claim_token_sql h t d = Inr ((k, org), d')"
  obtains r where "r \<in> set (db_tokens d)" "tr_id r = k" "tr_org_id r = org" "tr_token_hash r = h"
    "token_usable t r"
    "d' = d\<lparr>db_tokens := update_where (\<lambda>r. tr_token_hash r = h \<and> token_usable t r)
             (\<lambda>r. r\<lparr>tr_used_at := Some t\<rparr>) (db_tokens d)\<rparr>"
proof -
  from assms obtain r rs where
    f: "filter (\<lambda>r. tr_token_hash r = h \<and> token_usable t r) (db_tokens d) = r # rs"
    and r: "tr_id r = k" "tr_org_id r = org"
    and d': "d' = d\<lparr>db_tokens := update_where (\<lambda>r. tr_token_hash r = h \<and> token_usable t r)
             (\<lambda>r. r\<lparr>tr_used_at := Some t\<rparr>) (db_tokens d)\<rparr>"
    by (auto simp: claim_token_sql_def Let_def split: list.splits)
  from f have "r \<in> set (filter (\<lambda>r. tr_token_hash r = h \<and> token_usable t r) (db_tokens d))" by simp
  with r d' that show ?thesis by auto
qed

lemma claim_token_fresh:
  assumes "claim_token_sql h t d = Inr ((k, org), d')" "db_ok d"
  shows "k \<notin> used_token_ids d \<and> k \<in> used_token_ids d'"
proof -
  from assms(1) obtain r where r: "r \<in> set (db_tokens d)" "tr_id r = k" "tr_token_hash r = h"
      "token_usable t r"
      "d' = d\<lparr>db_tokens := update_where (\<lambda>r. tr_token_hash r = h \<and> token_usable t r)
             (\<lambda>r. r\<lparr>tr_used_at := Some t\<rparr>) (db_tokens d)\<rparr>"
    by (rule claim_token_row)
  have "find_by tr_id k (db_tokens d) = Some r"
    using find_by_distinct [OF db_ok_tokens_distinct [OF assms(2)] r(1)] r(2) by simp
  then have "k \<notin> used_token_ids d"
    using r(4) by (auto simp: used_token_ids_find [OF assms(2)] token_usable_def)
  moreover have "r\<lparr>tr_used_at := Some t\<rparr> \<in> set (db_tokens d')"
    using r by (force simp: set_update_where)
  then have "k \<in> used_token_ids d'"
    unfolding used_token_ids_def using r(2)
    by (intro CollectI exI [where x = "r\<lparr>tr_used_at := Some t\<rparr>"]) simp
  ultimately show ?thesis by blast
qed

lemma token_Insert_row:
  assumes "token_Insert n w = (Inr t, w')"
  shows "t = w_clock w (w_tick w) \<and> tr_id n \<notin> tr_id ` set (db_tokens (w_db w)) \<and>
    w_db w' = (w_db w)\<lparr>db_tokens := db_tokens (w_db w) @
      [n\<lparr>tr_created_at := t, tr_used_at := None, tr_used_by_host_id := None, tr_revoked_at := None\<rparr>]\<rparr>"
proof -
  have "insert_token_sql n (w_clock w (w_tick w)) (w_db w) = Inr (t, w_db w')"
    using assms by (simp add: token_Insert_def exec_stmt_Inr)
  then show ?thesis by (auto simp: insert_token_sql_def split: if_splits)
qed

lemma claim_token_NoRows:
  "claim_token_sql h t d = Inl e \<longleftrightarrow>
     e = NoRows \<and> (\<forall>r \<in> set (db_tokens d). tr_token_hash r = h \<longrightarrow> \<not> token_usable t r)"
  by (auto simp: claim_token_sql_def Let_def filter_empty_conv split: list.splits)
     (auto dest!: arg_cong [where f = set] equalityD2)

lemma claim_token_spent:
  assumes "claim_token_sql h t d = Inr (a, d')" "t \<le> t'"
  shows "claim_token_sql h t' d' = Inl NoRows"
  using assms by (cases a) (auto elim!: claim_token_row
      simp: claim_token_NoRows set_update_where token_usable_def split: if_splits)

text \<open>A claim succeeds exactly when some token with the hash is unused, unrevoked and unexpired;
  it returns the identity and organisation of such a token, and afterwards no claim with that
  hash succeeds at any later time: a token is single-use.\<close>

theorem claim_token_single_use:
  "((\<exists>a d'. claim_token_sql h t d = Inr (a, d')) \<longleftrightarrow>
     (\<exists>r \<in> set (db_tokens d). tr_token_hash r = h \<and> token_usable t r))
   \<and> (\<forall>k org d'. claim_token_sql h t d = Inr ((k, org), d') \<longrightarrow>
        (\<exists>r \<in> set (db_tokens d). tr_id r = k \<and> tr_org_id r = org \<and> tr_token_hash r = h \<and> token_usable t r)
        \<and> (\<forall>t' \<ge> t. claim_token_sql h t' d' = Inl NoRows))"
proof (intro conjI allI impI)
  show "(\<exists>a d'. claim_token_sql h t d = Inr (a, d')) \<longleftrightarrow>
     (\<exists>r \<in> set (db_tokens d). tr_token_hash r = h \<and> token_usable t r)"
    using claim_token_NoRows [of h t d] by (cases "claim_token_sql h t d") auto
next
  fix k org d' assume c: "claim_token_sql h t d = Inr ((k, org), d')"
  show "\<exists>r \<in> set (db_tokens d). tr_id r = k \<and> tr_org_id r = org \<and> tr_token_hash r = h \<and> token_usable t r"
    using c by (rule claim_token_row) blast
  fix t' assume "t \<le> t'"
  with c show "claim_token_sql h t' d' = Inl NoRows" by (rule claim_token_spent)
qed

definition sample_token :: token_row where
  "sample_token = \<lparr>tr_id = ''T1'', tr_token_hash = ''abcd'', tr_label = Some ''lab'', tr_org_id = ''default'',
     tr_created_by = None, tr_created_at = 0, tr_expires_at = 900000000000, tr_used_at = None,
     tr_used_by_host_id = None, tr_revoked_at = None\<rparr>"

theorem claim_token_single_use_witness:
  "\<exists>d'. claim_token_sql ''abcd'' 5 (empty_db\<lparr>db_tokens := [sample_token]\<rparr>) = Inr ((''T1'', ''default''), d')
     \<and> claim_token_sql ''abcd'' 6 d' = Inl NoRows"
proof -
  have "\<exists>d'. claim_token_sql ''abcd'' 5 (empty_db\<lparr>db_tokens := [sample_token]\<rparr>) =
      Inr ((''T1'', ''default''), d')"
    by (simp add: claim_token_sql_def sample_token_def token_usable_def)
  then obtain d' where d': "claim_token_sql ''abcd'' 5 (empty_db\<lparr>db_tokens := [sample_token]\<rparr>) =
      Inr ((''T1'', ''default''), d')" ..
  moreover have "claim_token_sql ''abcd'' 6 d' = Inl NoRows"
    using claim_token_single_use [of "''abcd''" 5 "empty_db\<lparr>db_tokens := [sample_token]\<rparr>"] d' by auto
  ultimately show ?thesis by blast
qed

text \<open>Revoking a token: a successful \<open>Revoke\<close> means the token existed unrevoked, a second
  \<open>Revoke\<close> reports no rows, and no later claim, at any time, returns that token. A
  \<open>Revoke\<close> of an unknown or revoked token changes nothing.\<close>

theorem token_Revoke_final:
  assumes "token_Revoke k w = (r, w')" "db_ok (w_db w)" "w_fault w (w_tick w) = NoFault"
  shows "case r of
     Inr _ \<Rightarrow> (\<exists>x \<in> set (db_tokens (w_db w)). tr_id x = k \<and> tr_revoked_at x = None) \<and>
       (\<forall>h t org d'. claim_token_sql h t (w_db w') \<noteq> Inr ((k, org), d')) \<and>
       (\<forall>t n d'. revoke_token_sql k t (w_db w') = Inr (n, d') \<longrightarrow> n = 0)
   | Inl e \<Rightarrow> is_no_rows e \<and> w_db w' = w_db w \<and>
       (\<forall>x \<in> set (db_tokens (w_db w)). tr_id x = k \<longrightarrow> tr_revoked_at x \<noteq> None)"
proof -
  let ?hit = "\<lambda>r. tr_id r = k \<and> tr_revoked_at r = None"
  let ?t = "w_clock w (w_tick w)"
  define ts where "ts = update_where ?hit (\<lambda>r. r\<lparr>tr_revoked_at := Some ?t\<rparr>) (db_tokens (w_db w))"
  have x: "exec_stmt (revoke_token_sql k) w =
      (Inr (length (filter ?hit (db_tokens (w_db w)))), (tick w)\<lparr>w_db := (w_db w)\<lparr>db_tokens := ts\<rparr>\<rparr>)"
    by (simp add: exec_stmt_NoFault [OF assms(3)] revoke_token_sql_def ts_def Let_def)
  have revoked: "tr_revoked_at y \<noteq> None" if y: "y \<in> set ts" "tr_id y = k" for y
  proof -
    from y(1) obtain z where "y = (if ?hit z then z\<lparr>tr_revoked_at := Some ?t\<rparr> else z)"
      unfolding ts_def set_update_where by (elim imageE)
    with y(2) show ?thesis by (cases "?hit z") auto
  qed
  show ?thesis
  proof (cases "filter ?hit (db_tokens (w_db w)) = []")
    case True
    then have "ts = db_tokens (w_db w)"
      unfolding ts_def by (intro update_where_id) (auto simp: filter_empty_conv)
    with True assms(1) x show ?thesis
      by (auto simp: token_Revoke_def filter_empty_conv)
  next
    case False
    then have r: "r = Inr ()" "w_db w' = (w_db w)\<lparr>db_tokens := ts\<rparr>"
      using assms(1) x by (auto simp: token_Revoke_def)
    have "claim_token_sql h t (w_db w') \<noteq> Inr ((k, org), d')" for h t org d'
    proof
      assume "claim_token_sql h t (w_db w') = Inr ((k, org), d')"
      then obtain y where "y \<in> set (db_tokens (w_db w'))" "tr_id y = k" "token_usable t y"
        by (rule claim_token_row)
      then show False using revoked r(2) by (auto simp: token_usable_def)
    qed
    moreover have "n = 0" if "revoke_token_sql k t (w_db w') = Inr (n, d')" for t n d'
      using that revoked r(2) by (auto simp: revoke_token_sql_def Let_def filter_empty_conv)
    ultimately show ?thesis using r(1) False by (auto simp: filter_empty_conv)
  qed
qed

theorem token_Revoke_final_witness:
  "\<exists>w'. token_Revoke ''T1'' (calm_world (empty_db\<lparr>db_tokens := [sample_token]\<rparr>)) = (Inr (), w')
     \<and> (\<forall>t d'. claim_token_sql ''abcd'' t (w_db w') \<noteq> Inr ((''T1'', ''default''), d'))"
proof -
  let ?w = "calm_world (empty_db\<lparr>db_tokens := [sample_token]\<rparr>)"
  define w' where "w' = snd (token_Revoke ''T1'' ?w)"
  have a: "token_Revoke ''T1'' ?w = (Inr (), w')"
    by (simp add: w'_def token_Revoke_def exec_stmt_NoFault calm_world_def revoke_token_sql_def
        sample_token_def)
  have ok: "db_ok (w_db ?w)"
    by (simp add: calm_world_def db_ok_def empty_db_def hosts_ok_def identities_ok_def refs_ok_def
        sample_token_def)
  show ?thesis using a token_Revoke_final [OF a ok] by (simp add: calm_world_def)
qed

text \<open>The list the API shows holds exactly the unused tokens of the organisation, without the
  expired and the revoked ones unless they are asked for, newest first.\<close>

theorem token_List_contents:
  assumes "token_List org ie ir w = (Inr ts, w')"
  shows "mset ts = filter_mset (\<lambda>r. tr_org_id r = org \<and> tr_used_at r = None
            \<and> (ie \<or> tr_expires_at r > w_clock w (w_tick w)) \<and> (ir \<or> tr_revoked_at r = None))
          (mset (db_tokens (w_db w)))
    \<and> sorted (rev (map tr_created_at ts)) \<and> w_db w' = w_db w"
proof -
  let ?P = "\<lambda>r. tr_org_id r = org \<and> tr_used_at r = None
        \<and> (\<not> ie \<longrightarrow> tr_expires_at r > w_clock w (w_tick w)) \<and> (\<not> ir \<longrightarrow> tr_revoked_at r = None)"
  from assms have q: "exec_query (list_tokens_sql org ie ir) w = (Inr ts, w')"
    by (simp add: token_List_def)
  from exec_query_Inr [OF q] have ts: "ts = sort_key (\<lambda>r. - tr_created_at r) (filter ?P (db_tokens (w_db w)))"
    by (simp add: list_tokens_sql_def)
  have "sorted (map (\<lambda>r. - tr_created_at r) ts)" by (simp add: ts)
  then have "sorted (rev (map tr_created_at ts))" by (rule sorted_rev_neg)
  moreover have "mset ts = filter_mset ?P (mset (db_tokens (w_db w)))" by (simp add: ts)
  moreover have "w_db w' = w_db w" using q by (rule exec_query_dbD)
  ultimately show ?thesis by (simp add: disj_imp)
qed

theorem token_List_contents_witness:
  "\<exists>w'. token_List ''default'' False False (calm_world (empty_db\<lparr>db_tokens := [sample_token,
        sample_token\<lparr>tr_id := ''T2'', tr_created_at := 7\<rparr>, sample_token\<lparr>tr_id := ''T3'', tr_used_at := Some 3\<rparr>]\<rparr>))
      = (Inr [sample_token\<lparr>tr_id := ''T2'', tr_created_at := 7\<rparr>, sample_token], w')
    \<and> w_db w' = empty_db\<lparr>db_tokens := [sample_token,
        sample_token\<lparr>tr_id := ''T2'', tr_created_at := 7\<rparr>, sample_token\<lparr>tr_id := ''T3'', tr_used_at := Some 3\<rparr>]\<rparr>"
proof -
  let ?w = "calm_world (empty_db\<lparr>db_tokens := [sample_token,
        sample_token\<lparr>tr_id := ''T2'', tr_created_at := 7\<rparr>, sample_token\<lparr>tr_id := ''T3'', tr_used_at := Some 3\<rparr>]\<rparr>)"
  define w' where "w' = snd (token_List ''default'' False False ?w)"
  have a: "token_List ''default'' False False ?w =
      (Inr [sample_token\<lparr>tr_id := ''T2'', tr_created_at := 7\<rparr>, sample_token], w')"
    by (simp add: w'_def token_List_def exec_query_NoFault calm_world_def list_tokens_sql_def
        sample_token_def wrap_rows_def wrap_err_def)
  show ?thesis using a token_List_contents [OF a] by (simp add: calm_world_def)
qed

end
