(* ===== verification/IdentityStore.thy ===== *)
theory IdentityStore
  imports World
begin

text \<open>
  \<open>internal/db/store/identities.go\<close>: the table \<open>agent_identities\<close> (migration 00002), one
  row per issued client certificate. Postgres advances the sequence of a \<open>BIGSERIAL\<close> column even
  when the insert then fails; here a failed insert leaves it, since only the freshness of the number
  is used. A lookup that can match several rows returns the first in table order.
\<close>

definition insert_identity_sql :: "identity_row \<Rightarrow> instant \<Rightarrow> db \<Rightarrow> db_error + (int \<times> instant) \<times> db" where
  "insert_identity_sql n t d =
     (if \<exists>r \<in> set (db_identities d). ir_revoked_at r = None \<and> ir_cert_fingerprint r = ir_cert_fingerprint n
      then Inl (UniqueViolation ''agent_identities_fingerprint_uidx'')
      else if \<not> host_exists (ir_host_id n) d
      then Inl (ForeignKeyViolation ''agent_identities_host_id_fkey'')
      else Inr ((db_identity_seq d, t),
             d\<lparr>db_identities := db_identities d @
                  [n\<lparr>ir_id := db_identity_seq d, ir_issued_at := t, ir_revoked_at := None,
                     ir_revoked_reason := None\<rparr>],
               db_identity_seq := db_identity_seq d + 1\<rparr>))"

definition current_identity_sql :: "string \<Rightarrow> instant \<Rightarrow> db \<Rightarrow> db_error + identity_row" where
  "current_identity_sql h t d =
     first_row (sort_key (\<lambda>r. - ir_issued_at r)
       (filter (\<lambda>r. ir_host_id r = h \<and> ir_revoked_at r = None) (db_identities d)))"

definition revoke_identity_sql :: "int \<Rightarrow> string \<Rightarrow> instant \<Rightarrow> db \<Rightarrow> db_error + nat \<times> db" where
  "revoke_identity_sql k reason t d =
     (let hit = (\<lambda>r. ir_id r = k \<and> ir_revoked_at r = None)
      in Inr (length (filter hit (db_identities d)),
              d\<lparr>db_identities := update_where hit
                  (\<lambda>r. r\<lparr>ir_revoked_at := Some t, ir_revoked_reason := Some reason\<rparr>) (db_identities d)\<rparr>))"

definition identity_Insert :: "identity_row \<Rightarrow> world \<Rightarrow> (go_error + int \<times> instant) \<times> world" where
  "identity_Insert n w = wrap_err ''identities: insert'' (exec_stmt (insert_identity_sql n) w)"

definition identity_GetByCertFingerprint :: "string \<Rightarrow> world \<Rightarrow> (go_error + identity_row) \<times> world" where
  "identity_GetByCertFingerprint fp w =
     (case exec_query (\<lambda>_ d. first_row (filter (\<lambda>r. ir_cert_fingerprint r = fp) (db_identities d))) w of
        (Inl e, w1) \<Rightarrow> (Inl (row_error ''identities'' ''identities: get by fingerprint'' e), w1)
      | (Inr r, w1) \<Rightarrow> (Inr r, w1))"

definition identity_GetCurrentByHostID :: "string \<Rightarrow> world \<Rightarrow> (go_error + identity_row) \<times> world" where
  "identity_GetCurrentByHostID h w =
     (case exec_query (current_identity_sql h) w of
        (Inl e, w1) \<Rightarrow> (Inl (row_error ''identities'' ''identities: get current'' e), w1)
      | (Inr r, w1) \<Rightarrow> (Inr r, w1))"

definition identity_Revoke :: "int \<Rightarrow> string \<Rightarrow> world \<Rightarrow> (go_error + unit) \<times> world" where
  "identity_Revoke k reason w =
     (case exec_stmt (revoke_identity_sql k reason) w of
        (Inl e, w1) \<Rightarrow> (Inl (Wrapped ''identities: revoke'' e), w1)
      | (Inr n, w1) \<Rightarrow>
          if n = 0 then (Inl (ErrorText (''identities: '' @ itoa k @ '' not found or already revoked'')), w1)
          else (Inr (), w1))"

subsection \<open>Integrity\<close>

lemma db_ok_identitiesI:
  assumes "db_ok d" "identities_ok is'" "\<And>r. r \<in> set is' \<Longrightarrow> ir_id r < q"
    "\<And>r. r \<in> set is' \<Longrightarrow> host_exists (ir_host_id r) d"
  shows "db_ok (d\<lparr>db_identities := is', db_identity_seq := q\<rparr>)"
  using assms by (auto simp: db_ok_def refs_ok_def host_exists_def)

lemma identities_okD:
  "identities_ok rs \<Longrightarrow> r \<in> set rs \<Longrightarrow> r' \<in> set rs \<Longrightarrow> ir_revoked_at r = None \<Longrightarrow>
   ir_revoked_at r' = None \<Longrightarrow> ir_cert_fingerprint r = ir_cert_fingerprint r' \<Longrightarrow> ir_id r = ir_id r'"
  unfolding identities_ok_def by blast

lemma identities_ok_snoc:
  assumes "identities_ok rs" "ir_id n \<notin> ir_id ` set rs"
    "\<And>r. r \<in> set rs \<Longrightarrow> ir_revoked_at r = None \<Longrightarrow> ir_cert_fingerprint r \<noteq> ir_cert_fingerprint n"
  shows "identities_ok (rs @ [n])"
  unfolding identities_ok_def
proof (intro conjI ballI impI)
  show "distinct (map ir_id (rs @ [n]))"
    using assms(1,2) by (simp add: identities_ok_def)
next
  fix r r' assume "r \<in> set (rs @ [n])" "r' \<in> set (rs @ [n])"
    and eq: "ir_revoked_at r = None \<and> ir_revoked_at r' = None \<and> ir_cert_fingerprint r = ir_cert_fingerprint r'"
  then consider "r \<in> set rs" "r' \<in> set rs" | "r \<in> set rs" "r' = n" | "r = n" "r' \<in> set rs" | "r = r'"
    by auto
  then show "ir_id r = ir_id r'"
    by cases (use eq assms(3) identities_okD [OF assms(1)] in metis)+
qed

lemma insert_identity_db_ok:
  assumes "insert_identity_sql n t d = Inr (a, d')" "db_ok d"
  shows "db_ok d'"
proof -
  let ?n = "n\<lparr>ir_id := db_identity_seq d, ir_issued_at := t, ir_revoked_at := None, ir_revoked_reason := None\<rparr>"
  have d': "d' = d\<lparr>db_identities := db_identities d @ [?n], db_identity_seq := db_identity_seq d + 1\<rparr>"
    and free: "\<forall>r \<in> set (db_identities d). \<not> (ir_revoked_at r = None \<and> ir_cert_fingerprint r = ir_cert_fingerprint n)"
    and h: "host_exists (ir_host_id n) d"
    using assms(1) by (auto simp: insert_identity_sql_def split: if_splits)
  have old: "identities_ok (db_identities d)" "\<forall>r \<in> set (db_identities d). ir_id r < db_identity_seq d"
    "\<forall>r \<in> set (db_identities d). host_exists (ir_host_id r) d"
    using assms(2) by (simp_all add: db_ok_def refs_ok_def)
  have "identities_ok (db_identities d @ [?n])"
    by (rule identities_ok_snoc [OF old(1)]) (use old(2) free in auto)
  then show ?thesis unfolding d'
    by (rule db_ok_identitiesI [OF assms(2)]) (use old h in \<open>auto simp: less_Suc_eq\<close>)
qed

lemma revoke_identity_db_ok:
  assumes "revoke_identity_sql k reason t d = Inr (a, d')" "db_ok d"
  shows "db_ok d'"
proof -
  let ?P = "\<lambda>r. ir_id r = k \<and> ir_revoked_at r = None"
  let ?f = "\<lambda>r. r\<lparr>ir_revoked_at := Some t, ir_revoked_reason := Some reason\<rparr>"
  let ?is = "update_where ?P ?f (db_identities d)"
  have d': "d' = d\<lparr>db_identities := ?is, db_identity_seq := db_identity_seq d\<rparr>"
    using assms(1) by (auto simp: revoke_identity_sql_def Let_def)
  have mem: "\<exists>x \<in> set (db_identities d). ir_id r = ir_id x \<and> ir_host_id r = ir_host_id x \<and>
      ir_cert_fingerprint r = ir_cert_fingerprint x \<and> (ir_revoked_at r = None \<longrightarrow> ir_revoked_at x = None)"
    if "r \<in> set ?is" for r
    using that unfolding set_update_where by (elim imageE) auto
  have old: "distinct (map ir_id (db_identities d))"
    using assms(2) by (simp add: db_ok_def identities_ok_def)
  have "identities_ok ?is"
    unfolding identities_ok_def
  proof (intro conjI ballI impI)
    show "distinct (map ir_id ?is)" using old by simp
  next
    fix r r' assume "r \<in> set ?is" "r' \<in> set ?is"
      "ir_revoked_at r = None \<and> ir_revoked_at r' = None \<and> ir_cert_fingerprint r = ir_cert_fingerprint r'"
    with mem [of r] mem [of r'] obtain x x' where
      "x \<in> set (db_identities d)" "x' \<in> set (db_identities d)" "ir_revoked_at x = None" "ir_revoked_at x' = None"
      "ir_cert_fingerprint x = ir_cert_fingerprint x'" "ir_id r = ir_id x" "ir_id r' = ir_id x'"
      by metis
    moreover have "identities_ok (db_identities d)" using assms(2) by (simp add: db_ok_def)
    ultimately show "ir_id r = ir_id r'" using identities_okD by metis
  qed
  then show ?thesis unfolding d'
  proof (rule db_ok_identitiesI [OF assms(2)])
    fix r assume "r \<in> set ?is"
    then show "ir_id r < db_identity_seq d" "host_exists (ir_host_id r) d"
      using mem [of r] assms(2) by (auto simp: db_ok_def refs_ok_def)
  qed
qed

lemma identity_Insert_keeps:
  assumes "\<And>t a d'. insert_identity_sql n t (w_db w) = Inr (a, d') \<Longrightarrow> I d'" "I (w_db w)"
  shows "I (w_db (snd (identity_Insert n w)))"
  unfolding identity_Insert_def snd_wrap_err by (rule exec_stmt_keeps) (use assms in auto)

lemma identity_Insert_db_ok: "db_ok (w_db w) \<Longrightarrow> db_ok (w_db (snd (identity_Insert n w)))"
  by (rule identity_Insert_keeps) (auto intro: insert_identity_db_ok)

lemma insert_identity_frame:
  "insert_identity_sql n t d = Inr (a, d') \<Longrightarrow>
     db_hosts d' = db_hosts d \<and> db_tokens d' = db_tokens d \<and> db_commands d' = db_commands d
     \<and> db_configs d' = db_configs d \<and> db_events d' = db_events d"
  by (auto simp: insert_identity_sql_def split: if_splits)

lemma insert_identity_row:
  "insert_identity_sql n t d = Inr (q, d') \<Longrightarrow>
     \<exists>r \<in> set (db_identities d'). ir_host_id r = ir_host_id n \<and> ir_cert_pem r = ir_cert_pem n
       \<and> ir_cert_fingerprint r = ir_cert_fingerprint n \<and> ir_revoked_at r = None \<and> ir_expires_at r = ir_expires_at n
       \<and> ir_issued_at r = t"
  by (auto simp: insert_identity_sql_def split: if_splits)

end
