(* ===== verification/GoQuote.thy ===== *)
theory GoQuote
  imports Prelude
begin

text \<open>
  The verb \<open>%q\<close> of \<open>fmt\<close> on a string (\<open>strconv.Quote\<close>), with the decoding of UTF-8 it
  rests on. Which code points from 128 on are printable is a table of the library, the parameter
  \<open>is_print\<close>.
\<close>

abbreviation byte_code :: "char \<Rightarrow> nat" where "byte_code c \<equiv> of_char c"

definition cont :: "nat \<Rightarrow> nat \<Rightarrow> char \<Rightarrow> bool" where
  "cont lo hi c \<longleftrightarrow> lo \<le> byte_code c \<and> byte_code c \<le> hi"

text \<open>The code point and width of the rune at the start of a text whose first byte is at least 128;
  \<open>None\<close> for an invalid encoding, of which one byte is taken.\<close>

definition decode_rune :: "string \<Rightarrow> (nat \<times> nat) option" where
  "decode_rune s =
     (case s of
        [] \<Rightarrow> None
      | c0 # r \<Rightarrow>
          (let b = byte_code c0 in
           if 0xC2 \<le> b \<and> b \<le> 0xDF then
             (case r of c1 # _ \<Rightarrow>
                if cont 0x80 0xBF c1 then Some ((b - 0xC0) * 64 + (byte_code c1 - 0x80), 2) else None
              | [] \<Rightarrow> None)
           else if 0xE0 \<le> b \<and> b \<le> 0xEF then
             (case r of c1 # c2 # _ \<Rightarrow>
                if cont (if b = 0xE0 then 0xA0 else 0x80) (if b = 0xED then 0x9F else 0xBF) c1 \<and> cont 0x80 0xBF c2
                then Some ((b - 0xE0) * 4096 + (byte_code c1 - 0x80) * 64 + (byte_code c2 - 0x80), 3) else None
              | _ \<Rightarrow> None)
           else if 0xF0 \<le> b \<and> b \<le> 0xF4 then
             (case r of c1 # c2 # c3 # _ \<Rightarrow>
                if cont (if b = 0xF0 then 0x90 else 0x80) (if b = 0xF4 then 0x8F else 0xBF) c1
                   \<and> cont 0x80 0xBF c2 \<and> cont 0x80 0xBF c3
                then Some ((b - 0xF0) * 262144 + (byte_code c1 - 0x80) * 4096 + (byte_code c2 - 0x80) * 64
                             + (byte_code c3 - 0x80), 4) else None
              | _ \<Rightarrow> None)
           else None))"

fun hex_digits_fixed :: "nat \<Rightarrow> nat \<Rightarrow> string" where
  "hex_digits_fixed 0 n = []"
| "hex_digits_fixed (Suc k) n = hex_digits_fixed k (n div 16) @ [hex_digit (n mod 16)]"

definition simple_escape :: "nat \<Rightarrow> char option" where
  "simple_escape b =
     (if b = 7 then Some CHR ''a'' else if b = 8 then Some CHR ''b'' else if b = 12 then Some CHR ''f''
      else if b = 10 then Some CHR ''n'' else if b = 13 then Some CHR ''r'' else if b = 9 then Some CHR ''t''
      else if b = 11 then Some CHR ''v'' else None)"

definition quote_ascii :: "char \<Rightarrow> string" where
  "quote_ascii c =
     (if c = CHR 0x22 \<or> c = CHR 0x5C then [CHR 0x5C, c]
      else if 32 \<le> byte_code c \<and> byte_code c < 127 then [c]
      else case simple_escape (byte_code c) of
             Some e \<Rightarrow> [CHR 0x5C, e]
           | None \<Rightarrow> [CHR 0x5C, CHR ''x''] @ hex_digits_fixed 2 (byte_code c))"

definition quote_wide :: "(nat \<Rightarrow> bool) \<Rightarrow> nat \<Rightarrow> string \<Rightarrow> string" where
  "quote_wide is_print cp enc =
     (if is_print cp then enc
      else if cp < 0x10000 then [CHR 0x5C, CHR ''u''] @ hex_digits_fixed 4 cp
      else [CHR 0x5C, CHR ''U''] @ hex_digits_fixed 8 cp)"

function quote_body :: "(nat \<Rightarrow> bool) \<Rightarrow> string \<Rightarrow> string" where
  "quote_body is_print [] = []"
| "quote_body is_print (c # s) =
     (if byte_code c < (0x80::nat) then quote_ascii c @ quote_body is_print s
      else case decode_rune (c # s) of
             None \<Rightarrow> [CHR 0x5C, CHR ''x''] @ hex_digits_fixed 2 (byte_code c) @ quote_body is_print s
           | Some (cp, k) \<Rightarrow>
               quote_wide is_print cp (take k (c # s)) @ quote_body is_print (drop (k - 1) s))"
  by pat_completeness auto
termination
  by (relation "measure (\<lambda>(_, s). length s)") auto

definition go_quote :: "(nat \<Rightarrow> bool) \<Rightarrow> string \<Rightarrow> string" where
  "go_quote is_print s = CHR 0x22 # quote_body is_print s @ [CHR 0x22]"

subsection \<open>A quoted text ends at its closing quote\<close>

text \<open>A reader of the usual kind: a backslash takes the next byte with it, a quote ends the text.\<close>

fun after_quote :: "string \<Rightarrow> string option" where
  "after_quote [] = None"
| "after_quote (c # s) =
     (if c = CHR 0x22 then Some s
      else if c = CHR 0x5C then (case s of [] \<Rightarrow> None | _ # r \<Rightarrow> after_quote r)
      else after_quote s)"

definition plain_byte :: "char \<Rightarrow> bool" where
  "plain_byte c \<longleftrightarrow> c \<noteq> CHR 0x22 \<and> c \<noteq> CHR 0x5C \<and> 32 \<le> byte_code c \<and> byte_code c \<noteq> (127::nat)"

lemma after_quote_plain: "list_all plain_byte p \<Longrightarrow> after_quote (p @ s) = after_quote s"
  by (induction p) (auto simp: plain_byte_def)

lemma after_quote_escape: "after_quote (CHR 0x5C # e # s) = after_quote s"
  by simp

lemma plain_hex_digit: "d < 16 \<Longrightarrow> plain_byte (hex_digit d)"
  by (simp add: plain_byte_def hex_digit_def) (auto dest!: arg_cong [where f = "of_char :: char \<Rightarrow> nat"])

lemma plain_hex_digits: "list_all plain_byte (hex_digits_fixed k n)"
  by (induction k n rule: hex_digits_fixed.induct) (auto simp: plain_hex_digit)

lemma high_byte_plain: "\<not> byte_code c < (0x80::nat) \<Longrightarrow> plain_byte c"
  by (auto simp: plain_byte_def)

lemma cont_plain: "cont lo hi c \<Longrightarrow> 0x80 \<le> lo \<Longrightarrow> plain_byte c"
  by (rule high_byte_plain) (simp add: cont_def)

text \<open>The three shapes of a valid encoding.\<close>

lemma decode_rune_shape:
  assumes "decode_rune (c # s) = Some (cp, k)"
  obtains (two) c1 r where "s = c1 # r" "k = 2" "plain_byte c1"
  | (three) c1 c2 r where "s = c1 # c2 # r" "k = 3" "plain_byte c1" "plain_byte c2"
  | (four) c1 c2 c3 r where "s = c1 # c2 # c3 # r" "k = 4" "plain_byte c1" "plain_byte c2" "plain_byte c3"
proof -
  consider "0xC2 \<le> byte_code c \<and> byte_code c \<le> (0xDF::nat)"
    | "\<not> (0xC2 \<le> byte_code c \<and> byte_code c \<le> (0xDF::nat))" "0xE0 \<le> byte_code c \<and> byte_code c \<le> (0xEF::nat)"
    | "\<not> (0xC2 \<le> byte_code c \<and> byte_code c \<le> (0xDF::nat))" "\<not> (0xE0 \<le> byte_code c \<and> byte_code c \<le> (0xEF::nat))"
    by blast
  then show ?thesis
  proof cases
    case 1
    with assms obtain c1 r where "s = c1 # r" "k = 2" "cont 0x80 0xBF c1"
      unfolding decode_rune_def Let_def by (cases s) (auto split: if_splits)
    then show ?thesis by (intro two) (auto intro: cont_plain)
  next
    case 2
    with assms obtain c1 c2 r where "s = c1 # c2 # r" "k = 3" "\<exists>lo \<ge> 0x80. \<exists>hi. cont lo hi c1" "cont 0x80 0xBF c2"
      unfolding decode_rune_def Let_def
      by (cases s; cases "tl s") (auto split: if_splits, fastforce+)
    then show ?thesis by (intro three) (auto intro: cont_plain)
  next
    case 3
    with assms obtain c1 c2 c3 r where "s = c1 # c2 # c3 # r" "k = 4" "\<exists>lo \<ge> 0x80. \<exists>hi. cont lo hi c1"
      "cont 0x80 0xBF c2" "cont 0x80 0xBF c3"
      unfolding decode_rune_def Let_def
      by (cases s; cases "tl s"; cases "tl (tl s)") (auto split: if_splits, fastforce+)
    then show ?thesis by (intro four) (auto intro: cont_plain)
  qed
qed

lemma decode_rune_bytes:
  assumes "decode_rune (c # s) = Some (cp, k)" "\<not> byte_code c < (0x80::nat)"
  shows "list_all plain_byte (take k (c # s))"
  using assms(1)
proof (cases rule: decode_rune_shape)
qed (use high_byte_plain [OF assms(2)] in \<open>simp_all add: eval_nat_numeral\<close>)

lemma after_quote_ascii: "after_quote (quote_ascii c @ s) = after_quote s"
proof -
  consider "c = CHR 0x22 \<or> c = CHR 0x5C" | "c \<noteq> CHR 0x22" "c \<noteq> CHR 0x5C" "32 \<le> byte_code c \<and> byte_code c < (127::nat)"
    | "c \<noteq> CHR 0x22" "c \<noteq> CHR 0x5C" "\<not> (32 \<le> byte_code c \<and> byte_code c < (127::nat))" by blast
  then show ?thesis
  proof cases
    case 3
    then show ?thesis
      using after_quote_plain [OF plain_hex_digits, of 2 "byte_code c" s]
      by (cases "simple_escape (byte_code c)") (simp_all add: quote_ascii_def)
  qed (auto simp: quote_ascii_def)
qed

lemma after_quote_wide:
  assumes "decode_rune (c # s) = Some (cp, k)" "\<not> byte_code c < (0x80::nat)"
  shows "after_quote (quote_wide is_print cp (take k (c # s)) @ r) = after_quote r"
  using after_quote_plain [OF decode_rune_bytes [OF assms]] after_quote_plain [OF plain_hex_digits]
  by (simp add: quote_wide_def)

lemma after_quote_body: "after_quote (quote_body is_print s @ CHR 0x22 # r) = Some r"
proof (induction is_print s rule: quote_body.induct)
  case (1 is_print)
  then show ?case by simp
next
  case (2 is_print c s)
  show ?case
  proof (cases "byte_code c < (0x80::nat)")
    case True
    with "2.IH"(1) show ?thesis by (simp add: after_quote_ascii)
  next
    case False
    show ?thesis
    proof (cases "decode_rune (c # s)")
      case None
      with "2.IH"(2) False after_quote_plain [OF plain_hex_digits] show ?thesis by simp
    next
      case (Some x)
      obtain cp k where x: "x = (cp, k)" by (cases x)
      with "2.IH"(3) [OF False Some [unfolded x] refl] Some False after_quote_wide [OF Some [unfolded x] False]
      show ?thesis by simp
    qed
  qed
qed

lemma after_quote_go_quote: "after_quote (tl (go_quote is_print s) @ r) = Some r"
  by (simp add: go_quote_def after_quote_body)

text \<open>And it has no line break.\<close>

definition one_line :: "string \<Rightarrow> bool" where
  "one_line s \<longleftrightarrow> CHR 0x0A \<notin> set s"

lemma plain_one_line: "list_all plain_byte p \<Longrightarrow> one_line p"
proof -
  assume p: "list_all plain_byte p"
  have "\<not> plain_byte CHR 0x0A" by (simp add: plain_byte_def)
  with p show "one_line p" unfolding one_line_def list_all_iff by blast
qed

lemma one_line_append [simp]: "one_line (a @ b) \<longleftrightarrow> one_line a \<and> one_line b"
  by (auto simp: one_line_def)

lemma one_line_Cons [simp]: "one_line (c # s) \<longleftrightarrow> c \<noteq> CHR 0x0A \<and> one_line s" "one_line []"
  by (auto simp: one_line_def)

lemma simple_escape_plain: "simple_escape b = Some e \<Longrightarrow> e \<noteq> CHR 0x0A"
  by (auto simp: simple_escape_def split: if_splits)

lemma quote_ascii_one_line: "one_line (quote_ascii c)"
proof -
  consider "c = CHR 0x22 \<or> c = CHR 0x5C" | "c \<noteq> CHR 0x22" "c \<noteq> CHR 0x5C" "32 \<le> byte_code c \<and> byte_code c < (127::nat)"
    | "c \<noteq> CHR 0x22" "c \<noteq> CHR 0x5C" "\<not> (32 \<le> byte_code c \<and> byte_code c < (127::nat))" by blast
  then show ?thesis
  proof cases
    case 2
    then have "c \<noteq> CHR 0x0A" by auto
    with 2 show ?thesis by (simp add: quote_ascii_def)
  next
    case 3
    then have q: "quote_ascii c = (case simple_escape (byte_code c) of
        Some e \<Rightarrow> [CHR 0x5C, e] | None \<Rightarrow> [CHR 0x5C, CHR ''x''] @ hex_digits_fixed 2 (byte_code c))"
      unfolding quote_ascii_def by (subst if_not_P, simp)+ simp
    show ?thesis unfolding q
      using plain_one_line [OF plain_hex_digits, of 2 "byte_code c"] simple_escape_plain [of "byte_code c"]
      by (cases "simple_escape (byte_code c)") simp_all
  qed (auto simp: quote_ascii_def)
qed

lemma quote_body_one_line: "one_line (quote_body is_print s)"
proof (induction is_print s rule: quote_body.induct)
  case (1 is_print)
  then show ?case by simp
next
  case (2 is_print c s)
  show ?case
  proof (cases "byte_code c < (0x80::nat)")
    case True
    with "2.IH"(1) show ?thesis by (simp add: quote_ascii_one_line)
  next
    case False
    show ?thesis
    proof (cases "decode_rune (c # s)")
      case None
      with "2.IH"(2) False plain_one_line [OF plain_hex_digits] show ?thesis by simp
    next
      case (Some x)
      obtain cp k where x: "x = (cp, k)" by (cases x)
      have "one_line (quote_wide is_print cp (take k (c # s)))"
        using plain_one_line [OF decode_rune_bytes [OF Some [unfolded x] False]] plain_one_line [OF plain_hex_digits]
        by (simp add: quote_wide_def)
      with "2.IH"(3) [OF False Some [unfolded x] refl] Some x False show ?thesis by simp
    qed
  qed
qed

lemma go_quote_one_line: "one_line (go_quote is_print s)"
  by (simp add: go_quote_def quote_body_one_line)

end
