(* ===== verification/ConfigStore.thy ===== *)
theory ConfigStore
  imports World GoQuote
begin

text \<open>
  \<open>internal/db/store/configs.go\<close>: the runtime configuration of a host (migration 00004), with a
  version that every change increments. \<open>Get\<close> answers for a host without a row with version 0
  and the built-in intervals; \<open>SetField\<close> changes one of two allowed columns, and refuses every
  other name before it builds the statement. The columns are 32-bit \<open>INTEGER\<close>s: the driver
  refuses a larger value.
\<close>

definition default_config :: "string \<Rightarrow> config_row" where
  "default_config h = \<lparr>cr_host_id = h, cr_config_version = 0, cr_heartbeat_interval_seconds = 30,
     cr_metric_collection_interval_seconds = 15, cr_log_sources = [], cr_updated_at = 0\<rparr>"

definition config_Get :: "string \<Rightarrow> world \<Rightarrow> (go_error + config_row) \<times> world" where
  "config_Get h w =
     (case exec_query (\<lambda>_ d. key_row cr_host_id h (db_configs d)) w of
        (Inl e, w1) \<Rightarrow>
          if is_no_rows e then (Inr (default_config h), w1)
          else (Inl (Wrapped (''configs: get '' @ h) e), w1)
      | (Inr c, w1) \<Rightarrow> (Inr c, w1))"

definition allowed_fields :: "string list" where
  "allowed_fields = [''heartbeat_interval_seconds'', ''metric_collection_interval_seconds'']"

definition set_column :: "string \<Rightarrow> int \<Rightarrow> config_row \<Rightarrow> config_row" where
  "set_column field v c =
     (if field = ''heartbeat_interval_seconds'' then c\<lparr>cr_heartbeat_interval_seconds := v\<rparr>
      else c\<lparr>cr_metric_collection_interval_seconds := v\<rparr>)"

text \<open>The row a first insert creates: the defaults of the migration, one column given.\<close>

definition new_config_row :: "string \<Rightarrow> string \<Rightarrow> int \<Rightarrow> instant \<Rightarrow> config_row" where
  "new_config_row h field v t =
     set_column field v \<lparr>cr_host_id = h, cr_config_version = 1, cr_heartbeat_interval_seconds = 30,
       cr_metric_collection_interval_seconds = 15, cr_log_sources = [], cr_updated_at = t\<rparr>"

definition set_field_sql :: "string \<Rightarrow> string \<Rightarrow> int \<Rightarrow> instant \<Rightarrow> db \<Rightarrow> db_error + unit \<times> db" where
  "set_field_sql h field v t d =
     (if \<not> in_i32 v then Inl ParameterRange
      else case find_by cr_host_id h (db_configs d) of
             Some _ \<Rightarrow>
               Inr ((), d\<lparr>db_configs := update_where (\<lambda>c. cr_host_id c = h)
                  (\<lambda>c. (set_column field v c)\<lparr>cr_config_version := cr_config_version c + 1,
                         cr_updated_at := t\<rparr>) (db_configs d)\<rparr>)
           | None \<Rightarrow>
               if \<not> host_exists h d then Inl (ForeignKeyViolation ''host_configs_host_id_fkey'')
               else Inr ((), d\<lparr>db_configs := db_configs d @ [new_config_row h field v t]\<rparr>))"

definition config_SetField :: "(nat \<Rightarrow> bool) \<Rightarrow> string \<Rightarrow> string \<Rightarrow> int \<Rightarrow> world \<Rightarrow> (go_error + unit) \<times> world" where
  "config_SetField ip h field v w =
     (if field \<notin> set allowed_fields
      then (Inl (ErrorText (''configs: field '' @ go_quote ip field @ '' is not updatable'')), w)
      else wrap_err (''configs: set '' @ field @ '' for '' @ h) (exec_stmt (set_field_sql h field v) w))"

subsection \<open>Integrity\<close>

lemma set_column_key [simp]: "cr_host_id (set_column field v c) = cr_host_id c"
  "cr_config_version (set_column field v c) = cr_config_version c"
  by (simp_all add: set_column_def)

lemma db_ok_configsI:
  assumes "db_ok d" "distinct (map cr_host_id cs)" "\<And>c. c \<in> set cs \<Longrightarrow> host_exists (cr_host_id c) d"
  shows "db_ok (d\<lparr>db_configs := cs\<rparr>)"
  using assms by (auto simp: db_ok_def refs_ok_def host_exists_def)

lemma set_field_db_ok:
  assumes "set_field_sql h field v t d = Inr (u, d')" "db_ok d"
  shows "db_ok d'"
proof -
  have old: "distinct (map cr_host_id (db_configs d))"
    "\<And>c. c \<in> set (db_configs d) \<Longrightarrow> host_exists (cr_host_id c) d"
    using assms(2) by (simp_all add: db_ok_def refs_ok_def)
  show ?thesis
  proof (cases "find_by cr_host_id h (db_configs d)")
    case None
    with assms(1) have "d' = d\<lparr>db_configs := db_configs d @ [new_config_row h field v t]\<rparr>"
      "host_exists h d"
      by (auto simp: set_field_sql_def split: if_splits)
    with None old show ?thesis
      by (auto simp: new_config_row_def find_by_None intro!: db_ok_configsI [OF assms(2)])
  next
    case (Some c)
    let ?f = "\<lambda>c. (set_column field v c)\<lparr>cr_config_version := cr_config_version c + 1, cr_updated_at := t\<rparr>"
    from Some assms(1) have d': "d' = d\<lparr>db_configs := update_where (\<lambda>c. cr_host_id c = h) ?f (db_configs d)\<rparr>"
      by (auto simp: set_field_sql_def split: if_splits)
    have "host_exists (cr_host_id x) d"
      if "x \<in> set (update_where (\<lambda>c. cr_host_id c = h) ?f (db_configs d))" for x
      by (rule update_where_keeps [OF _ _ that]) (use old(2) in \<open>auto simp: set_column_key\<close>)
    moreover have "distinct (map cr_host_id (update_where (\<lambda>c. cr_host_id c = h) ?f (db_configs d)))"
      using old(1) by simp
    ultimately show ?thesis unfolding d' by (intro db_ok_configsI [OF assms(2)])
  qed
qed

lemma config_SetField_db_ok: "db_ok (w_db w) \<Longrightarrow> db_ok (w_db (snd (config_SetField ip h field v w)))"
  by (auto simp: config_SetField_def intro: exec_stmt_keeps set_field_db_ok)

lemma set_field_frame:
  "set_field_sql h field v t d = Inr (u, d') \<Longrightarrow>
     db_hosts d' = db_hosts d \<and> db_tokens d' = db_tokens d \<and> db_commands d' = db_commands d
     \<and> db_identities d' = db_identities d \<and> db_events d' = db_events d"
  by (auto simp: set_field_sql_def split: if_splits option.splits)

lemma config_Get_db [simp]: "w_db (snd (config_Get h w)) = w_db w"
  by (auto simp: config_Get_def exec_query_dbD split: prod.splits sum.splits)

lemma config_Get_NoFault:
  "w_fault w (w_tick w) = NoFault \<Longrightarrow>
   config_Get h w = (Inr (case find_by cr_host_id h (db_configs (w_db w)) of
                            None \<Rightarrow> default_config h | Some c \<Rightarrow> c), tick w)"
  by (auto simp: config_Get_def exec_query_NoFault key_row_def split: option.splits)

text \<open>The intervals that reach an agent fit the 32-bit fields of the message.\<close>

definition configs_in_range :: "db \<Rightarrow> bool" where
  "configs_in_range d \<longleftrightarrow> (\<forall>c \<in> set (db_configs d).
     in_i32 (cr_heartbeat_interval_seconds c) \<and> in_i32 (cr_metric_collection_interval_seconds c)
     \<and> cr_config_version c \<ge> 1)"

lemma set_field_in_range:
  assumes "set_field_sql h field v t d = Inr (u, d')" "configs_in_range d"
  shows "configs_in_range d'"
proof -
  have v: "in_i32 v" using assms(1) by (simp add: set_field_sql_def split: if_splits)
  show ?thesis
  proof (cases "find_by cr_host_id h (db_configs d)")
    case None
    with assms(1) have "d' = d\<lparr>db_configs := db_configs d @ [new_config_row h field v t]\<rparr>"
      by (auto simp: set_field_sql_def split: if_splits)
    with assms(2) v show ?thesis
      by (auto simp: configs_in_range_def new_config_row_def set_column_def) (simp_all add: in_i32_def)
  next
    case (Some c)
    with assms(1) have "db_configs d' = update_where (\<lambda>c. cr_host_id c = h)
        (\<lambda>c. (set_column field v c)\<lparr>cr_config_version := cr_config_version c + 1, cr_updated_at := t\<rparr>)
        (db_configs d)"
      by (auto simp: set_field_sql_def split: if_splits)
    with assms(2) v show ?thesis
      by (auto simp: configs_in_range_def set_update_where set_column_def)
  qed
qed

text \<open>The row a change leaves, made of the one that \<open>Get\<close> gave before; the other rows stay.\<close>

lemma set_field_found:
  assumes "set_field_sql h f v t d = Inr (u, d')" "f \<in> set allowed_fields"
  defines "c \<equiv> (case find_by cr_host_id h (db_configs d) of None \<Rightarrow> default_config h | Some c \<Rightarrow> c)"
  shows "find_by cr_host_id h (db_configs d') =
    Some ((set_column f v c)\<lparr>cr_config_version := cr_config_version c + 1, cr_updated_at := t\<rparr>)"
proof (cases "find_by cr_host_id h (db_configs d)")
  case None
  then have "db_configs d' = db_configs d @ [new_config_row h f v t]"
    using assms(1) by (auto simp: set_field_sql_def split: if_splits)
  with None show ?thesis
    by (simp add: find_by_append new_config_row_def c_def default_config_def set_column_def)
next
  case (Some x)
  let ?f = "\<lambda>c. (set_column f v c)\<lparr>cr_config_version := cr_config_version c + 1, cr_updated_at := t\<rparr>"
  have "db_configs d' = update_where (\<lambda>c. cr_host_id c = h) ?f (db_configs d)"
    using assms(1) Some by (auto simp: set_field_sql_def split: if_splits)
  moreover have "cr_host_id x = h" using Some by (blast dest: find_by_SomeD)
  ultimately show ?thesis using Some by (simp add: find_by_update_where c_def)
qed

lemma set_field_others:
  assumes "set_field_sql h f v t d = Inr (u, d')" "k \<noteq> h"
  shows "find_by cr_host_id k (db_configs d') = find_by cr_host_id k (db_configs d)"
proof (cases "find_by cr_host_id h (db_configs d)")
  case None
  then have "db_configs d' = db_configs d @ [new_config_row h f v t]"
    using assms(1) by (auto simp: set_field_sql_def split: if_splits)
  then show ?thesis
    using assms(2) by (simp add: find_by_append new_config_row_def set_column_def split: option.split)
next
  case (Some x)
  let ?f = "\<lambda>c. (set_column f v c)\<lparr>cr_config_version := cr_config_version c + 1, cr_updated_at := t\<rparr>"
  have "db_configs d' = update_where (\<lambda>c. cr_host_id c = h) ?f (db_configs d)"
    using assms(1) Some by (auto simp: set_field_sql_def split: if_splits)
  then have "find_by cr_host_id k (db_configs d') =
      map_option (\<lambda>r. if cr_host_id r = h then ?f r else r) (find_by cr_host_id k (db_configs d))"
    by (simp add: find_by_update_where)
  then show ?thesis
    using assms(2) by (cases "find_by cr_host_id k (db_configs d)") (auto dest: find_by_SomeD)
qed

text \<open>A successful \<open>SetField\<close> is read back by \<open>Get\<close>: the named column has the new value, the
  version is one more than \<open>Get\<close> gave before (so a first change gives version 1), the other
  column keeps what \<open>Get\<close> gave before, and no other host's configuration changes.\<close>

theorem SetField_Get:
  assumes "config_SetField ip h field v w = (Inr (), w')"
    "w_fault w (w_tick w) = NoFault" "w_fault w' (w_tick w') = NoFault"
    "config_Get h w = (Inr c, w0)" "config_Get h w' = (Inr c', w1)"
  shows "cr_config_version c' = cr_config_version c + 1
    \<and> cr_heartbeat_interval_seconds c' =
        (if field = ''heartbeat_interval_seconds'' then v else cr_heartbeat_interval_seconds c)
    \<and> cr_metric_collection_interval_seconds c' =
        (if field = ''metric_collection_interval_seconds'' then v else cr_metric_collection_interval_seconds c)
    \<and> (\<forall>k. k \<noteq> h \<longrightarrow> find_by cr_host_id k (db_configs (w_db w')) = find_by cr_host_id k (db_configs (w_db w)))"
proof -
  have fld: "field \<in> set allowed_fields"
    and sql: "set_field_sql h field v (w_clock w (w_tick w)) (w_db w) = Inr ((), w_db w')"
    using assms(1) by (auto simp: config_SetField_def exec_stmt_Inr split: if_splits)
  have c: "c = (case find_by cr_host_id h (db_configs (w_db w)) of None \<Rightarrow> default_config h | Some c \<Rightarrow> c)"
    and c': "c' = (case find_by cr_host_id h (db_configs (w_db w')) of None \<Rightarrow> default_config h | Some c \<Rightarrow> c)"
    using assms(2-5) by (simp_all add: config_Get_NoFault)
  have "c' = (set_column field v c)\<lparr>cr_config_version := cr_config_version c + 1, cr_updated_at := w_clock w (w_tick w)\<rparr>"
    using set_field_found [OF sql fld] by (simp add: c c')
  then show ?thesis
    using fld set_field_others [OF sql] by (auto simp: set_column_def allowed_fields_def)
qed

theorem SetField_Get_witness:
  "\<exists>w' c'. config_SetField (\<lambda>_. True) ''H1'' ''heartbeat_interval_seconds'' 60
        (calm_world (empty_db\<lparr>db_hosts := [plain_host ''H1'']\<rparr>)) = (Inr (), w')
     \<and> fst (config_Get ''H1'' w') = Inr c' \<and> cr_config_version c' = 1
     \<and> cr_heartbeat_interval_seconds c' = 60 \<and> cr_metric_collection_interval_seconds c' = 15"
proof -
  let ?w = "calm_world (empty_db\<lparr>db_hosts := [plain_host ''H1'']\<rparr>)"
  define w' where "w' = snd (config_SetField (\<lambda>_. True) ''H1'' ''heartbeat_interval_seconds'' 60 ?w)"
  define c' where "c' = (case find_by cr_host_id ''H1'' (db_configs (w_db w')) of
      None \<Rightarrow> default_config ''H1'' | Some c \<Rightarrow> c)"
  have a: "config_SetField (\<lambda>_. True) ''H1'' ''heartbeat_interval_seconds'' 60 ?w = (Inr (), w')"
    by (simp add: w'_def config_SetField_def allowed_fields_def exec_stmt_NoFault calm_world_def
        set_field_sql_def in_i32_def empty_db_def host_exists_def plain_host_def wrap_err_def)
  have f: "w_fault ?w (w_tick ?w) = NoFault" "w_fault w' (w_tick w') = NoFault"
    by (simp_all add: w'_def config_SetField_def allowed_fields_def calm_world_def)
  have g: "config_Get ''H1'' ?w = (Inr (default_config ''H1''), tick ?w)"
    by (simp add: config_Get_NoFault calm_world_def empty_db_def)
  have g': "config_Get ''H1'' w' = (Inr c', tick w')"
    by (simp add: config_Get_NoFault [OF f(2)] c'_def)
  show ?thesis using a g' SetField_Get [OF a f g g'] by (simp add: default_config_def)
qed

end
