(* ===== verification/CommandStore.thy ===== *)
theory CommandStore
  imports World
begin

text \<open>
  \<open>internal/db/store/commands.go\<close>: the table \<open>command_executions\<close> (migration 00005), the
  audit log of commands. A row doubles as the Go struct \<open>CommandExecution\<close>. \<open>Insert\<close>
  stores a pending execution, \<open>Complete\<close> records a result, whatever the status was.
\<close>

definition insert_command_sql :: "command_row \<Rightarrow> instant \<Rightarrow> db \<Rightarrow> db_error + unit \<times> db" where
  "insert_command_sql n t d =
     (if \<not> in_i32 (xr_tier n) then Inl ParameterRange
      else if xr_id n \<in> xr_id ` set (db_commands d) then Inl (UniqueViolation ''command_executions_pkey'')
      else if \<not> host_exists (xr_host_id n) d
      then Inl (ForeignKeyViolation ''command_executions_host_id_fkey'')
      else Inr ((), d\<lparr>db_commands := db_commands d @
             [\<lparr>xr_id = xr_id n, xr_host_id = xr_host_id n, xr_tier = xr_tier n,
               xr_command_json = xr_command_json n, xr_reason = xr_reason n,
               xr_issued_by = xr_issued_by n, xr_issued_at = t, xr_completed_at = None,
               xr_exit_code = None, xr_stdout = None, xr_stderr = None, xr_stdout_truncated = False,
               xr_stderr_truncated = False, xr_duration_ms = None, xr_error = None,
               xr_status = ''pending''\<rparr>]\<rparr>))"

definition nullif_empty :: "string \<Rightarrow> string option" where
  "nullif_empty s = (if s = [] then None else Some s)"

definition complete_command_sql ::
  "string \<Rightarrow> int \<Rightarrow> string \<Rightarrow> string \<Rightarrow> bool \<Rightarrow> bool \<Rightarrow> int \<Rightarrow> string \<Rightarrow> string \<Rightarrow> instant \<Rightarrow> db
     \<Rightarrow> db_error + unit \<times> db" where
  "complete_command_sql k code out err otr etr ms agentErr st t d =
     (if \<not> in_i32 code then Inl ParameterRange
      else Inr ((), d\<lparr>db_commands := update_where (\<lambda>r. xr_id r = k)
             (\<lambda>r. r\<lparr>xr_completed_at := Some t, xr_exit_code := Some code, xr_stdout := Some out,
                    xr_stderr := Some err, xr_stdout_truncated := otr, xr_stderr_truncated := etr,
                    xr_duration_ms := Some ms, xr_error := nullif_empty agentErr, xr_status := st\<rparr>)
             (db_commands d)\<rparr>))"

text \<open>Postgres refuses a negative \<open>LIMIT\<close>.\<close>

definition list_by_host_sql :: "string \<Rightarrow> int \<Rightarrow> instant \<Rightarrow> db \<Rightarrow> db_error + command_row list" where
  "list_by_host_sql h limit t d =
     (if limit < 0 then Inl ParameterRange
      else Inr (newest xr_issued_at (nat limit) (filter (\<lambda>r. xr_host_id r = h) (db_commands d))))"

definition command_Insert :: "command_row \<Rightarrow> world \<Rightarrow> (go_error + unit) \<times> world" where
  "command_Insert c w =
     wrap_err (''commands: insert '' @ xr_id c) (exec_stmt (insert_command_sql c) w)"

definition complete_status :: "string \<Rightarrow> string" where
  "complete_status agentErr = (if agentErr \<noteq> [] then ''failed'' else ''completed'')"

definition command_Complete ::
  "string \<Rightarrow> int \<Rightarrow> string \<Rightarrow> string \<Rightarrow> bool \<Rightarrow> bool \<Rightarrow> int \<Rightarrow> string \<Rightarrow> world \<Rightarrow> (go_error + unit) \<times> world" where
  "command_Complete k code out err otr etr ms agentErr w =
     wrap_err (''commands: complete '' @ k)
       (exec_stmt (complete_command_sql k code out err otr etr ms agentErr (complete_status agentErr)) w)"

definition command_ListByHost :: "string \<Rightarrow> int \<Rightarrow> world \<Rightarrow> (go_error + command_row list) \<times> world" where
  "command_ListByHost h limit w =
     wrap_rows (''commands: list host '' @ h) w (exec_query (list_by_host_sql h limit) w)"

definition command_Get :: "string \<Rightarrow> world \<Rightarrow> (go_error + command_row) \<times> world" where
  "command_Get k w =
     wrap_err (''commands: get '' @ k) (exec_query (\<lambda>_ d. key_row xr_id k (db_commands d)) w)"

subsection \<open>Integrity\<close>

lemma db_ok_commandsI:
  assumes "db_ok d" "distinct (map xr_id cs)" "\<And>c. c \<in> set cs \<Longrightarrow> host_exists (xr_host_id c) d"
  shows "db_ok (d\<lparr>db_commands := cs\<rparr>)"
  using assms by (auto simp: db_ok_def refs_ok_def host_exists_def)

lemma db_ok_commands:
  "db_ok d \<Longrightarrow> distinct (map xr_id (db_commands d))"
  "db_ok d \<Longrightarrow> c \<in> set (db_commands d) \<Longrightarrow> host_exists (xr_host_id c) d"
  by (simp_all add: db_ok_def refs_ok_def)

lemma insert_command_db_ok: "insert_command_sql n t d = Inr (u, d') \<Longrightarrow> db_ok d \<Longrightarrow> db_ok d'"
  by (auto simp: insert_command_sql_def db_ok_commands intro!: db_ok_commandsI split: if_splits)

lemma complete_command_db_ok:
  assumes "complete_command_sql k code out err otr etr ms ae st t d = Inr (u, d')" "db_ok d"
  shows "db_ok d'"
proof -
  from assms(1) obtain f where d': "d' = d\<lparr>db_commands := update_where (\<lambda>r. xr_id r = k) f (db_commands d)\<rparr>"
    and f: "\<And>r. xr_id (f r) = xr_id r" "\<And>r. xr_host_id (f r) = xr_host_id r"
    by (auto simp: complete_command_sql_def split: if_splits)
  have "host_exists (xr_host_id c) d" if "c \<in> set (update_where (\<lambda>r. xr_id r = k) f (db_commands d))" for c
    by (rule update_where_keeps [OF _ _ that]) (simp_all add: f(2) db_ok_commands(2) [OF assms(2)])
  then show ?thesis unfolding d'
    using f(1) db_ok_commands(1) [OF assms(2)] by (intro db_ok_commandsI [OF assms(2)]) simp_all
qed

lemma command_Insert_db_ok: "db_ok (w_db w) \<Longrightarrow> db_ok (w_db (snd (command_Insert c w)))"
  by (auto simp: command_Insert_def intro: exec_stmt_keeps insert_command_db_ok)

lemma command_Complete_db_ok:
  "db_ok (w_db w) \<Longrightarrow> db_ok (w_db (snd (command_Complete k code out err otr etr ms ae w)))"
  by (auto simp: command_Complete_def intro: exec_stmt_keeps complete_command_db_ok)

lemma command_reads_db [simp]:
  "w_db (snd (command_ListByHost h l w)) = w_db w" "w_db (snd (command_Get k w)) = w_db w"
  by (simp_all add: command_ListByHost_def command_Get_def)

lemma insert_command_rows:
  "insert_command_sql n t d = Inr (u, d') \<Longrightarrow> db_commands d' = db_commands d @
     [\<lparr>xr_id = xr_id n, xr_host_id = xr_host_id n, xr_tier = xr_tier n,
       xr_command_json = xr_command_json n, xr_reason = xr_reason n,
       xr_issued_by = xr_issued_by n, xr_issued_at = t, xr_completed_at = None,
       xr_exit_code = None, xr_stdout = None, xr_stderr = None, xr_stdout_truncated = False,
       xr_stderr_truncated = False, xr_duration_ms = None, xr_error = None,
       xr_status = ''pending''\<rparr>]"
  by (auto simp: insert_command_sql_def split: if_splits)

lemma complete_command_rows:
  "complete_command_sql k code out err otr etr ms ae st t d = Inr (u, d') \<Longrightarrow>
   db_commands d' = update_where (\<lambda>r. xr_id r = k)
     (\<lambda>r. r\<lparr>xr_completed_at := Some t, xr_exit_code := Some code, xr_stdout := Some out,
            xr_stderr := Some err, xr_stdout_truncated := otr, xr_stderr_truncated := etr,
            xr_duration_ms := Some ms, xr_error := nullif_empty ae, xr_status := st\<rparr>) (db_commands d)"
  by (auto simp: complete_command_sql_def split: if_splits)

lemma insert_command_frame:
  "insert_command_sql n t d = Inr (u, d') \<Longrightarrow> db_tokens d' = db_tokens d \<and> db_hosts d' = db_hosts d"
  by (auto simp: insert_command_sql_def split: if_splits)

lemma complete_command_frame:
  "complete_command_sql k code out err otr etr ms ae st t d = Inr (u, d') \<Longrightarrow>
     db_tokens d' = db_tokens d \<and> db_hosts d' = db_hosts d"
  by (auto simp: complete_command_sql_def split: if_splits)

text \<open>A command inserted and then completed reads back as issued (host, tier, payload, reason,
  issuer, time of issue) with the reported result; its status is \<open>failed\<close> exactly when the
  agent reported an error, and otherwise \<open>completed\<close>, whatever the exit code.\<close>

theorem Insert_Complete_Get:
  assumes "command_Insert c w = (Inr (), w1)"
    "command_Complete (xr_id c) code out err otr etr ms ae w1 = (Inr (), w2)"
    "w_fault w2 (w_tick w2) = NoFault"
  shows "\<exists>r w3. command_Get (xr_id c) w2 = (Inr r, w3) \<and>
     xr_host_id r = xr_host_id c \<and> xr_tier r = xr_tier c \<and> xr_command_json r = xr_command_json c \<and>
     xr_reason r = xr_reason c \<and> xr_issued_by r = xr_issued_by c \<and> xr_issued_at r = w_clock w (w_tick w) \<and>
     xr_exit_code r = Some code \<and> xr_stdout r = Some out \<and> xr_stderr r = Some err \<and>
     xr_error r = nullif_empty ae \<and> xr_completed_at r = Some (w_clock w1 (w_tick w1)) \<and>
     (xr_status r = ''failed'' \<longleftrightarrow> ae \<noteq> []) \<and> (xr_status r = ''completed'' \<longleftrightarrow> ae = [])"
proof -
  let ?st = "if ae \<noteq> [] then ''failed'' else ''completed''"
  have i: "insert_command_sql c (w_clock w (w_tick w)) (w_db w) = Inr ((), w_db w1)"
    and k: "complete_command_sql (xr_id c) code out err otr etr ms ae ?st (w_clock w1 (w_tick w1)) (w_db w1)
        = Inr ((), w_db w2)"
    using assms(1,2) by (simp_all add: command_Insert_def command_Complete_def complete_status_def exec_stmt_Inr)
  have "find_by xr_id (xr_id c) (db_commands (w_db w)) = None"
    using i by (simp add: insert_command_sql_def find_by_None split: if_splits)
  then obtain r0 where r0: "find_by xr_id (xr_id c) (db_commands (w_db w1)) = Some r0"
    "xr_id r0 = xr_id c" "xr_host_id r0 = xr_host_id c" "xr_tier r0 = xr_tier c"
    "xr_command_json r0 = xr_command_json c" "xr_reason r0 = xr_reason c"
    "xr_issued_by r0 = xr_issued_by c" "xr_issued_at r0 = w_clock w (w_tick w)"
    using insert_command_rows [OF i] by (simp add: find_by_append)
  define f :: "command_row \<Rightarrow> command_row" where "f = (\<lambda>r. r\<lparr>xr_completed_at := Some (w_clock w1 (w_tick w1)), xr_exit_code := Some code,
      xr_stdout := Some out, xr_stderr := Some err, xr_stdout_truncated := otr,
      xr_stderr_truncated := etr, xr_duration_ms := Some ms, xr_error := nullif_empty ae,
      xr_status := ?st\<rparr>)"
  have f: "db_commands (w_db w2) = update_where (\<lambda>r. xr_id r = xr_id c) f (db_commands (w_db w1))"
    unfolding f_def by (rule complete_command_rows [OF k])
  have "find_by xr_id (xr_id c) (db_commands (w_db w2)) =
      map_option (\<lambda>r. if xr_id r = xr_id c then f r else r) (Some r0)"
    unfolding f r0(1) [symmetric] by (rule find_by_update_where) (simp add: f_def)
  with r0(2) have "find_by xr_id (xr_id c) (db_commands (w_db w2)) = Some (f r0)" by simp
  then have "command_Get (xr_id c) w2 = (Inr (f r0), tick w2)"
    by (simp add: command_Get_def exec_query_NoFault [OF assms(3)] key_row_def wrap_err_def)
  then show ?thesis using r0 by (auto simp: f_def)
qed

definition sample_command :: command_row where
  "sample_command = \<lparr>xr_id = ''C1'', xr_host_id = ''H1'', xr_tier = 1, xr_command_json = JObj [],
     xr_reason = ''check'', xr_issued_by = ''ops'', xr_issued_at = 0, xr_completed_at = None,
     xr_exit_code = None, xr_stdout = None, xr_stderr = None, xr_stdout_truncated = False,
     xr_stderr_truncated = False, xr_duration_ms = None, xr_error = None, xr_status = []\<rparr>"

theorem Insert_Complete_Get_witness:
  "\<exists>w2 r w3. snd (command_Complete ''C1'' 2 ''out'' [] False False 7 []
      (snd (command_Insert sample_command (calm_world (empty_db\<lparr>db_hosts := [plain_host ''H1'']\<rparr>))))) = w2
     \<and> command_Get ''C1'' w2 = (Inr r, w3) \<and> xr_status r = ''completed'' \<and> xr_exit_code r = Some 2"
proof -
  let ?w = "calm_world (empty_db\<lparr>db_hosts := [plain_host ''H1'']\<rparr>)"
  define w1 where "w1 = snd (command_Insert sample_command ?w)"
  define w2 where "w2 = snd (command_Complete ''C1'' 2 ''out'' [] False False 7 [] w1)"
  have a: "command_Insert sample_command ?w = (Inr (), w1)"
    by (simp add: w1_def command_Insert_def exec_stmt_NoFault calm_world_def insert_command_sql_def
        in_i32_def empty_db_def host_exists_def plain_host_def sample_command_def)
  have f: "w_fault w1 = (\<lambda>_. NoFault)" "w_fault w2 = (\<lambda>_. NoFault)"
    by (simp_all add: w1_def w2_def command_Insert_def command_Complete_def calm_world_def Let_def)
  have b: "command_Complete (xr_id sample_command) 2 ''out'' [] False False 7 [] w1 = (Inr (), w2)"
    by (simp add: w2_def command_Complete_def exec_stmt_NoFault f complete_command_sql_def
        in_i32_def sample_command_def)
  have "w_fault w2 (w_tick w2) = NoFault" by (simp add: f)
  from Insert_Complete_Get [OF a b this] show ?thesis
    by (auto simp: w2_def w1_def sample_command_def)
qed

end
