(* ===== verification/HostStore.thy ===== *)
theory HostStore
  imports World "HOL-Library.List_Lexorder" "HOL-Library.Char_ord"
begin

text \<open>
  \<open>internal/db/store/hosts.go\<close>: the table \<open>hosts\<close>. Each statement is a function of
  \<open>NOW()\<close> and the tables named \<open>..._sql\<close>, with the constraints of migration 00001, and
  each method runs its statement and wraps its errors as the source does. A slice or map goes through
  \<open>encoding/json\<close> into a JSONB column and back (\<open>marshal_...\<close>, \<open>unmarshal_...\<close>).
\<close>

record host =
  h_ID :: string
  h_Hostname :: string
  h_OS :: string
  h_OSVersion :: "string option"
  h_Kernel :: "string option"
  h_Arch :: string
  h_CPUCores :: "int option"
  h_MemoryBytes :: "int option"
  h_MachineID :: "string option"
  h_IPAddresses :: "string list option"
  h_Labels :: "(string \<times> string) list option"
  h_FirstSeenAt :: instant
  h_LastHeartbeatAt :: "instant option"
  h_Status :: string
  h_AgentVersion :: "string option"
  h_OrgID :: string

subsection \<open>encoding/json on a []string and a map[string]string\<close>

definition marshal_strings :: "string list option \<Rightarrow> json" where
  "marshal_strings xs = (case xs of None \<Rightarrow> JNull | Some ss \<Rightarrow> JArr (map JStr ss))"

definition marshal_labels :: "(string \<times> string) list option \<Rightarrow> json" where
  "marshal_labels m =
     (case m of None \<Rightarrow> JNull
      | Some kvs \<Rightarrow> JObj (map (\<lambda>(k, v). (k, JStr v)) (sort_key fst kvs)))"

fun json_string :: "json \<Rightarrow> string option" where
  "json_string (JStr s) = Some s"
| "json_string JNull = Some []"
| "json_string _ = None"

fun all_some :: "'a option list \<Rightarrow> 'a list option" where
  "all_some [] = Some []"
| "all_some (None # xs) = None"
| "all_some (Some x # xs) = map_option (Cons x) (all_some xs)"

fun unmarshal_strings :: "json \<Rightarrow> string list option option" where
  "unmarshal_strings JNull = Some None"
| "unmarshal_strings (JArr js) = map_option Some (all_some (map json_string js))"
| "unmarshal_strings _ = None"

fun unmarshal_labels :: "json \<Rightarrow> (string \<times> string) list option option" where
  "unmarshal_labels JNull = Some None"
| "unmarshal_labels (JObj kvs) =
     map_option Some (all_some (map (\<lambda>(k, j). map_option (Pair k) (json_string j)) kvs))"
| "unmarshal_labels _ = None"

lemma all_some_map_Some [simp]: "all_some (map (\<lambda>x. Some (f x)) xs) = Some (map f xs)"
  by (induction xs) auto

lemma unmarshal_marshal_strings [simp]: "unmarshal_strings (marshal_strings xs) = Some xs"
  by (cases xs) (auto simp: marshal_strings_def o_def intro: all_some_map_Some [of id, simplified])

text \<open>A map comes back with the same entries, in the order \<open>json.Marshal\<close> sorted them.\<close>

lemma unmarshal_marshal_labels:
  "unmarshal_labels (marshal_labels m) = Some (map_option (sort_key fst) m)"
  by (cases m) (auto simp: marshal_labels_def o_def split_def)

lemma map_of_sort_key_fst:
  assumes "distinct (map fst kvs)"
  shows "map_of (sort_key fst kvs) = map_of kvs"
proof -
  have "distinct (map fst (sort_key fst kvs))"
    using assms by (metis mset_sort mset_map mset_eq_imp_distinct_iff)
  with assms show ?thesis by (simp add: map_of_inject_set)
qed

subsection \<open>Upsert\<close>

definition violates_machine_uidx :: "host_row \<Rightarrow> host_row list \<Rightarrow> bool" where
  "violates_machine_uidx n hs \<longleftrightarrow>
     (\<exists>r \<in> set hs. hr_id r \<noteq> hr_id n \<and> machine_key n \<noteq> None \<and> machine_key r = machine_key n)"

definition upsert_sql :: "host_row \<Rightarrow> instant \<Rightarrow> db \<Rightarrow> db_error + unit \<times> db" where
  "upsert_sql n t d =
     (let hs = db_hosts d
      in if violates_machine_uidx n hs then Inl (UniqueViolation ''hosts_machine_id_org_id_uidx'')
         else case find_by hr_id (hr_id n) hs of
                Some old \<Rightarrow>
                  Inr ((), d\<lparr>db_hosts := update_where (\<lambda>r. hr_id r = hr_id n)
                              (\<lambda>r. n\<lparr>hr_first_seen_at := hr_first_seen_at r\<rparr>) hs\<rparr>)
              | None \<Rightarrow> Inr ((), d\<lparr>db_hosts := hs @ [n\<lparr>hr_first_seen_at := t\<rparr>]\<rparr>))"

definition host_to_row :: "host \<Rightarrow> host_row" where
  "host_to_row h =
     \<lparr>hr_id = h_ID h, hr_hostname = h_Hostname h, hr_os = h_OS h, hr_os_version = h_OSVersion h,
      hr_kernel = h_Kernel h, hr_arch = h_Arch h, hr_cpu_cores = h_CPUCores h,
      hr_memory_bytes = h_MemoryBytes h, hr_machine_id = h_MachineID h,
      hr_ip_addresses = Some (marshal_strings (h_IPAddresses h)),
      hr_labels = Some (marshal_labels (h_Labels h)), hr_first_seen_at = 0,
      hr_last_heartbeat_at = h_LastHeartbeatAt h, hr_status = h_Status h,
      hr_agent_version = h_AgentVersion h, hr_org_id = h_OrgID h\<rparr>"

definition host_Upsert :: "host \<Rightarrow> world \<Rightarrow> (go_error + unit) \<times> world" where
  "host_Upsert h w = wrap_err ''hosts: upsert'' (exec_stmt (upsert_sql (host_to_row h)) w)"

subsection \<open>Reading hosts\<close>

definition scanHost :: "string \<Rightarrow> host_row \<Rightarrow> go_error + host" where
  "scanHost msg r =
     (let ips = (case hr_ip_addresses r of None \<Rightarrow> Some None | Some j \<Rightarrow> unmarshal_strings j);
          labels = (case hr_labels r of None \<Rightarrow> Some None | Some j \<Rightarrow> unmarshal_labels j)
      in case ips of
           None \<Rightarrow> Inl (Wrapped ''hosts: unmarshal ip_addresses'' (DriverError ScanMismatch msg))
         | Some ip \<Rightarrow>
             (case labels of
                None \<Rightarrow> Inl (Wrapped ''hosts: unmarshal labels'' (DriverError ScanMismatch msg))
              | Some lb \<Rightarrow>
                  Inr \<lparr>h_ID = hr_id r, h_Hostname = hr_hostname r, h_OS = hr_os r,
                       h_OSVersion = hr_os_version r, h_Kernel = hr_kernel r, h_Arch = hr_arch r,
                       h_CPUCores = hr_cpu_cores r, h_MemoryBytes = hr_memory_bytes r,
                       h_MachineID = hr_machine_id r, h_IPAddresses = ip, h_Labels = lb,
                       h_FirstSeenAt = hr_first_seen_at r, h_LastHeartbeatAt = hr_last_heartbeat_at r,
                       h_Status = hr_status r, h_AgentVersion = hr_agent_version r,
                       h_OrgID = hr_org_id r\<rparr>))"

definition scan_one :: "string \<Rightarrow> (go_error + host_row) \<times> world \<Rightarrow> (go_error + host) \<times> world" where
  "scan_one msg rw =
     (case rw of
        (Inl e, w) \<Rightarrow> (Inl (row_error ''hosts'' ''hosts: scan'' e), w)
      | (Inr r, w) \<Rightarrow> (scanHost msg r, w))"

definition host_GetByID :: "string \<Rightarrow> world \<Rightarrow> (go_error + host) \<times> world" where
  "host_GetByID k w =
     scan_one (w_text w (w_tick w)) (exec_query (\<lambda>_ d. key_row hr_id k (db_hosts d)) w)"

definition host_GetByMachineID :: "string \<Rightarrow> string \<Rightarrow> world \<Rightarrow> (go_error + host) \<times> world" where
  "host_GetByMachineID m org w =
     scan_one (w_text w (w_tick w))
       (exec_query (\<lambda>_ d. first_row (filter (\<lambda>r. hr_machine_id r = Some m \<and> hr_org_id r = org)
                                        (db_hosts d))) w)"

definition update_heartbeat_sql ::
  "string \<Rightarrow> instant \<Rightarrow> string \<Rightarrow> instant \<Rightarrow> db \<Rightarrow> db_error + unit \<times> db" where
  "update_heartbeat_sql k t st now d =
     Inr ((), d\<lparr>db_hosts := update_where (\<lambda>r. hr_id r = k)
                  (\<lambda>r. r\<lparr>hr_last_heartbeat_at := Some t, hr_status := st\<rparr>) (db_hosts d)\<rparr>)"

definition host_UpdateHeartbeat ::
  "string \<Rightarrow> instant \<Rightarrow> string \<Rightarrow> world \<Rightarrow> (go_error + unit) \<times> world" where
  "host_UpdateHeartbeat k t st w =
     wrap_err ''hosts: update heartbeat'' (exec_stmt (update_heartbeat_sql k t st) w)"

fun scan_all :: "string \<Rightarrow> host_row list \<Rightarrow> go_error + host list" where
  "scan_all msg [] = Inr []"
| "scan_all msg (r # rs) =
     (case scanHost msg r of
        Inl e \<Rightarrow> Inl e
      | Inr h \<Rightarrow> (case scan_all msg rs of Inl e \<Rightarrow> Inl e | Inr hs \<Rightarrow> Inr (h # hs)))"

definition list_hosts_sql :: "(string \<Rightarrow> string) \<Rightarrow> string \<Rightarrow> instant \<Rightarrow> db \<Rightarrow> db_error + host_row list" where
  "list_hosts_sql coll org t d =
     Inr (sort_key (\<lambda>r. coll (hr_hostname r)) (filter (\<lambda>r. hr_org_id r = org) (db_hosts d)))"

definition host_List :: "string \<Rightarrow> world \<Rightarrow> (go_error + host list) \<times> world" where
  "host_List org w =
     (case wrap_rows ''hosts: list'' w (exec_query (list_hosts_sql (w_sortkey w) org) w) of
        (Inl e, w1) \<Rightarrow> (Inl e, w1)
      | (Inr rs, w1) \<Rightarrow> (scan_all (w_text w (w_tick w)) rs, w1))"

subsection \<open>What the statements keep\<close>

lemma machine_key_first_seen [simp]: "machine_key (n\<lparr>hr_first_seen_at := t\<rparr>) = machine_key n"
  by (simp add: machine_key_def)

lemma machine_key_heartbeat [simp]:
  "machine_key (r\<lparr>hr_last_heartbeat_at := x, hr_status := y\<rparr>) = machine_key r"
  by (simp add: machine_key_def)

lemma upsert_hosts:
  assumes "upsert_sql n t d = Inr (u, d')"
  shows "\<not> violates_machine_uidx n (db_hosts d)"
    "d' = d\<lparr>db_hosts :=
       (if host_exists (hr_id n) d
        then update_where (\<lambda>r. hr_id r = hr_id n) (\<lambda>r. n\<lparr>hr_first_seen_at := hr_first_seen_at r\<rparr>) (db_hosts d)
        else db_hosts d @ [n\<lparr>hr_first_seen_at := t\<rparr>])\<rparr>"
  using assms
  by (auto simp: upsert_sql_def Let_def host_exists_def split: if_splits option.splits)

lemma hosts_okD:
  "hosts_ok hs \<Longrightarrow> r \<in> set hs \<Longrightarrow> r' \<in> set hs \<Longrightarrow> machine_key r' = machine_key r \<Longrightarrow>
   machine_key r \<noteq> None \<Longrightarrow> hr_id r' = hr_id r"
  unfolding hosts_ok_def by metis

lemma hosts_ok_update:
  assumes ok: "hosts_ok hs"
    and g: "\<And>r. P r \<Longrightarrow> hr_id (g r) = hr_id r"
    and free: "\<And>r r'. r \<in> set hs \<Longrightarrow> P r \<Longrightarrow> r' \<in> set hs \<Longrightarrow> hr_id r' \<noteq> hr_id r \<Longrightarrow>
       machine_key (g r) \<noteq> None \<Longrightarrow>
       machine_key (if P r' then g r' else r') \<noteq> machine_key (g r)"
  shows "hosts_ok (update_where P g hs)"
  unfolding hosts_ok_def
proof (intro conjI ballI impI)
  show "distinct (map hr_id (update_where P g hs))"
    using ok g by (simp add: hosts_ok_def)
next
  fix a b assume "a \<in> set (update_where P g hs)" "b \<in> set (update_where P g hs)"
    and k: "machine_key a \<noteq> None \<and> machine_key a = machine_key b"
  then obtain x y where xy: "x \<in> set hs" "y \<in> set hs"
    "a = (if P x then g x else x)" "b = (if P y then g y else y)"
    by (auto simp: set_update_where)
  have ids: "hr_id a = hr_id x" "hr_id b = hr_id y" using xy g by auto
  show "hr_id a = hr_id b"
  proof (rule ccontr)
    assume "hr_id a \<noteq> hr_id b"
    with ids have ne: "hr_id x \<noteq> hr_id y" "hr_id y \<noteq> hr_id x" by auto
    have "\<not> P x" using free [of x y] xy k ne by metis
    moreover have "\<not> P y" using free [of y x] xy k ne by metis
    ultimately show False using hosts_okD [OF ok xy(1,2)] xy(3,4) k ne by metis
  qed
qed

lemma hosts_ok_snoc:
  assumes "hosts_ok hs" "hr_id n \<notin> hr_id ` set hs" "\<not> violates_machine_uidx n hs"
    "hr_id m = hr_id n" "machine_key m = machine_key n"
  shows "hosts_ok (hs @ [m])"
proof -
  have "machine_key r \<noteq> machine_key n" if "r \<in> set hs" "machine_key n \<noteq> None" for r
    using assms(2,3) that unfolding violates_machine_uidx_def by (metis image_eqI)
  then have "\<forall>r \<in> set hs. machine_key n \<noteq> None \<longrightarrow> machine_key r \<noteq> machine_key n" by blast
  with assms(1,2,4,5) show ?thesis by (simp add: hosts_ok_def) metis
qed

lemma upsert_hosts_ok:
  assumes "upsert_sql n t d = Inr (u, d')" "hosts_ok (db_hosts d)"
  shows "hosts_ok (db_hosts d')"
proof (cases "host_exists (hr_id n) d")
  case True
  have free: "\<And>r. r \<in> set (db_hosts d) \<Longrightarrow> hr_id r \<noteq> hr_id n \<Longrightarrow> machine_key n \<noteq> None \<Longrightarrow>
      machine_key r \<noteq> machine_key n"
    using upsert_hosts(1) [OF assms(1)] by (auto simp: violates_machine_uidx_def)
  have "hosts_ok (update_where (\<lambda>r. hr_id r = hr_id n)
      (\<lambda>r. n\<lparr>hr_first_seen_at := hr_first_seen_at r\<rparr>) (db_hosts d))"
    by (rule hosts_ok_update [OF assms(2)]) (use free in auto)
  with True show ?thesis by (simp add: upsert_hosts(2) [OF assms(1)])
next
  case False
  then have "hr_id n \<notin> hr_id ` set (db_hosts d)" by (simp add: host_exists_iff)
  then show ?thesis
    using False hosts_ok_snoc [OF assms(2) _ upsert_hosts(1) [OF assms(1)]]
    by (simp add: upsert_hosts(2) [OF assms(1)])
qed

lemma upsert_host_ids:
  assumes "upsert_sql n t d = Inr (u, d')"
  shows "hr_id ` set (db_hosts d') = insert (hr_id n) (hr_id ` set (db_hosts d))"
proof (cases "host_exists (hr_id n) d")
  case True
  then have "hr_id n \<in> hr_id ` set (db_hosts d)" by (simp add: host_exists_iff)
  with True show ?thesis by (simp add: upsert_hosts(2) [OF assms] insert_absorb)
next
  case False
  then show ?thesis by (simp add: upsert_hosts(2) [OF assms])
qed

lemma upsert_db_ok: "upsert_sql n t d = Inr (u, d') \<Longrightarrow> db_ok d \<Longrightarrow> db_ok d'"
proof -
  assume u: "upsert_sql n t d = Inr (u, d')" and ok: "db_ok d"
  then have "hosts_ok (db_hosts d')" by (auto simp: db_ok_def intro: upsert_hosts_ok)
  moreover have "h \<in> hr_id ` set (db_hosts d')" if "h \<in> hr_id ` set (db_hosts d)" for h
    using that by (simp add: upsert_host_ids [OF u])
  ultimately have "db_ok (d\<lparr>db_hosts := db_hosts d'\<rparr>)" using ok by (intro db_ok_hostsI)
  moreover have "d\<lparr>db_hosts := db_hosts d'\<rparr> = d'" using upsert_hosts(2) [OF u] by simp
  ultimately show "db_ok d'" by simp
qed

lemma heartbeat_db_ok: "update_heartbeat_sql k x st t d = Inr (u, d') \<Longrightarrow> db_ok d \<Longrightarrow> db_ok d'"
proof -
  assume u: "update_heartbeat_sql k x st t d = Inr (u, d')" and ok: "db_ok d"
  then have d': "d' = d\<lparr>db_hosts := update_where (\<lambda>r. hr_id r = k)
      (\<lambda>r. r\<lparr>hr_last_heartbeat_at := Some x, hr_status := st\<rparr>) (db_hosts d)\<rparr>"
    by (simp add: update_heartbeat_sql_def)
  have "hosts_ok (update_where (\<lambda>r. hr_id r = k)
      (\<lambda>r. r\<lparr>hr_last_heartbeat_at := Some x, hr_status := st\<rparr>) (db_hosts d))"
    by (rule hosts_ok_update) (use ok in \<open>auto simp: db_ok_def dest: hosts_okD\<close>)
  then show "db_ok d'" unfolding d' by (rule db_ok_hostsI [OF ok]) simp
qed

lemma host_Upsert_keeps:
  assumes "\<And>t u d'. upsert_sql (host_to_row h) t (w_db w) = Inr (u, d') \<Longrightarrow> I d'" "I (w_db w)"
  shows "I (w_db (snd (host_Upsert h w)))"
  unfolding host_Upsert_def snd_wrap_err by (rule exec_stmt_keeps) (use assms in auto)

lemma host_Upsert_db_ok: "db_ok (w_db w) \<Longrightarrow> db_ok (w_db (snd (host_Upsert h w)))"
  by (rule host_Upsert_keeps) (auto intro: upsert_db_ok)

lemma host_UpdateHeartbeat_db_ok:
  "db_ok (w_db w) \<Longrightarrow> db_ok (w_db (snd (host_UpdateHeartbeat k x st w)))"
  unfolding host_UpdateHeartbeat_def snd_wrap_err
  by (rule exec_stmt_keeps) (auto intro: heartbeat_db_ok)

lemma scan_one_db [simp]: "w_db (snd (scan_one msg rw)) = w_db (snd rw)"
  by (auto simp: scan_one_def split: prod.splits sum.splits)

lemma host_List_snd:
  "snd (host_List org w) = snd (exec_query (list_hosts_sql (w_sortkey w) org) w)"
proof -
  let ?q = "exec_query (list_hosts_sql (w_sortkey w) org) w"
  have "snd (host_List org w) = snd (wrap_rows ''hosts: list'' w ?q)"
    by (cases "wrap_rows ''hosts: list'' w ?q") (simp add: host_List_def split: sum.splits)
  then show ?thesis by simp
qed

lemma host_reads_db [simp, frame_simps]:
  "w_db (snd (host_GetByID k w)) = w_db w"
  "w_db (snd (host_GetByMachineID m org w)) = w_db w"
  "w_db (snd (host_List org w)) = w_db w"
  by (auto simp: host_GetByID_def host_GetByMachineID_def split: prod.splits sum.splits)
     (simp add: host_List_snd)

subsection \<open>What a read gives back after an upsert\<close>

lemma scanHost_host_to_row:
  "scanHost msg ((host_to_row h)\<lparr>hr_first_seen_at := t\<rparr>) =
     Inr (h\<lparr>h_FirstSeenAt := t, h_Labels := map_option (sort_key fst) (h_Labels h)\<rparr>)"
  by (simp add: scanHost_def host_to_row_def unmarshal_marshal_labels)

lemma scanHost_fields:
  "scanHost msg r = Inr h \<Longrightarrow> h_ID h = hr_id r \<and> h_Hostname h = hr_hostname r \<and>
     h_OrgID h = hr_org_id r \<and> h_Status h = hr_status r \<and> h_MachineID h = hr_machine_id r"
  by (auto simp: scanHost_def Let_def split: option.splits)

lemma scan_all_rows:
  "scan_all msg rs = Inr hs \<Longrightarrow> list_all2 (\<lambda>r h. scanHost msg r = Inr h) rs hs"
  by (induction msg rs arbitrary: hs rule: scan_all.induct) (auto split: sum.splits)

lemma scan_all_fields:
  assumes "scan_all msg rs = Inr hs"
  shows "map h_ID hs = map hr_id rs" "map h_Hostname hs = map hr_hostname rs"
    "map h_OrgID hs = map hr_org_id rs"
  using scan_all_rows [OF assms] by (induction rule: list_all2_induct) (auto dest: scanHost_fields)

lemma upsert_find:
  assumes "upsert_sql n t d = Inr (u, d')"
  shows "find_by hr_id (hr_id n) (db_hosts d') =
    Some (n\<lparr>hr_first_seen_at :=
      (case find_by hr_id (hr_id n) (db_hosts d) of None \<Rightarrow> t | Some r \<Rightarrow> hr_first_seen_at r)\<rparr>)"
proof (cases "find_by hr_id (hr_id n) (db_hosts d)")
  case None
  then show ?thesis by (simp add: upsert_hosts(2) [OF assms] host_exists_def find_by_append)
next
  case (Some r)
  let ?f = "\<lambda>r. n\<lparr>hr_first_seen_at := hr_first_seen_at r\<rparr>"
  from Some have "db_hosts d' = update_where (\<lambda>r. hr_id r = hr_id n) ?f (db_hosts d)"
    using upsert_hosts(2) [OF assms] by (simp add: host_exists_def)
  moreover have "find_by hr_id (hr_id n) (update_where (\<lambda>r. hr_id r = hr_id n) ?f (db_hosts d)) =
      map_option (\<lambda>r. if hr_id r = hr_id n then ?f r else r) (Some r)"
    unfolding Some [symmetric] by (rule find_by_update_where) simp
  moreover have "hr_id r = hr_id n" using find_by_SomeD [OF Some] by simp
  ultimately show ?thesis using Some by simp
qed

lemma upsert_other:
  assumes "upsert_sql n t d = Inr (u, d')" "k \<noteq> hr_id n"
  shows "find_by hr_id k (db_hosts d') = find_by hr_id k (db_hosts d)"
proof (cases "find_by hr_id k (db_hosts d)")
  case None
  with assms(2) show ?thesis
    by (simp add: upsert_hosts(2) [OF assms(1)] find_by_append find_by_update_where)
next
  case (Some r)
  then have "hr_id r \<noteq> hr_id n" using assms(2) find_by_SomeD by metis
  with Some show ?thesis
    by (simp add: upsert_hosts(2) [OF assms(1)] find_by_append find_by_update_where)
qed

text \<open>A host written by \<open>Upsert\<close> is read back by \<open>GetByID\<close> with every field as written, its
  labels in key order; \<open>first_seen_at\<close> is the time of the first insert and is never overwritten;
  every other host is untouched.\<close>

theorem Upsert_GetByID:
  assumes "host_Upsert h w = (Inr (), w')" "w_fault w' (w_tick w') = NoFault"
  shows "fst (host_GetByID (h_ID h) w') =
      Inr (h\<lparr>h_FirstSeenAt := (case find_by hr_id (h_ID h) (db_hosts (w_db w)) of
                None \<Rightarrow> w_clock w (w_tick w) | Some old \<Rightarrow> hr_first_seen_at old),
             h_Labels := map_option (sort_key fst) (h_Labels h)\<rparr>)
    \<and> (\<forall>k. k \<noteq> h_ID h \<longrightarrow>
          find_by hr_id k (db_hosts (w_db w')) = find_by hr_id k (db_hosts (w_db w)))"
proof -
  have u: "upsert_sql (host_to_row h) (w_clock w (w_tick w)) (w_db w) = Inr ((), w_db w')"
    using assms(1) by (simp add: host_Upsert_def exec_stmt_Inr)
  have "hr_id (host_to_row h) = h_ID h" by (simp add: host_to_row_def)
  then have "find_by hr_id (h_ID h) (db_hosts (w_db w')) = Some ((host_to_row h)\<lparr>hr_first_seen_at :=
      (case find_by hr_id (h_ID h) (db_hosts (w_db w)) of
         None \<Rightarrow> w_clock w (w_tick w) | Some r \<Rightarrow> hr_first_seen_at r)\<rparr>)"
    and "\<forall>k. k \<noteq> h_ID h \<longrightarrow>
      find_by hr_id k (db_hosts (w_db w')) = find_by hr_id k (db_hosts (w_db w))"
    using upsert_find [OF u] upsert_other [OF u] by simp_all
  then show ?thesis
    using assms(2) by (simp add: host_GetByID_def exec_query_NoFault key_row_def scan_one_def
        scanHost_host_to_row)
qed

definition sample_host :: host where
  "sample_host = \<lparr>h_ID = ''H1'', h_Hostname = ''web-1'', h_OS = ''linux'', h_OSVersion = None,
     h_Kernel = Some ''6.8'', h_Arch = ''amd64'', h_CPUCores = Some 4, h_MemoryBytes = Some 1024,
     h_MachineID = Some ''m1'', h_IPAddresses = Some [''10.0.0.1''],
     h_Labels = Some [(''b'', ''2''), (''a'', ''1'')], h_FirstSeenAt = 0, h_LastHeartbeatAt = Some 5,
     h_Status = ''enrolled'', h_AgentVersion = None, h_OrgID = ''default''\<rparr>"

theorem Upsert_GetByID_witness:
  "\<exists>w'. host_Upsert sample_host (calm_world empty_db) = (Inr (), w') \<and>
     fst (host_GetByID ''H1'' w') =
       Inr (sample_host\<lparr>h_FirstSeenAt := 0, h_Labels := Some [(''a'', ''1''), (''b'', ''2'')]\<rparr>)"
proof -
  define w' where "w' = snd (host_Upsert sample_host (calm_world empty_db))"
  have a: "host_Upsert sample_host (calm_world empty_db) = (Inr (), w')"
    and f: "w_fault w' (w_tick w') = NoFault"
    by (simp_all add: w'_def host_Upsert_def exec_stmt_NoFault calm_world_def upsert_sql_def empty_db_def
        violates_machine_uidx_def wrap_err_def)
  show ?thesis using a Upsert_GetByID [OF a f]
    by (simp add: sample_host_def calm_world_def empty_db_def)
qed

text \<open>A successful \<open>List\<close> returns exactly the hosts of the organisation, each once, and
  sorted by hostname under the collation of the database.\<close>

theorem host_List_sorted:
  assumes "host_List org w = (Inr hs, w')"
  shows "mset (map h_ID hs) = mset (map hr_id (filter (\<lambda>r. hr_org_id r = org) (db_hosts (w_db w))))
    \<and> sorted (map (w_sortkey w) (map h_Hostname hs)) \<and> set (map h_OrgID hs) \<subseteq> {org}
    \<and> w_db w' = w_db w"
proof -
  define rs where "rs = sort_key (\<lambda>r. w_sortkey w (hr_hostname r))
      (filter (\<lambda>r. hr_org_id r = org) (db_hosts (w_db w)))"
  from assms have "scan_all (w_text w (w_tick w)) rs = Inr hs"
    by (auto simp: host_List_def rs_def list_hosts_sql_def dest!: exec_query_Inr
        split: prod.splits sum.splits)
  note fs = scan_all_fields [OF this]
  have "mset (map hr_id rs) = mset (map hr_id (filter (\<lambda>r. hr_org_id r = org) (db_hosts (w_db w))))"
    by (simp add: rs_def)
  moreover have "sorted (map (w_sortkey w) (map hr_hostname rs))"
    using sorted_sort_key [of "\<lambda>r. w_sortkey w (hr_hostname r)"] by (simp add: rs_def o_def)
  moreover have "set (map hr_org_id rs) \<subseteq> {org}" by (auto simp: rs_def)
  moreover have "w_db w' = w_db w" using host_reads_db(3) [of org w] assms by simp
  ultimately show ?thesis by (simp only: fs)
qed

theorem host_List_sorted_witness:
  "\<exists>w'. host_List ''default'' (calm_world (empty_db\<lparr>db_hosts := [host_to_row sample_host]\<rparr>))
          = (Inr [sample_host\<lparr>h_Labels := Some [(''a'', ''1''), (''b'', ''2'')]\<rparr>], w')
     \<and> w_db w' = empty_db\<lparr>db_hosts := [host_to_row sample_host]\<rparr>"
proof -
  let ?w = "calm_world (empty_db\<lparr>db_hosts := [host_to_row sample_host]\<rparr>)"
  let ?h = "sample_host\<lparr>h_Labels := Some [(''a'', ''1''), (''b'', ''2'')]\<rparr>"
  have "host_List ''default'' ?w = (Inr [?h], snd (host_List ''default'' ?w))"
    by (simp add: host_List_def exec_query_NoFault calm_world_def wrap_rows_def list_hosts_sql_def host_to_row_def
        sample_host_def scanHost_def marshal_strings_def marshal_labels_def)
  from host_List_sorted [OF this] this show ?thesis
    by (intro exI [where x = "snd (host_List ''default'' ?w)"]) (simp add: calm_world_def)
qed

end
