(* ===== verification/EventStore.thy ===== *)
theory EventStore
  imports HostStore
begin

text \<open>
  \<open>internal/db/store/securityevents.go\<close>: the table \<open>security_events\<close> (migration 00006). A
  message from an agent is the record \<open>security_event\<close> of the getters the source calls; the
  name of its type, which generated code gives, is the parameter \<open>type_name\<close>.
\<close>

record security_event =
  se_HostId :: string
  se_Timestamp :: "instant option"
  se_Type :: int
  se_Source :: string
  se_Data :: "(string \<times> string) list option"
  se_Raw :: string

definition insert_event_sql ::
  "string \<Rightarrow> instant \<Rightarrow> string \<Rightarrow> string \<Rightarrow> json \<Rightarrow> string \<Rightarrow> instant \<Rightarrow> db \<Rightarrow> db_error + unit \<times> db" where
  "insert_event_sql h occurred typ src data raw t d =
     (if \<not> host_exists h d then Inl (ForeignKeyViolation ''security_events_host_id_fkey'')
      else Inr ((), d\<lparr>db_events := db_events d @
             [\<lparr>er_id = db_event_seq d, er_host_id = h, er_occurred_at = occurred, er_received_at = t,
               er_type = typ, er_source = src, er_data = data, er_raw = raw\<rparr>],
             db_event_seq := db_event_seq d + 1\<rparr>))"

definition event_Insert :: "(int \<Rightarrow> string) \<Rightarrow> security_event \<Rightarrow> world \<Rightarrow> (go_error + unit) \<times> world" where
  "event_Insert type_name ev w =
     (let dataJSON = marshal_labels (se_Data ev);
          (now, w1) = go_now w;
          occurredAt = (case se_Timestamp ev of Some ts \<Rightarrow> ts | None \<Rightarrow> now)
      in wrap_err ''security_events: insert''
           (exec_stmt (insert_event_sql (se_HostId ev) occurredAt (type_name (se_Type ev))
              (se_Source ev) dataJSON (se_Raw ev)) w1))"

definition list_events_sql :: "(event_row \<Rightarrow> bool) \<Rightarrow> instant \<Rightarrow> int \<Rightarrow> instant \<Rightarrow> db \<Rightarrow> db_error + event_row list" where
  "list_events_sql P since limit t d =
     (if limit < 0 then Inl ParameterRange
      else Inr (newest er_occurred_at (nat limit)
             (filter (\<lambda>r. P r \<and> er_occurred_at r \<ge> since) (db_events d))))"

definition event_List :: "string \<Rightarrow> instant \<Rightarrow> int \<Rightarrow> world \<Rightarrow> (go_error + event_row list) \<times> world" where
  "event_List h since limit w =
     wrap_rows ''security_events: list'' w (exec_query (list_events_sql (\<lambda>r. er_host_id r = h) since limit) w)"

definition event_ListAll :: "instant \<Rightarrow> int \<Rightarrow> world \<Rightarrow> (go_error + event_row list) \<times> world" where
  "event_ListAll since limit w =
     wrap_rows ''security_events: list all'' w (exec_query (list_events_sql (\<lambda>_. True) since limit) w)"

lemma insert_event_db_ok:
  assumes "insert_event_sql h oc ty src j raw t d = Inr (u, d')" "db_ok d"
  shows "db_ok d'"
proof -
  have old: "distinct (map er_id (db_events d))" "\<forall>r \<in> set (db_events d). er_id r < db_event_seq d"
    using assms(2) by (simp_all add: db_ok_def)
  then have "db_event_seq d \<notin> er_id ` set (db_events d)" by force
  with assms old show ?thesis
    by (auto simp: insert_event_sql_def db_ok_def refs_ok_def host_exists_def split: if_splits)
       (force simp: less_le)+
qed

lemma insert_event_frame:
  "insert_event_sql h oc ty src j raw t d = Inr (u, d') \<Longrightarrow>
     db_tokens d' = db_tokens d \<and> db_hosts d' = db_hosts d"
  by (auto simp: insert_event_sql_def split: if_splits)

lemma event_Insert_keeps:
  assumes "\<And>h oc ty src j raw t u d'. insert_event_sql h oc ty src j raw t (w_db w) = Inr (u, d') \<Longrightarrow> I d'"
    "I (w_db w)"
  shows "I (w_db (snd (event_Insert tn ev w)))"
  unfolding event_Insert_def Let_def split_def snd_wrap_err
  by (rule exec_stmt_keeps) (use assms in auto)

lemma event_Insert_db_ok: "db_ok (w_db w) \<Longrightarrow> db_ok (w_db (snd (event_Insert tn ev w)))"
  by (rule event_Insert_keeps) (auto intro: insert_event_db_ok)

text \<open>A successful \<open>List\<close> (and likewise \<open>ListAll\<close>) leaves the tables alone and returns, newest
  first, the newest \<open>limit\<close> of the host's events since the given time: as many as there are up to
  the limit, each as often as it is stored, and none that is left out is newer than one that is
  returned.\<close>

theorem event_lists_newest:
  "(event_List h since limit w = (Inr es, w') \<longrightarrow>
      newest_of er_occurred_at (nat limit)
        (filter_mset (\<lambda>r. er_host_id r = h \<and> er_occurred_at r \<ge> since) (mset (db_events (w_db w)))) es
      \<and> w_db w' = w_db w)
   \<and> (event_ListAll since limit w = (Inr es, w') \<longrightarrow>
      newest_of er_occurred_at (nat limit)
        (filter_mset (\<lambda>r. er_occurred_at r \<ge> since) (mset (db_events (w_db w)))) es
      \<and> w_db w' = w_db w)"
proof (intro conjI impI)
  assume "event_List h since limit w = (Inr es, w')"
  then have q: "exec_query (list_events_sql (\<lambda>r. er_host_id r = h) since limit) w = (Inr es, w')"
    by (simp add: event_List_def)
  then show "w_db w' = w_db w" by (rule exec_query_dbD)
  from exec_query_Inr [OF q] show "newest_of er_occurred_at (nat limit)
      (filter_mset (\<lambda>r. er_host_id r = h \<and> er_occurred_at r \<ge> since) (mset (db_events (w_db w)))) es"
    using newest_of_newest by (fastforce simp: list_events_sql_def simp flip: mset_filter split: if_splits)
next
  assume "event_ListAll since limit w = (Inr es, w')"
  then have q: "exec_query (list_events_sql (\<lambda>_. True) since limit) w = (Inr es, w')"
    by (simp add: event_ListAll_def)
  then show "w_db w' = w_db w" by (rule exec_query_dbD)
  from exec_query_Inr [OF q] show "newest_of er_occurred_at (nat limit)
      (filter_mset (\<lambda>r. er_occurred_at r \<ge> since) (mset (db_events (w_db w)))) es"
    using newest_of_newest by (fastforce simp: list_events_sql_def simp flip: mset_filter split: if_splits)
qed

definition sample_event :: event_row where
  "sample_event = \<lparr>er_id = 1, er_host_id = ''H1'', er_occurred_at = 5, er_received_at = 6,
     er_type = ''LOGIN'', er_source = ''sshd'', er_data = JNull, er_raw = []\<rparr>"

theorem event_lists_newest_witness:
  "\<exists>w'. event_ListAll 3 1 (calm_world (empty_db\<lparr>db_events := [sample_event,
        sample_event\<lparr>er_id := 2, er_occurred_at := 9\<rparr>]\<rparr>))
      = (Inr [sample_event\<lparr>er_id := 2, er_occurred_at := 9\<rparr>], w')
    \<and> newest_of er_occurred_at 1 {#sample_event, sample_event\<lparr>er_id := 2, er_occurred_at := 9\<rparr>#}
        [sample_event\<lparr>er_id := 2, er_occurred_at := 9\<rparr>]"
proof -
  let ?w = "calm_world (empty_db\<lparr>db_events := [sample_event, sample_event\<lparr>er_id := 2, er_occurred_at := 9\<rparr>]\<rparr>)"
  let ?e = "sample_event\<lparr>er_id := 2, er_occurred_at := 9\<rparr>"
  have a: "event_ListAll 3 1 ?w = (Inr [?e], snd (event_ListAll 3 1 ?w))"
    by (simp add: event_ListAll_def exec_query_NoFault calm_world_def list_events_sql_def newest_def
        sample_event_def wrap_rows_def)
  then have "newest_of er_occurred_at (nat 1)
      (filter_mset (\<lambda>r. er_occurred_at r \<ge> 3) (mset (db_events (w_db ?w)))) [?e]"
    using event_lists_newest by blast
  then have "newest_of er_occurred_at 1 {#sample_event, ?e#} [?e]"
    by (simp add: calm_world_def) (simp add: sample_event_def)
  with a show ?thesis by blast
qed

end
