(* ===== verification/Staleness.thy ===== *)
theory Staleness
  imports HostStore
begin

text \<open>
  \<open>internal/staleness/staleness.go\<close>: the sweep that marks online hosts offline when their last
  heartbeat is older than 90 seconds, and notifies a webhook once for each. Whether a text is a URL
  that \<open>http.NewRequest\<close> accepts is the parameter \<open>url_ok\<close>; the source drops the error
  and uses the nil request, so a refused URL panics. What the webhook answers is only logged.
\<close>

definition CheckInterval :: duration where "CheckInterval = 30 * time_Second"
definition HeartbeatTimeout :: duration where "HeartbeatTimeout = 90 * time_Second"

definition stale :: "instant \<Rightarrow> host_row \<Rightarrow> bool" where
  "stale t r \<longleftrightarrow> hr_status r = ''online'' \<and>
     (case hr_last_heartbeat_at r of None \<Rightarrow> False | Some h \<Rightarrow> h < t - HeartbeatTimeout)"

definition sweep_sql :: "instant \<Rightarrow> db \<Rightarrow> db_error + (string \<times> string) list \<times> db" where
  "sweep_sql t d =
     Inr (map (\<lambda>r. (hr_id r, hr_hostname r)) (filter (stale t) (db_hosts d)),
          d\<lparr>db_hosts := update_where (stale t) (\<lambda>r. r\<lparr>hr_status := ''offline''\<rparr>) (db_hosts d)\<rparr>)"

record notification =
  nt_url :: string
  nt_body :: json

definition offline_note :: "string \<Rightarrow> string \<times> string \<Rightarrow> notification" where
  "offline_note url h =
     \<lparr>nt_url = url, nt_body = JObj [(''event'', JStr ''host_offline''), (''host_id'', JStr (fst h)),
        (''hostname'', JStr (snd h))]\<rparr>"

datatype sweep_end = SweepOk | SweepError go_error | SweepPanic

fun notify_all ::
  "(string \<Rightarrow> bool) \<Rightarrow> string \<Rightarrow> (string \<times> string) list \<Rightarrow> notification list \<times> sweep_end" where
  "notify_all url_ok url [] = ([], SweepOk)"
| "notify_all url_ok url (h # hs) =
     (if url = [] then notify_all url_ok url hs
      else if \<not> url_ok url then ([], SweepPanic)
      else (case notify_all url_ok url hs of (ns, e) \<Rightarrow> (offline_note url h # ns, e)))"

definition RunOnce ::
  "(string \<Rightarrow> bool) \<Rightarrow> string \<Rightarrow> world \<Rightarrow> (notification list \<times> sweep_end) \<times> world" where
  "RunOnce url_ok url w =
     (case exec_stmt sweep_sql w of
        (Inl e, w1) \<Rightarrow>
          (([], SweepError (Wrapped (if w_fault w (w_tick w) = LostBefore then ''staleness: update''
                                     else ''staleness: rows'') e)), w1)
      | (Inr hs, w1) \<Rightarrow> (notify_all url_ok url hs, w1))"

text \<open>The job: a sweep at each tick until the context is done; an error is logged, a panic ends it.\<close>

datatype job_event = Ticked | CtxDone

fun Run :: "(string \<Rightarrow> bool) \<Rightarrow> string \<Rightarrow> job_event list \<Rightarrow> world \<Rightarrow> (notification list \<times> bool) \<times> world" where
  "Run url_ok url [] w = (([], False), w)"
| "Run url_ok url (CtxDone # es) w = (([], False), w)"
| "Run url_ok url (Ticked # es) w =
     (case RunOnce url_ok url w of
        ((ns, SweepPanic), w1) \<Rightarrow> ((ns, True), w1)
      | ((ns, _), w1) \<Rightarrow> (case Run url_ok url es w1 of ((ms, p), w2) \<Rightarrow> ((ns @ ms, p), w2)))"

lemma notify_all_ok: "url \<noteq> [] \<Longrightarrow> url_ok url \<Longrightarrow> notify_all url_ok url hs = (map (offline_note url) hs, SweepOk)"
  by (induction hs) auto

lemma notify_all_silent: "notify_all url_ok [] hs = ([], SweepOk)"
  by (induction hs) auto

lemma sweep_db_ok:
  assumes "sweep_sql t d = Inr (hs, d')" "db_ok d"
  shows "db_ok d'"
proof -
  have d': "d' = d\<lparr>db_hosts := update_where (stale t) (\<lambda>r. r\<lparr>hr_status := ''offline''\<rparr>) (db_hosts d)\<rparr>"
    using assms(1) by (simp add: sweep_sql_def)
  have mk: "machine_key (r\<lparr>hr_status := x\<rparr>) = machine_key r" for r :: host_row and x
    by (simp add: machine_key_def)
  have "hosts_ok (update_where (stale t) (\<lambda>r. r\<lparr>hr_status := ''offline''\<rparr>) (db_hosts d))"
    by (rule hosts_ok_update) (use assms(2) in \<open>auto simp: db_ok_def mk dest: hosts_okD\<close>)
  then show ?thesis unfolding d' by (rule db_ok_hostsI [OF assms(2)]) simp
qed

lemma RunOnce_db:
  "w_db (snd (RunOnce url_ok url w)) = w_db (snd (exec_stmt sweep_sql w))"
  by (auto simp: RunOnce_def split: prod.splits sum.splits)

lemma stale_iff:
  "stale t r \<longleftrightarrow> hr_status r = ''online'' \<and> (\<exists>hb. hr_last_heartbeat_at r = Some hb \<and> hb < t - 90 * 1000000000)"
  by (auto simp: stale_def HeartbeatTimeout_def time_units split: option.splits)

lemma sweep_result:
  assumes "RunOnce url_ok url w = ((ns, e), w')"
  shows "w_fault w (w_tick w) = LostBefore \<Longrightarrow> w_db w' = w_db w \<and> ns = [] \<and> (\<exists>er. e = SweepError er)"
    "w_fault w (w_tick w) \<noteq> LostBefore \<Longrightarrow> w_db w' = (w_db w)\<lparr>db_hosts :=
       update_where (stale (w_clock w (w_tick w))) (\<lambda>r. r\<lparr>hr_status := ''offline''\<rparr>) (db_hosts (w_db w))\<rparr>"
    "w_fault w (w_tick w) = LostAfter \<Longrightarrow> ns = [] \<and> (\<exists>er. e = SweepError er)"
    "w_fault w (w_tick w) = NoFault \<Longrightarrow> notify_all url_ok url
       (map (\<lambda>r. (hr_id r, hr_hostname r)) (filter (stale (w_clock w (w_tick w))) (db_hosts (w_db w)))) = (ns, e)"
  using assms
  by (cases "w_fault w (w_tick w)", auto simp: RunOnce_def exec_stmt_def Let_def sweep_sql_def)+


text \<open>With a webhook URL that \<open>http.NewRequest\<close> refuses, the first sweep that finds a stale host
  panics after its update has taken effect, and ends the job: the hosts are offline and nobody has
  been notified.\<close>

theorem RunOnce_bad_url_panics:
  assumes "w_fault w (w_tick w) = NoFault" "url \<noteq> []" "\<not> url_ok url"
    "\<exists>r \<in> set (db_hosts (w_db w)). stale (w_clock w (w_tick w)) r"
  shows "\<exists>w'. Run url_ok url (Ticked # es) w = (([], True), w')
    \<and> db_hosts (w_db w') = map (\<lambda>r. if stale (w_clock w (w_tick w)) r then r\<lparr>hr_status := ''offline''\<rparr> else r)
         (db_hosts (w_db w))"
proof -
  let ?t = "w_clock w (w_tick w)"
  from assms(4) obtain r rs where "filter (stale ?t) (db_hosts (w_db w)) = r # rs"
    by (cases "filter (stale ?t) (db_hosts (w_db w))") (auto simp: filter_empty_conv)
  then show ?thesis
    using assms(1-3) by (simp add: RunOnce_def exec_stmt_NoFault sweep_sql_def update_where_def)
qed

definition stale_host :: host_row where
  "stale_host = (plain_host ''H1'')\<lparr>hr_status := ''online'', hr_last_heartbeat_at := Some (- 90 * time_Second - 1)\<rparr>"

lemma stale_host_fields:
  "hr_id stale_host = ''H1''" "hr_hostname stale_host = ''web''" "hr_status stale_host = ''online''"
  "hr_last_heartbeat_at stale_host = Some (- 90 * time_Second - 1)"
  by (simp_all add: stale_host_def plain_host_def)

text \<open>At the instant 0: a host that is late, one that is in time to the nanosecond, one without a heartbeat.\<close>

definition sweep_hosts :: "host_row list" where
  "sweep_hosts = [stale_host, (plain_host ''H2'')\<lparr>hr_status := ''online'', hr_last_heartbeat_at := Some (- 90 * time_Second)\<rparr>,
     (plain_host ''H3'')\<lparr>hr_status := ''online'', hr_last_heartbeat_at := None\<rparr>]"


theorem RunOnce_bad_url_panics_witness:
  "\<exists>w'. Run (\<lambda>_. False) ''://'' [Ticked] (calm_world (empty_db\<lparr>db_hosts := [stale_host]\<rparr>)) = (([], True), w')"
proof -
  let ?w = "calm_world (empty_db\<lparr>db_hosts := [stale_host]\<rparr>)"
  have "\<exists>w'. Run (\<lambda>_. False) ''://'' [Ticked] ?w = (([], True), w') \<and> db_hosts (w_db w') =
      map (\<lambda>r. if stale (w_clock ?w (w_tick ?w)) r then r\<lparr>hr_status := ''offline''\<rparr> else r) (db_hosts (w_db ?w))"
    by (rule RunOnce_bad_url_panics)
       (simp_all add: calm_simps stale_def stale_host_fields HeartbeatTimeout_def)
  then show ?thesis by blast
qed

end
