(* ===== verification/Effects.thy ===== *)
theory Effects
  imports TokenStore IdentityStore ConfigStore CommandStore EventStore Staleness
begin

text \<open>
  The interface of the stores to the handlers, as a locale: a relation between the tables before and
  after that is a preorder and that every statement of the server respects. Inside it, each store
  method respects the relation, whatever faults occur; the handlers of the other theories add their
  own lemma in \<open>context store_effects\<close>. Three relations interpret it here: integrity is
  kept, token rows only evolve, and hosts are never deleted; other theories add theirs.
\<close>

locale db_effect =
  fixes R :: "db \<Rightarrow> db \<Rightarrow> bool"
  assumes R_refl: "R d d"
    and R_trans: "R a b \<Longrightarrow> R b d \<Longrightarrow> R a d"
begin

lemma exec_stmt_R:
  assumes "\<And>t a d'. f t (w_db w) = Inr (a, d') \<Longrightarrow> R (w_db w) d'"
  shows "R (w_db w) (w_db (snd (exec_stmt f w)))"
  by (rule exec_stmt_keeps) (use assms R_refl in auto)

lemma exec_query_R: "R (w_db w) (w_db (snd (exec_query q w)))"
  by (simp add: R_refl)

lemma R_step: "R a (w_db w) \<Longrightarrow> R (w_db w) (w_db w') \<Longrightarrow> R a (w_db w')"
  by (rule R_trans)

end

locale store_effects = db_effect +
  assumes upsert_R: "upsert_sql n t d = Inr (u, d') \<Longrightarrow> R d d'"
    and heartbeat_R: "update_heartbeat_sql k x st t d = Inr (u, d') \<Longrightarrow> R d d'"
    and sweep_R: "sweep_sql t d = Inr (hs, d') \<Longrightarrow> R d d'"
    and insert_token_R: "insert_token_sql tk t d = Inr (c, d') \<Longrightarrow> R d d'"
    and claim_token_R: "claim_token_sql hash t d = Inr (r, d') \<Longrightarrow> R d d'"
    and mark_used_R: "mark_used_sql k h t d = Inr (m, d') \<Longrightarrow> R d d'"
    and set_used_by_R: "set_used_by_sql h k t d = Inr (u, d') \<Longrightarrow> R d d'"
    and revoke_token_R: "revoke_token_sql k t d = Inr (m, d') \<Longrightarrow> R d d'"
    and insert_identity_R: "insert_identity_sql i t d = Inr (q, d') \<Longrightarrow> R d d'"
    and revoke_identity_R: "revoke_identity_sql j reason t d = Inr (m, d') \<Longrightarrow> R d d'"
    and set_field_R: "set_field_sql h field v t d = Inr (u, d') \<Longrightarrow> R d d'"
    and insert_command_R: "insert_command_sql x' t d = Inr (u, d') \<Longrightarrow> R d d'"
    and complete_command_R:
      "complete_command_sql k code out err otr etr ms ae (complete_status ae) t d = Inr (u, d') \<Longrightarrow> R d d'"
    and insert_event_R: "insert_event_sql h oc ty src j' raw t d = Inr (u, d') \<Longrightarrow> R d d'"
begin

lemma host_methods_R:
  "R (w_db w) (w_db (snd (host_Upsert h w)))"
  "R (w_db w) (w_db (snd (host_UpdateHeartbeat k x st w)))"
  by (auto simp: host_Upsert_def host_UpdateHeartbeat_def intro!: exec_stmt_R dest: upsert_R heartbeat_R)

lemma RunOnce_R: "R (w_db w) (w_db (snd (RunOnce url_ok url w)))"
  unfolding RunOnce_db by (rule exec_stmt_R) (rule sweep_R)

lemma token_methods_R:
  "R (w_db w) (w_db (snd (token_Insert tk w)))"
  "R (w_db w) (w_db (snd (token_MarkUsed k h w)))"
  "R (w_db w) (w_db (snd (token_Revoke k w)))"
proof -
  show "R (w_db w) (w_db (snd (token_Insert tk w)))"
    unfolding token_Insert_def snd_wrap_err by (rule exec_stmt_R) (rule insert_token_R)
  have "snd (token_MarkUsed k h w) = snd (exec_stmt (mark_used_sql k h) w)"
    "snd (token_Revoke k w) = snd (exec_stmt (revoke_token_sql k) w)"
    by (auto simp: token_MarkUsed_def token_Revoke_def split: prod.splits sum.splits)
  then show "R (w_db w) (w_db (snd (token_MarkUsed k h w)))" "R (w_db w) (w_db (snd (token_Revoke k w)))"
    by (auto intro!: exec_stmt_R dest: mark_used_R revoke_token_R)
qed

lemma identity_methods_R:
  "R (w_db w) (w_db (snd (identity_Insert i w)))"
  "R (w_db w) (w_db (snd (identity_Revoke j reason w)))"
proof -
  show "R (w_db w) (w_db (snd (identity_Insert i w)))"
    unfolding identity_Insert_def snd_wrap_err by (rule exec_stmt_R) (rule insert_identity_R)
  have "snd (identity_Revoke j reason w) = snd (exec_stmt (revoke_identity_sql j reason) w)"
    by (auto simp: identity_Revoke_def split: prod.splits sum.splits)
  then show "R (w_db w) (w_db (snd (identity_Revoke j reason w)))"
    by (auto intro!: exec_stmt_R dest: revoke_identity_R)
qed

lemma config_SetField_R: "R (w_db w) (w_db (snd (config_SetField ip h field v w)))"
  by (auto simp: config_SetField_def R_refl intro!: exec_stmt_R dest: set_field_R)

lemma command_methods_R:
  "R (w_db w) (w_db (snd (command_Insert x w)))"
  "R (w_db w) (w_db (snd (command_Complete k code out err otr etr ms ae w)))"
  by (auto simp: command_Insert_def command_Complete_def Let_def intro!: exec_stmt_R
      dest: insert_command_R complete_command_R)

lemma event_Insert_R: "R (w_db w) (w_db (snd (event_Insert tn ev w)))"
proof -
  have "R (w_db (snd (go_now w))) (w_db (snd (exec_stmt (insert_event_sql h oc ty src j raw) (snd (go_now w)))))"
    for h oc ty src j raw by (rule exec_stmt_R) (rule insert_event_R)
  then show ?thesis by (simp add: event_Insert_def Let_def split_def)
qed

lemmas methods_R = host_methods_R token_methods_R identity_methods_R config_SetField_R
  command_methods_R event_Insert_R RunOnce_R exec_query_R

end

subsection \<open>Three relations every statement respects\<close>

definition keeps_ok :: "db \<Rightarrow> db \<Rightarrow> bool" where
  "keeps_ok d d' \<longleftrightarrow> (db_ok d \<longrightarrow> db_ok d')"

definition hosts_stay :: "db \<Rightarrow> db \<Rightarrow> bool" where
  "hosts_stay d d' \<longleftrightarrow> (\<forall>h. host_exists h d \<longrightarrow> host_exists h d')"

interpretation integrity: store_effects keeps_ok
  by unfold_locales (auto simp: keeps_ok_def intro: upsert_db_ok heartbeat_db_ok sweep_db_ok insert_token_db_ok
    claim_token_db_ok mark_used_db_ok set_used_by_db_ok revoke_token_db_ok insert_identity_db_ok
    revoke_identity_db_ok set_field_db_ok insert_command_db_ok complete_command_db_ok insert_event_db_ok)

lemma upsert_tokens: "upsert_sql n t d = Inr (u, d') \<Longrightarrow> db_tokens d' = db_tokens d"
  by (auto simp: upsert_sql_def Let_def split: if_splits option.splits)

lemma set_field_tokens: "set_field_sql h field v t d = Inr (u, d') \<Longrightarrow> db_tokens d' = db_tokens d"
  by (auto simp: set_field_sql_def split: if_splits option.splits)

lemma token_frames:
  "update_heartbeat_sql k x st t d = Inr (u, d') \<Longrightarrow> db_tokens d' = db_tokens d"
  "sweep_sql t d = Inr (hs, d') \<Longrightarrow> db_tokens d' = db_tokens d"
  "insert_identity_sql i t d = Inr (q, d') \<Longrightarrow> db_tokens d' = db_tokens d"
  "revoke_identity_sql j reason t d = Inr (m, d') \<Longrightarrow> db_tokens d' = db_tokens d"
  "insert_command_sql c t d = Inr (u, d') \<Longrightarrow> db_tokens d' = db_tokens d"
  "complete_command_sql k code out err otr etr ms ae st t d = Inr (u, d') \<Longrightarrow> db_tokens d' = db_tokens d"
  "insert_event_sql h oc ty src jj raw t d = Inr (u, d') \<Longrightarrow> db_tokens d' = db_tokens d"
  by (auto simp: update_heartbeat_sql_def sweep_sql_def revoke_identity_sql_def Let_def
      dest: insert_identity_frame insert_command_frame complete_command_frame insert_event_frame)

interpretation evolution: store_effects tokens_evolve
proof (unfold_locales, goal_cases)
  case (2 a b d)
  then show ?case by (rule tokens_evolve_trans)
qed (auto intro: insert_token_evolves claim_token_evolves mark_used_evolves set_used_by_evolves
    revoke_token_evolves tokens_evolve_same dest: upsert_tokens set_field_tokens token_frames)

lemma hosts_stay_same: "hr_id ` set (db_hosts d') = hr_id ` set (db_hosts d) \<Longrightarrow> hosts_stay d d'"
  by (simp add: hosts_stay_def host_exists_iff)

lemma host_frames:
  "update_heartbeat_sql k x st t d = Inr (u, d') \<Longrightarrow> hr_id ` set (db_hosts d') = hr_id ` set (db_hosts d)"
  "sweep_sql t d = Inr (hs, d') \<Longrightarrow> hr_id ` set (db_hosts d') = hr_id ` set (db_hosts d)"
  by (clarsimp simp only: update_heartbeat_sql_def sweep_sql_def sum.inject prod.inject, simp)+

lemma host_tables:
  "insert_token_sql tk t d = Inr (c, d') \<Longrightarrow> db_hosts d' = db_hosts d"
  "claim_token_sql hash t d = Inr (r, d') \<Longrightarrow> db_hosts d' = db_hosts d"
  "mark_used_sql k h t d = Inr (m, d') \<Longrightarrow> db_hosts d' = db_hosts d"
  "set_used_by_sql h k t d = Inr (u, d') \<Longrightarrow> db_hosts d' = db_hosts d"
  "revoke_token_sql k t d = Inr (m, d') \<Longrightarrow> db_hosts d' = db_hosts d"
  "insert_identity_sql i t d = Inr (q, d') \<Longrightarrow> db_hosts d' = db_hosts d"
  "revoke_identity_sql j reason t d = Inr (m, d') \<Longrightarrow> db_hosts d' = db_hosts d"
  "set_field_sql h field v t d = Inr (u, d') \<Longrightarrow> db_hosts d' = db_hosts d"
  "insert_command_sql x' t d = Inr (u, d') \<Longrightarrow> db_hosts d' = db_hosts d"
  "complete_command_sql k code out err otr etr ms ae st t d = Inr (u, d') \<Longrightarrow> db_hosts d' = db_hosts d"
  "insert_event_sql h oc ty src j' raw t d = Inr (u, d') \<Longrightarrow> db_hosts d' = db_hosts d"
  by (auto simp: insert_token_sql_def claim_token_sql_def mark_used_sql_def set_used_by_sql_def
      revoke_token_sql_def revoke_identity_sql_def Let_def split: if_splits list.splits
      dest: insert_identity_frame set_field_frame insert_command_frame complete_command_frame insert_event_frame)

interpretation presence: store_effects hosts_stay
proof (unfold_locales, goal_cases)
  case (3 n t d u d')
  then show ?case by (auto simp: hosts_stay_def host_exists_iff upsert_host_ids)
qed (auto simp: hosts_stay_def host_exists_iff dest: host_frames host_tables)

end
