(* ===== verification/Statements.thy ===== *)
theory Statements
  imports Contracts Effects
begin

text \<open>
  The statements of the server one by one, as the database runs them: calls that run at the same
  time are interleaved between their statements, and each statement is atomic. The contract of
  single-use claims holds at this level, so it needs no lock in the server.
\<close>

subsection \<open>A statement as a step\<close>

datatype statement =
    UpsertHost host_row
  | UpdateHeartbeat string instant string
  | SweepStale
  | InsertToken token_row
  | ClaimToken string
  | MarkUsed string string
  | SetUsedBy string string
  | RevokeToken string
  | InsertIdentity identity_row
  | RevokeIdentity int string
  | SetField string string int
  | InsertCommand command_row
  | CompleteCommand string int string string bool bool int string
  | InsertEvent string instant string string json string

definition after :: "db_error + 'a \<times> db \<Rightarrow> db \<Rightarrow> db" where
  "after r d = (case r of Inl _ \<Rightarrow> d | Inr (_, d') \<Rightarrow> d')"

lemma after_simps [simp]: "after (Inl e) d = d" "after (Inr (a, d')) d = d'"
  by (simp_all add: after_def)

text \<open>The statement at an instant, with the ID of the token that it claims.\<close>

fun stmt_step :: "statement \<times> instant \<Rightarrow> db \<Rightarrow> string option \<times> db" where
  "stmt_step (UpsertHost n, t) d = (None, after (upsert_sql n t d) d)"
| "stmt_step (UpdateHeartbeat k x st, t) d = (None, after (update_heartbeat_sql k x st t d) d)"
| "stmt_step (SweepStale, t) d = (None, after (sweep_sql t d) d)"
| "stmt_step (InsertToken n, t) d = (None, after (insert_token_sql n t d) d)"
| "stmt_step (ClaimToken h, t) d =
     (case claim_token_sql h t d of Inl _ \<Rightarrow> (None, d) | Inr ((k, _), d') \<Rightarrow> (Some k, d'))"
| "stmt_step (MarkUsed k h, t) d = (None, after (mark_used_sql k h t d) d)"
| "stmt_step (SetUsedBy h k, t) d = (None, after (set_used_by_sql h k t d) d)"
| "stmt_step (RevokeToken k, t) d = (None, after (revoke_token_sql k t d) d)"
| "stmt_step (InsertIdentity i, t) d = (None, after (insert_identity_sql i t d) d)"
| "stmt_step (RevokeIdentity j reason, t) d = (None, after (revoke_identity_sql j reason t d) d)"
| "stmt_step (SetField h field v, t) d = (None, after (set_field_sql h field v t d) d)"
| "stmt_step (InsertCommand n, t) d = (None, after (insert_command_sql n t d) d)"
| "stmt_step (CompleteCommand k code out err otr etr ms ae, t) d =
     (None, after (complete_command_sql k code out err otr etr ms ae (complete_status ae) t d) d)"
| "stmt_step (InsertEvent h oc ty src j raw, t) d = (None, after (insert_event_sql h oc ty src j raw t d) d)"

abbreviation stmt_run :: "(statement \<times> instant) list \<Rightarrow> db \<Rightarrow> db" where
  "stmt_run ops d \<equiv> fold (\<lambda>op d. snd (stmt_step op d)) ops d"

context store_effects
begin

lemma after_R: "(\<And>a d'. r = Inr (a, d') \<Longrightarrow> R d d') \<Longrightarrow> R d (after r d)"
  by (cases r) (auto simp: R_refl)

lemma stmt_step_R: "R d (snd (stmt_step op d))"
proof (cases "(op, d)" rule: stmt_step.cases)
  case (5 h t d)
  then show ?thesis by (auto simp: R_refl dest: claim_token_R split: sum.splits)
qed (auto intro!: after_R dest: upsert_R heartbeat_R sweep_R insert_token_R mark_used_R set_used_by_R revoke_token_R
    insert_identity_R revoke_identity_R set_field_R insert_command_R complete_command_R insert_event_R)

end

subsection \<open>Every effect is a run of statements\<close>

definition by_statements :: "db \<Rightarrow> db \<Rightarrow> bool" where
  "by_statements d d' \<longleftrightarrow> (\<exists>ops. d' = stmt_run ops d)"

lemma by_statementsI: "snd (stmt_step op d) = d' \<Longrightarrow> by_statements d d'"
  unfolding by_statements_def by (rule exI [of _ "[op]"]) simp

interpretation stepwise: store_effects by_statements
proof (unfold_locales, goal_cases)
  case (1 d)
  show ?case unfolding by_statements_def by (rule exI [of _ "[]"]) simp
next
  case (2 a b d)
  then obtain xs ys where "b = stmt_run xs a" "d = stmt_run ys b" by (auto simp: by_statements_def)
  then have "d = stmt_run (xs @ ys) a" by simp
  then show ?case unfolding by_statements_def by (rule exI)
next
  case (3 n t d u d')
  then show ?case by (intro by_statementsI [of "(UpsertHost n, t)"]) simp
next
  case (4 k x st t d u d')
  then show ?case by (intro by_statementsI [of "(UpdateHeartbeat k x st, t)"]) simp
next
  case (5 t d hs d')
  then show ?case by (intro by_statementsI [of "(SweepStale, t)"]) simp
next
  case (6 tk t d c d')
  then show ?case by (intro by_statementsI [of "(InsertToken tk, t)"]) simp
next
  case (7 hash t d r d')
  then show ?case by (intro by_statementsI [of "(ClaimToken hash, t)"]) (simp add: split_def)
next
  case (8 k h t d m d')
  then show ?case by (intro by_statementsI [of "(MarkUsed k h, t)"]) simp
next
  case (9 h k t d u d')
  then show ?case by (intro by_statementsI [of "(SetUsedBy h k, t)"]) simp
next
  case (10 k t d m d')
  then show ?case by (intro by_statementsI [of "(RevokeToken k, t)"]) simp
next
  case (11 i t d q d')
  then show ?case by (intro by_statementsI [of "(InsertIdentity i, t)"]) simp
next
  case (12 j reason t d m d')
  then show ?case by (intro by_statementsI [of "(RevokeIdentity j reason, t)"]) simp
next
  case (13 h field v t d u d')
  then show ?case by (intro by_statementsI [of "(SetField h field v, t)"]) simp
next
  case (14 x t d u d')
  then show ?case by (intro by_statementsI [of "(InsertCommand x, t)"]) simp
next
  case (15 k code out err otr etr ms ae t d u d')
  then show ?case by (intro by_statementsI [of "(CompleteCommand k code out err otr etr ms ae, t)"]) simp
next
  case (16 h oc ty src j raw t d u d')
  then show ?case by (intro by_statementsI [of "(InsertEvent h oc ty src j raw, t)"]) simp
qed

subsection \<open>Spent tokens\<close>

text \<open>The tokens that are spent: used or revoked.\<close>

definition spent_token_ids :: "db \<Rightarrow> string set" where
  "spent_token_ids d = {tr_id r | r. r \<in> set (db_tokens d) \<and> (tr_used_at r \<noteq> None \<or> tr_revoked_at r \<noteq> None)}"

lemma spent_token_ids_find:
  "db_ok d \<Longrightarrow> k \<in> spent_token_ids d \<longleftrightarrow>
     (\<exists>r. find_by tr_id k (db_tokens d) = Some r \<and> (tr_used_at r \<noteq> None \<or> tr_revoked_at r \<noteq> None))"
  unfolding spent_token_ids_def
  by (blast dest: find_by_SomeD intro: find_by_distinct [OF db_ok_tokens_distinct])

lemma spent_token_ids_mono:
  assumes "db_ok d" "tokens_evolve d d'"
  shows "spent_token_ids d \<subseteq> spent_token_ids d'"
proof
  fix k assume "k \<in> spent_token_ids d"
  then obtain r where r: "find_by tr_id k (db_tokens d) = Some r" "tr_used_at r \<noteq> None \<or> tr_revoked_at r \<noteq> None"
    using spent_token_ids_find [OF assms(1)] by blast
  with assms(2) obtain r' where "find_by tr_id k (db_tokens d') = Some r'" "token_evolves r r'"
    unfolding tokens_evolve_def by blast
  then have "r' \<in> set (db_tokens d')" "tr_id r' = k" "tr_used_at r' \<noteq> None \<or> tr_revoked_at r' \<noteq> None"
    using r(2) by (auto simp: token_evolves_def dest: find_by_SomeD)
  then show "k \<in> spent_token_ids d'" by (auto simp: spent_token_ids_def)
qed

lemma used_spent: "used_token_ids d \<subseteq> spent_token_ids d"
  by (auto simp: used_token_ids_def spent_token_ids_def)

lemma claim_token_unspent:
  assumes "claim_token_sql h t d = Inr ((k, org), d')" "db_ok d"
  shows "k \<notin> spent_token_ids d"
proof -
  from assms(1) obtain r where r: "r \<in> set (db_tokens d)" "tr_id r = k" "tr_token_hash r = h" "token_usable t r"
    by (rule claim_token_row)
  have "find_by tr_id k (db_tokens d) = Some r"
    using find_by_distinct [OF db_ok_tokens_distinct [OF assms(2)] r(1)] r(2) by simp
  then show ?thesis using r(4) by (auto simp: spent_token_ids_find [OF assms(2)] token_usable_def)
qed

lemma claim_token_spends:
  assumes "claim_token_sql h t d = Inr ((k, org), d')" "db_ok d"
  shows "k \<notin> spent_token_ids d \<and> k \<in> spent_token_ids d'"
  using claim_token_unspent [OF assms] claim_token_fresh [OF assms] used_spent by blast

interpretation interleaved: claim_register stmt_step db_ok spent_token_ids
proof (unfold_locales, goal_cases)
  case (1 d op)
  then show ?case using integrity.stmt_step_R [of d op] by (simp add: keeps_ok_def)
next
  case (2 d op k d')
  then show ?case
    by (cases "(op, d)" rule: stmt_step.cases) (auto dest: claim_token_spends split: sum.splits)
next
  case (3 d op)
  then show ?case by (rule spent_token_ids_mono) (rule evolution.stmt_step_R)
qed

end
