(* ===== verification/Token.thy ===== *)
theory Token
  imports World
begin

text \<open>
  \<open>internal/token/token.go\<close>: enrollment tokens. \<open>base32Encode\<close> is the source's loop
  over blocks of five bytes packed into a \<open>uint64\<close>; \<open>base32_blocks\<close> is the reference
  it is proved equal to. \<open>Generate\<close> draws 25 random bytes, prints the first 25 of their 40
  characters in five groups, and keeps the SHA-256 of the text; \<open>ParseAndValidate\<close> accepts
  exactly such texts. The hash function itself is the parameter \<open>sha\<close> (\<open>crypto/sha256\<close>).
\<close>

unbundle bit_operations_syntax

definition alphabet :: string where
  "alphabet = ''0123456789ABCDEFGHJKMNPQRSTVWXYZ''"

definition pack5 :: "8 word \<Rightarrow> 8 word \<Rightarrow> 8 word \<Rightarrow> 8 word \<Rightarrow> 8 word \<Rightarrow> 64 word" where
  "pack5 b0 b1 b2 b3 b4 =
     push_bit 32 (ucast b0) OR push_bit 24 (ucast b1) OR push_bit 16 (ucast b2)
       OR push_bit 8 (ucast b3) OR ucast b4"

definition quintet :: "64 word \<Rightarrow> nat \<Rightarrow> 64 word" where
  "quintet v j = drop_bit (j * 5) v AND 0x1F"

definition encode_block :: "64 word \<Rightarrow> string" where
  "encode_block v = map (\<lambda>j. alphabet ! unat (quintet v j)) (rev [0..<8])"

function base32_loop :: "bytes \<Rightarrow> nat \<Rightarrow> string \<Rightarrow> string" where
  "base32_loop b i result =
     (if i + 4 < length b
      then base32_loop b (i + 5)
             (result @ encode_block (pack5 (b ! i) (b ! (i+1)) (b ! (i+2)) (b ! (i+3)) (b ! (i+4))))
      else result)"
  by pat_completeness auto
termination
  by (relation "measure (\<lambda>(b, i, r). length b - i)") auto

declare base32_loop.simps [simp del]

definition base32Encode :: "bytes \<Rightarrow> string" where
  "base32Encode b = base32_loop b 0 []"

fun base32_blocks :: "bytes \<Rightarrow> string" where
  "base32_blocks (b0 # b1 # b2 # b3 # b4 # bs) =
     encode_block (pack5 b0 b1 b2 b3 b4) @ base32_blocks bs"
| "base32_blocks _ = []"

lemma base32_loop_blocks: "base32_loop b i r = r @ base32_blocks (drop i b)"
proof (induction b i r rule: base32_loop.induct)
  case (1 b i r)
  show ?case
  proof (cases "i + 4 < length b")
    case True
    then have d: "drop i b =
        b ! i # b ! (i+1) # b ! (i+2) # b ! (i+3) # b ! (i+4) # drop (i+5) b"
      by (simp add: Cons_nth_drop_Suc eval_nat_numeral)
    with True "1.IH" show ?thesis
      by (subst base32_loop.simps) (simp add: d)
  next
    case False
    then have "base32_blocks (drop i b) = []"
      by (cases "drop i b" rule: base32_blocks.cases)
         (auto dest!: arg_cong [where f = length])
    with False show ?thesis by (subst base32_loop.simps) simp
  qed
qed

lemma base32Encode_blocks: "base32Encode b = base32_blocks b"
  by (simp add: base32Encode_def base32_loop_blocks)

text \<open>The eight characters of a block give back its five bytes.\<close>

lemma unat_quintet_less: "unat (quintet v j) < 32"
proof -
  have "quintet v j \<le> 0x1F" by (simp add: quintet_def word_and_le1)
  then show ?thesis by (simp add: word_le_nat_alt)
qed

lemma bit_quintet: "bit (quintet v j) n \<longleftrightarrow> n < 5 \<and> bit v (j * 5 + n)"
proof -
  have "(0x1F :: 64 word) = mask 5" by (simp add: mask_eq_exp_minus_1)
  then have "quintet v j = take_bit 5 (drop_bit (j * 5) v)"
    by (simp add: quintet_def take_bit_eq_mask)
  then show ?thesis by (simp add: bit_simps)
qed

lemma u8_bit_beyond: "8 \<le> n \<Longrightarrow> \<not> bit (b :: 8 word) n"
  using bit_imp_le_length [of b n] by auto

lemma bit_pack5:
  assumes "i < 8"
  shows "bit (pack5 b0 b1 b2 b3 b4) (32 + i) = bit b0 i"
    "bit (pack5 b0 b1 b2 b3 b4) (24 + i) = bit b1 i"
    "bit (pack5 b0 b1 b2 b3 b4) (16 + i) = bit b2 i"
    "bit (pack5 b0 b1 b2 b3 b4) (8 + i) = bit b3 i"
    "bit (pack5 b0 b1 b2 b3 b4) i = bit b4 i"
  using assms by (simp_all add: pack5_def bit_simps u8_bit_beyond)

lemma quintets_eq_iff:
  "(\<forall>j < 8. quintet v j = quintet v' j) \<longleftrightarrow> (\<forall>m < 40. bit v m = bit v' m)"
proof
  assume eq: "\<forall>j < 8. quintet v j = quintet v' j"
  show "\<forall>m < 40. bit v m = bit v' m"
  proof (intro allI impI)
    fix m :: nat assume "m < 40"
    then have "quintet v (m div 5) = quintet v' (m div 5)" using eq by simp
    then have "bit (quintet v (m div 5)) (m mod 5) = bit (quintet v' (m div 5)) (m mod 5)" by simp
    then show "bit v m = bit v' m" by (simp add: bit_quintet)
  qed
next
  assume eq: "\<forall>m < 40. bit v m = bit v' m"
  show "\<forall>j < 8. quintet v j = quintet v' j"
    by (intro allI impI bit_word_eqI) (auto simp: bit_quintet eq)
qed

lemma u8_eqI: "(\<And>i. i < 8 \<Longrightarrow> bit a i = bit b i) \<Longrightarrow> a = (b :: 8 word)"
  by (rule bit_word_eqI) simp

lemma pack5_quintets_inj:
  assumes "\<forall>j < 8. quintet (pack5 b0 b1 b2 b3 b4) j = quintet (pack5 c0 c1 c2 c3 c4) j"
  shows "b0 = c0 \<and> b1 = c1 \<and> b2 = c2 \<and> b3 = c3 \<and> b4 = c4"
proof -
  let ?v = "pack5 b0 b1 b2 b3 b4" and ?v' = "pack5 c0 c1 c2 c3 c4"
  have "bit ?v m = bit ?v' m" if "m < 40" for m
    using assms that by (simp add: quintets_eq_iff)
  then have "bit ?v (32 + i) = bit ?v' (32 + i)" "bit ?v (24 + i) = bit ?v' (24 + i)"
    "bit ?v (16 + i) = bit ?v' (16 + i)" "bit ?v (8 + i) = bit ?v' (8 + i)"
    "bit ?v i = bit ?v' i" if "i < 8" for i
    using that by simp_all
  then show ?thesis by (auto intro!: u8_eqI simp: bit_pack5)
qed

lemma top_quintet_eq_iff:
  "quintet (pack5 b0 b1 b2 b3 b4) 7 = quintet (pack5 c0 c1 c2 c3 c4) 7
     \<longleftrightarrow> drop_bit 3 b0 = drop_bit 3 c0"
proof -
  have q: "bit (quintet (pack5 a0 a1 a2 a3 a4) 7) n \<longleftrightarrow> n < 5 \<and> bit a0 (3 + n)" for a0 a1 a2 a3 a4 n
    using bit_pack5(1) [of "3 + n" a0 a1 a2 a3 a4] by (auto simp: bit_quintet)
  show ?thesis
  proof
    assume eq: "quintet (pack5 b0 b1 b2 b3 b4) 7 = quintet (pack5 c0 c1 c2 c3 c4) 7"
    show "drop_bit 3 b0 = drop_bit 3 c0"
    proof (rule u8_eqI)
      fix i :: nat
      show "bit (drop_bit 3 b0) i = bit (drop_bit 3 c0) i"
        using arg_cong [OF eq, where f = "\<lambda>x. bit x i"]
        by (cases "i < 5") (auto simp: q bit_simps u8_bit_beyond)
    qed
  next
    assume "drop_bit 3 b0 = drop_bit 3 c0"
    then have "bit (drop_bit 3 b0) n = bit (drop_bit 3 c0) n" for n by simp
    then have "bit b0 (3 + n) = bit c0 (3 + n)" for n by (simp add: bit_simps)
    then show "quintet (pack5 b0 b1 b2 b3 b4) 7 = quintet (pack5 c0 c1 c2 c3 c4) 7"
      by (intro bit_word_eqI) (simp add: q)
  qed
qed

lemma alphabet_facts: "length alphabet = 32" "distinct alphabet" "CHR ''-'' \<notin> set alphabet"
  by (simp_all add: alphabet_def)

lemma alphabet_nth_eq:
  "alphabet ! unat (quintet v i) = alphabet ! unat (quintet v' j) \<longleftrightarrow> quintet v i = quintet v' j"
  using alphabet_facts(1,2) by (simp add: nth_eq_iff_index_eq unat_quintet_less unsigned_word_eqI
    flip: word_unat_eq_iff)

lemma length_encode_block [simp]: "length (encode_block v) = 8"
  by (simp add: encode_block_def)

lemma set_encode_block: "set (encode_block v) \<subseteq> set alphabet"
  using alphabet_facts(1) unat_quintet_less by (auto simp: encode_block_def)

lemma encode_block_nth: "k < 8 \<Longrightarrow> encode_block v ! k = alphabet ! unat (quintet v (7 - k))"
  by (simp add: encode_block_def rev_nth del: upt_rec_numeral)

lemma encode_block_eq_iff:
  "encode_block v = encode_block v' \<longleftrightarrow> (\<forall>j < 8. quintet v j = quintet v' j)"
  by (auto simp: encode_block_def alphabet_nth_eq simp del: upt_rec_numeral)

lemma base32_blocks_alphabet: "set (base32_blocks b) \<subseteq> set alphabet"
  by (induction b rule: base32_blocks.induct) (use set_encode_block in auto)

lemma length_base32_blocks: "length (base32_blocks b) = 8 * (length b div 5)"
  by (induction b rule: base32_blocks.induct) (auto simp: div_add_self1)

lemma base32_blocks_inj:
  "length b mod 5 = 0 \<Longrightarrow> length b' = length b \<Longrightarrow> base32_blocks b = base32_blocks b' \<Longrightarrow> b = b'"
proof (induction b arbitrary: b' rule: base32_blocks.induct)
  case (1 b0 b1 b2 b3 b4 bs)
  from "1.prems"(2) obtain c0 c1 c2 c3 c4 cs where b': "b' = c0 # c1 # c2 # c3 # c4 # cs"
    by (auto simp: length_Suc_conv)
  from "1.prems"(3) b' have e: "encode_block (pack5 b0 b1 b2 b3 b4) = encode_block (pack5 c0 c1 c2 c3 c4)"
    and r: "base32_blocks bs = base32_blocks cs" by simp_all
  have "length bs mod 5 = 0" "length cs = length bs"
    using "1.prems" b' by simp_all
  then have "bs = cs" using r by (rule "1.IH")
  with e b' show ?case using pack5_quintets_inj by (simp add: encode_block_eq_iff)
qed auto

subsection \<open>Generate and ParseAndValidate\<close>

record token =
  tok_ID :: string
  tok_Plain :: string
  tok_Hash :: bytes

definition slice :: "'a list \<Rightarrow> nat \<Rightarrow> nat \<Rightarrow> 'a list" where
  "slice xs i j = take (j - i) (drop i xs)"

definition format_plain :: "bytes \<Rightarrow> string" where
  "format_plain b =
     (let chars = slice (base32Encode b) 0 25
      in ''PRAETOR-'' @ slice chars 0 5 @ ''-'' @ slice chars 5 10 @ ''-'' @ slice chars 10 15
           @ ''-'' @ slice chars 15 20 @ ''-'' @ slice chars 20 25)"

definition Generate :: "(string \<Rightarrow> bytes) \<Rightarrow> world \<Rightarrow> (go_error + token) \<times> world" where
  "Generate sha w =
     (case rand_read 25 w of
        (Inl e, w1) \<Rightarrow> (Inl (Wrapped ''token: read random'' e), w1)
      | (Inr b, w1) \<Rightarrow>
          (let plain = format_plain b;
               (_, w2) = go_now w1;
               (tid, w3) = new_ulid w2
           in (Inr \<lparr>tok_ID = tid, tok_Plain = plain, tok_Hash = sha plain\<rparr>, w3)))"

definition HashHex :: "(string \<Rightarrow> bytes) \<Rightarrow> string \<Rightarrow> string" where
  "HashHex sha plain = hex_bytes (sha plain)"

datatype parse_error =
    MissingPrefix
  | WrongPartCount nat
  | WrongPartLength nat nat
  | InvalidCharacter nat

fun check_parts :: "nat \<Rightarrow> string list \<Rightarrow> parse_error option" where
  "check_parts i [] = None"
| "check_parts i (p # ps) =
     (if length p \<noteq> 5 then Some (WrongPartLength (i + 1) (length p))
      else if \<not> list_all (\<lambda>c. c \<in> set alphabet) p then Some (InvalidCharacter (i + 1))
      else check_parts (i + 1) ps)"

definition ParseAndValidate :: "string \<Rightarrow> parse_error option" where
  "ParseAndValidate s =
     (if \<not> prefix ''PRAETOR-'' s then Some MissingPrefix
      else let parts = split_on (CHR ''-'') s
           in if length parts \<noteq> 6 then Some (WrongPartCount (length parts))
              else check_parts 0 (tl parts))"

text \<open>The format itself: five groups of five characters of the alphabet.\<close>

definition token_group :: "string \<Rightarrow> bool" where
  "token_group g \<longleftrightarrow> length g = 5 \<and> set g \<subseteq> set alphabet"

lemma token_group_no_dash: "token_group g \<Longrightarrow> CHR ''-'' \<notin> set g"
  using alphabet_facts(3) by (auto simp: token_group_def)

lemma check_parts_None: "check_parts i ps = None \<longleftrightarrow> list_all token_group ps"
  by (induction i ps rule: check_parts.induct)
     (auto simp: token_group_def list_all_iff subset_iff)

lemma ParseAndValidate_None:
  "ParseAndValidate s = None \<longleftrightarrow>
     (\<exists>gs. length gs = 5 \<and> list_all token_group gs \<and> s = join_with ''-'' (''PRAETOR'' # gs))"
proof
  assume p: "ParseAndValidate s = None"
  then obtain r where r: "s = ''PRAETOR'' @ CHR ''-'' # r"
    by (auto simp: ParseAndValidate_def prefix_def split: if_splits)
  then have sp: "split_on (CHR ''-'') s = ''PRAETOR'' # split_on (CHR ''-'') r"
    using split_on_append_sep [of "CHR ''-''" "''PRAETOR''" r] by simp
  have "length (split_on (CHR ''-'') s) = 6" "check_parts 0 (tl (split_on (CHR ''-'') s)) = None"
    using p by (auto simp: ParseAndValidate_def Let_def split: if_splits)
  with sp have "length (split_on (CHR ''-'') r) = 5" "list_all token_group (split_on (CHR ''-'') r)"
    by (simp_all add: check_parts_None)
  moreover have "s = join_with ''-'' (''PRAETOR'' # split_on (CHR ''-'') r)"
    using join_split_on [of "CHR ''-''" s] sp by simp
  ultimately show "\<exists>gs. length gs = 5 \<and> list_all token_group gs \<and> s = join_with ''-'' (''PRAETOR'' # gs)"
    by blast
next
  assume "\<exists>gs. length gs = 5 \<and> list_all token_group gs \<and> s = join_with ''-'' (''PRAETOR'' # gs)"
  then obtain gs where gs: "length gs = 5" "list_all token_group gs"
    and s: "s = join_with ''-'' (''PRAETOR'' # gs)" by blast
  have "split_on (CHR ''-'') s = ''PRAETOR'' # gs"
    unfolding s using gs(2) token_group_no_dash
    by (intro split_on_join) (auto simp: list_all_iff)
  moreover have "prefix ''PRAETOR-'' s"
    using gs(1) s by (cases gs) (auto simp: prefix_def)
  ultimately show "ParseAndValidate s = None"
    using gs by (simp add: ParseAndValidate_def check_parts_None)
qed

definition plain_groups :: "bytes \<Rightarrow> string list" where
  "plain_groups b =
     (let chars = take 25 (base32_blocks b)
      in [slice chars 0 5, slice chars 5 10, slice chars 10 15, slice chars 15 20, slice chars 20 25])"

lemma format_plain_join: "format_plain b = join_with ''-'' (''PRAETOR'' # plain_groups b)"
  by (simp add: format_plain_def plain_groups_def base32Encode_blocks slice_def Let_def)

lemma plain_groups_valid:
  assumes "length b = 25"
  shows "list_all token_group (plain_groups b)"
proof -
  have "length (base32_blocks b) = 40" using assms by (simp add: length_base32_blocks)
  moreover have "set (slice (take 25 (base32_blocks b)) i j) \<subseteq> set alphabet" for i j
    using base32_blocks_alphabet [of b] by (auto simp: slice_def dest!: in_set_takeD in_set_dropD)
  ultimately show ?thesis
    by (simp add: plain_groups_def token_group_def Let_def) (simp add: slice_def)
qed

lemma ParseAndValidate_format_plain: "length b = 25 \<Longrightarrow> ParseAndValidate (format_plain b) = None"
  unfolding ParseAndValidate_None
  by (intro exI [where x = "plain_groups b"])
     (simp add: plain_groups_valid format_plain_join, simp add: plain_groups_def Let_def)

lemma concat_plain_groups:
  assumes "length b = 25"
  shows "concat (plain_groups b) = take 25 (base32_blocks b)"
proof -
  have *: "xs = take 5 xs @ take 5 (drop 5 xs) @ take 5 (drop 10 xs) @ take 5 (drop 15 xs) @ drop 20 xs"
    for xs :: string
    using append_take_drop_id [of 5 xs] append_take_drop_id [of 5 "drop 5 xs"]
      append_take_drop_id [of 5 "drop 10 xs"] append_take_drop_id [of 5 "drop 15 xs"]
    by simp
  show ?thesis
    using assms * [of "take 25 (base32_blocks b)"]
    by (simp add: plain_groups_def slice_def Let_def)
qed

lemma format_plain_eq_take:
  assumes "length b = 25" "length b' = 25"
  shows "format_plain b = format_plain b' \<longleftrightarrow> take 25 (base32_blocks b) = take 25 (base32_blocks b')"
proof
  assume "format_plain b = format_plain b'"
  moreover have "split_on (CHR ''-'') (format_plain c) = ''PRAETOR'' # plain_groups c"
    if "length c = 25" for c
    unfolding format_plain_join using plain_groups_valid [OF that] token_group_no_dash
    by (intro split_on_join) (auto simp: list_all_iff)
  ultimately have "plain_groups b = plain_groups b'" using assms by (metis list.inject)
  then show "take 25 (base32_blocks b) = take 25 (base32_blocks b')"
    using assms by (simp flip: concat_plain_groups)
qed (simp add: format_plain_def base32Encode_blocks slice_def)

lemma base32_blocks_append:
  "length xs mod 5 = 0 \<Longrightarrow> base32_blocks (xs @ ys) = base32_blocks xs @ base32_blocks ys"
  by (induction xs rule: base32_blocks.induct) auto

lemma take_25_blocks:
  assumes "length b = 25"
  shows "take 25 (base32_blocks b) = base32_blocks (take 15 b) @
    [alphabet ! unat (quintet (pack5 (b ! 15) (b ! 16) (b ! 17) (b ! 18) (b ! 19)) 7)]"
proof -
  have d: "drop 15 b = b ! 15 # b ! 16 # b ! 17 # b ! 18 # b ! 19 # drop 20 b"
    using assms by (simp add: Cons_nth_drop_Suc eval_nat_numeral)
  have "base32_blocks b = base32_blocks (take 15 b @ drop 15 b)" by simp
  also have "\<dots> = base32_blocks (take 15 b) @ base32_blocks (drop 15 b)"
    using assms by (intro base32_blocks_append) simp
  finally have "base32_blocks b = base32_blocks (take 15 b) @ base32_blocks (drop 15 b)" .
  moreover have "length (base32_blocks (take 15 b)) = 24"
    using assms by (simp add: length_base32_blocks)
  moreover have "take 1 (encode_block v) = [alphabet ! unat (quintet v 7)]" for v
    using encode_block_nth [of 0 v] length_encode_block [of v] by (cases "encode_block v") (auto simp del: length_encode_block)
  ultimately show ?thesis by (simp add: d)
qed

text \<open>Two draws of 25 random bytes print as the same token exactly when their first 15 bytes
  and the five high bits of the 16th byte agree: the printed token carries 125 bits of the draw,
  none twice, and the other nine bytes and three bits are dropped.\<close>

theorem format_plain_entropy:
  assumes "length b = 25" "length b' = 25"
  shows "format_plain b = format_plain b' \<longleftrightarrow>
    take 15 b = take 15 b' \<and> drop_bit 3 (b ! 15) = drop_bit 3 (b' ! 15)"
proof -
  have "base32_blocks (take 15 b) = base32_blocks (take 15 b') \<longleftrightarrow> take 15 b = take 15 b'"
    using assms base32_blocks_inj [of "take 15 b" "take 15 b'"] by auto
  then show ?thesis
    using assms by (simp add: format_plain_eq_take take_25_blocks alphabet_nth_eq top_quintet_eq_iff)
qed

theorem format_plain_entropy_witness:
  "format_plain (replicate 15 0 @ 7 # replicate 9 0) = format_plain (replicate 15 0 @ 0 # replicate 9 255)
   \<and> format_plain (replicate 15 0 @ 8 # replicate 9 0) \<noteq> format_plain (replicate 25 0)"
  using format_plain_entropy [of "replicate 15 0 @ 7 # replicate 9 0" "replicate 15 0 @ 0 # replicate 9 255"]
    format_plain_entropy [of "replicate 15 0 @ 8 # replicate 9 0" "replicate 25 0"]
  by (simp add: nth_append)

text \<open>C34: A text passes \<open>ParseAndValidate\<close> exactly when it is \<open>PRAETOR-\<close> followed by five
  groups, joined by dashes, of five characters of the alphabet each; nothing else is accepted.\<close>

theorem ParseAndValidate_accepts:
  "ParseAndValidate s = None \<longleftrightarrow>
     (\<exists>g1 g2 g3 g4 g5. s = ''PRAETOR-'' @ g1 @ ''-'' @ g2 @ ''-'' @ g3 @ ''-'' @ g4 @ ''-'' @ g5
        \<and> length g1 = 5 \<and> length g2 = 5 \<and> length g3 = 5 \<and> length g4 = 5 \<and> length g5 = 5
        \<and> set (g1 @ g2 @ g3 @ g4 @ g5) \<subseteq> set alphabet)"
  (is "_ \<longleftrightarrow> ?fmt")
proof
  assume "ParseAndValidate s = None"
  then obtain gs where gs: "length gs = 5" "list_all token_group gs"
    "s = join_with ''-'' (''PRAETOR'' # gs)"
    by (auto simp: ParseAndValidate_None)
  from gs(1) obtain g1 g2 g3 g4 g5 where "gs = [g1, g2, g3, g4, g5]"
    by (auto simp: length_Suc_conv numeral_eq_Suc)
  with gs show ?fmt
    by (intro exI [where x = g1] exI [where x = g2] exI [where x = g3] exI [where x = g4]
        exI [where x = g5]) (simp add: token_group_def)
next
  assume ?fmt
  then obtain g1 g2 g3 g4 g5 where
    "s = ''PRAETOR-'' @ g1 @ ''-'' @ g2 @ ''-'' @ g3 @ ''-'' @ g4 @ ''-'' @ g5"
    "list_all token_group [g1, g2, g3, g4, g5]"
    by (auto simp: token_group_def)
  then show "ParseAndValidate s = None"
    unfolding ParseAndValidate_None by (intro exI [where x = "[g1, g2, g3, g4, g5]"]) simp
qed

lemma Generate_result:
  assumes "Generate sha w = (Inr t, w')"
  shows "ParseAndValidate (tok_Plain t) = None \<and> tok_Hash t = sha (tok_Plain t) \<and>
    hex_bytes (tok_Hash t) = HashHex sha (tok_Plain t) \<and> w_db w' = w_db w"
proof -
  from assms obtain b where b: "rand_read 25 w = (Inr b, tick w)" "tok_Plain t = format_plain b"
    "tok_Hash t = sha (tok_Plain t)" "w_db w' = w_db w"
    by (auto simp: Generate_def Let_def go_now_def new_ulid_def rand_read_def split: if_splits)
  then show ?thesis
    by (simp add: ParseAndValidate_format_plain length_rand_read HashHex_def)
qed

text \<open>A token \<open>Generate\<close> returns passes \<open>ParseAndValidate\<close>, its hash is the hash of the
  text shown to the operator, and no table is touched.\<close>

theorem Generate_valid:
  assumes "Generate sha w = (Inr t, w')"
  shows "ParseAndValidate (tok_Plain t) = None \<and> tok_Hash t = sha (tok_Plain t) \<and>
    hex_bytes (tok_Hash t) = HashHex sha (tok_Plain t) \<and> w_db w' = w_db w"
  using assms by (rule Generate_result)

theorem Generate_valid_witness:
  "\<exists>t w'. Generate (\<lambda>_. [1, 2]) (calm_world empty_db) = (Inr t, w') \<and>
     ParseAndValidate (tok_Plain t) = None \<and> tok_Hash t = [1, 2]"
proof -
  let ?g = "Generate (\<lambda>_. [1, 2]) (calm_world empty_db)"
  have "\<exists>t w'. ?g = (Inr t, w')"
    by (simp add: Generate_def rand_read_def calm_world_def go_now_def new_ulid_def)
  then obtain t w' where g: "?g = (Inr t, w')" by blast
  show ?thesis using Generate_valid [OF g] g by auto
qed

end
