(* ===== verification/CA.thy ===== *)
theory CA
  imports Token
begin

text \<open>
  \<open>internal/ca/ca.go\<close>: the certificate authority. What \<open>crypto/x509\<close>, \<open>encoding/pem\<close>,
  \<open>crypto/ed25519\<close>, \<open>crypto/tls\<close> and \<open>crypto/sha256\<close> compute is the record
  \<open>crypto\<close>, a parameter; \<open>crypto_ok\<close> states the documented laws that the properties use
  (what is encoded decodes, a created certificate has the fields of its template, with its instants
  cut to seconds). The random bytes and the clock are the world's. The data directory is the record
  \<open>files\<close>: contents and modes by path, the umask, and what each system call does.
\<close>

subsection \<open>Keys, requests and certificates\<close>

datatype public_key =
    Ed25519Pub bytes
  | EcdsaPub string bytes
  | OtherPub string

datatype private_key = Ed25519Priv bytes | OtherPriv

datatype key_usage = DigitalSignature | KeyEncipherment | CertSign | CRLSign
datatype ext_key_usage = ClientAuth | ServerAuth

record csr =
  csr_CommonName :: string
  csr_PublicKey :: public_key
  csr_Extensions :: "(string \<times> bool) list"

record cert_template =
  ct_SerialNumber :: int
  ct_CommonName :: string
  ct_Organization :: "string list"
  ct_OrganizationalUnit :: "string list"
  ct_DNSNames :: "string list"
  ct_IPAddresses :: "bytes list"
  ct_NotBefore :: instant
  ct_NotAfter :: instant
  ct_KeyUsage :: "key_usage list"
  ct_ExtKeyUsage :: "ext_key_usage list"
  ct_BasicConstraintsValid :: bool
  ct_IsCA :: bool
  ct_MaxPathLen :: int
  ct_MaxPathLenZero :: bool

record certificate =
  crt_Fields :: cert_template
  crt_PublicKey :: public_key
  crt_Raw :: bytes

record crypto =
  c_pem_Decode :: "string \<Rightarrow> (string \<times> bytes) option"
  c_pem_Encode :: "string \<Rightarrow> bytes \<Rightarrow> string"
  c_ParseCertificateRequest :: "bytes \<Rightarrow> string + csr"
  c_CheckSignature :: "csr \<Rightarrow> string option"
  c_CreateCertificate :: "cert_template \<Rightarrow> cert_template \<Rightarrow> public_key \<Rightarrow> bytes \<Rightarrow> string + bytes"
  c_ParseCertificate :: "bytes \<Rightarrow> string + certificate"
  c_NewKeyFromSeed :: "bytes \<Rightarrow> bytes \<times> bytes"
  c_MarshalPKCS8PrivateKey :: "bytes \<Rightarrow> bytes"
  c_ParsePKCS8PrivateKey :: "bytes \<Rightarrow> string + private_key"
  c_X509KeyPair_error :: "string \<Rightarrow> string \<Rightarrow> string option"
  c_ParseIP :: "string \<Rightarrow> bytes option"
  c_Sum256 :: "string \<Rightarrow> bytes"

definition cut_to_second :: "instant \<Rightarrow> instant" where
  "cut_to_second t = t div time_Second * time_Second"

definition crypto_ok :: "crypto \<Rightarrow> bool" where
  "crypto_ok c \<longleftrightarrow>
     (\<forall>ty b. c_pem_Decode c (c_pem_Encode c ty b) = Some (ty, b)) \<and>
     (\<forall>tm parent pub priv der. c_CreateCertificate c tm parent pub priv = Inr der \<longrightarrow>
        c_ParseCertificate c der =
          Inr \<lparr>crt_Fields = tm\<lparr>ct_NotBefore := cut_to_second (ct_NotBefore tm),
                               ct_NotAfter := cut_to_second (ct_NotAfter tm)\<rparr>,
               crt_PublicKey = pub, crt_Raw = der\<rparr>) \<and>
     (\<forall>priv. c_ParsePKCS8PrivateKey c (c_MarshalPKCS8PrivateKey c priv) = Inr (Ed25519Priv priv))"

record ca =
  ca_rootKey :: bytes
  ca_rootCert :: certificate
  ca_rootPEM :: string
  ca_serverTLS :: "string \<times> string"

subsection \<open>IssueClient\<close>

definition big_SetBytes :: "bytes \<Rightarrow> int" where
  "big_SetBytes b = foldl (\<lambda>n x. 256 * n + uint x) 0 b"

definition randomSerial :: "world \<Rightarrow> (go_error + int) \<times> world" where
  "randomSerial w =
     (case rand_read 16 w of
        (Inl e, w1) \<Rightarrow> (Inl (Wrapped ''ca: random serial'' e), w1)
      | (Inr b, w1) \<Rightarrow> (Inr (big_SetBytes b), w1))"

text \<open>The checks of a request up to the key and the extensions, in the order of the source.\<close>

definition key_error :: "public_key \<Rightarrow> string option" where
  "key_error k =
     (case k of
        Ed25519Pub _ \<Rightarrow> None
      | EcdsaPub curve _ \<Rightarrow>
          if curve = ''P-256'' then None else Some (''ca: ECDSA key must use P-256, got '' @ curve)
      | OtherPub t \<Rightarrow> Some (''ca: unsupported key type '' @ t @ '' (only Ed25519 and P-256 allowed)''))"

definition read_csr :: "crypto \<Rightarrow> string \<Rightarrow> go_error + csr" where
  "read_csr c csrPEM =
     (case c_pem_Decode c csrPEM of
        None \<Rightarrow> Inl (ErrorText ''ca: invalid CSR PEM'')
      | Some (ty, der) \<Rightarrow>
          if ty \<noteq> ''CERTIFICATE REQUEST'' then Inl (ErrorText ''ca: invalid CSR PEM'')
          else case c_ParseCertificateRequest c der of
                 Inl e \<Rightarrow> Inl (Wrapped ''ca: parse CSR'' (ErrorText e))
               | Inr r \<Rightarrow>
                   (case c_CheckSignature c r of
                      Some e \<Rightarrow> Inl (Wrapped ''ca: CSR signature invalid'' (ErrorText e))
                    | None \<Rightarrow>
                        (case key_error (csr_PublicKey r) of
                           Some e \<Rightarrow> Inl (ErrorText e)
                         | None \<Rightarrow>
                             if \<exists>x \<in> set (csr_Extensions r). fst x = ''2.5.29.19'' \<and> snd x
                             then Inl (ErrorText ''ca: CSR must not have critical BasicConstraints'')
                             else Inr r)))"

definition client_template :: "int \<Rightarrow> string \<Rightarrow> instant \<Rightarrow> instant \<Rightarrow> cert_template" where
  "client_template serial hostID nb na =
     \<lparr>ct_SerialNumber = serial, ct_CommonName = hostID, ct_Organization = [],
      ct_OrganizationalUnit = [''praetor-agent''], ct_DNSNames = [], ct_IPAddresses = [],
      ct_NotBefore = nb, ct_NotAfter = na, ct_KeyUsage = [DigitalSignature, KeyEncipherment],
      ct_ExtKeyUsage = [ClientAuth], ct_BasicConstraintsValid = False, ct_IsCA = False,
      ct_MaxPathLen = 0, ct_MaxPathLenZero = False\<rparr>"

definition IssueClient ::
  "crypto \<Rightarrow> ca \<Rightarrow> string \<Rightarrow> string \<Rightarrow> duration \<Rightarrow> world \<Rightarrow> (go_error + string) \<times> world" where
  "IssueClient c auth csrPEM hostID ttl w =
     (case read_csr c csrPEM of
        Inl e \<Rightarrow> (Inl e, w)
      | Inr r \<Rightarrow>
          (case randomSerial w of
             (Inl e, w1) \<Rightarrow> (Inl e, w1)
           | (Inr serial, w1) \<Rightarrow>
               (let (t1, w2) = go_now w1; (t2, w3) = go_now w2;
                    tm = client_template serial hostID (t1 - time_Minute) (t2 + ttl)
                in case c_CreateCertificate c tm (crt_Fields (ca_rootCert auth)) (csr_PublicKey r)
                          (ca_rootKey auth) of
                     Inl e \<Rightarrow> (Inl (Wrapped ''ca: sign client cert'' (ErrorText e)), w3)
                   | Inr der \<Rightarrow> (Inr (c_pem_Encode c ''CERTIFICATE'' der), w3))))"

subsection \<open>The data directory\<close>

unbundle bit_operations_syntax

type_synonym mode = "9 word"

datatype io = IoOk | IoFail string | IoPartial nat string

record files =
  f_files :: "string \<Rightarrow> (string \<times> mode) option"
  f_umask :: mode
  f_superuser :: bool
  f_io :: "nat \<Rightarrow> io"
  f_calls :: nat

definition f_next :: "files \<Rightarrow> files" where
  "f_next f = f\<lparr>f_calls := Suc (f_calls f)\<rparr>"

datatype stat_result = Exists mode | NotExist | StatError string

definition os_Stat :: "string \<Rightarrow> files \<Rightarrow> stat_result \<times> files" where
  "os_Stat p f =
     (case f_io f (f_calls f) of
        IoOk \<Rightarrow> (case f_files f p of None \<Rightarrow> NotExist | Some (_, m) \<Rightarrow> Exists m, f_next f)
      | IoFail e \<Rightarrow> (StatError e, f_next f)
      | IoPartial _ e \<Rightarrow> (StatError e, f_next f))"

definition os_MkdirAll :: "string \<Rightarrow> files \<Rightarrow> string option \<times> files" where
  "os_MkdirAll p f =
     (case f_io f (f_calls f) of
        IoOk \<Rightarrow> (None, f_next f) | IoFail e \<Rightarrow> (Some e, f_next f) | IoPartial _ e \<Rightarrow> (Some e, f_next f))"

definition os_ReadFile :: "string \<Rightarrow> files \<Rightarrow> (go_error + string) \<times> files" where
  "os_ReadFile p f =
     (case f_io f (f_calls f) of
        IoOk \<Rightarrow>
          (case f_files f p of
             None \<Rightarrow> Inl (ErrorText (''open '' @ p @ '': no such file or directory''))
           | Some (d, m) \<Rightarrow>
               if f_superuser f \<or> bit m 8 then Inr d
               else Inl (ErrorText (''open '' @ p @ '': permission denied'')), f_next f)
      | IoFail e \<Rightarrow> (Inl (ErrorText e), f_next f)
      | IoPartial _ e \<Rightarrow> (Inl (ErrorText e), f_next f))"

text \<open>\<open>os.WriteFile\<close>: a new file gets the mode less the umask; an existing one is cut and
  keeps its mode, if it may be opened for writing. A failed write may leave a first part.\<close>

definition os_WriteFile :: "string \<Rightarrow> string \<Rightarrow> mode \<Rightarrow> files \<Rightarrow> string option \<times> files" where
  "os_WriteFile p d perm f =
     (let m = (case f_files f p of None \<Rightarrow> perm AND NOT (f_umask f) | Some (_, m) \<Rightarrow> m);
          allowed = (case f_files f p of None \<Rightarrow> True | Some (_, m) \<Rightarrow> f_superuser f \<or> bit m 7);
          put = (\<lambda>x. (f_next f)\<lparr>f_files := (f_files f)(p := Some (x, m))\<rparr>)
      in case f_io f (f_calls f) of
           IoFail e \<Rightarrow> (Some e, f_next f)
         | IoPartial n e \<Rightarrow> if allowed then (Some e, put (take n d)) else (Some e, f_next f)
         | IoOk \<Rightarrow> if allowed then (None, put d)
                   else (Some (''open '' @ p @ '': permission denied''), f_next f))"

fun oct_digits :: "nat \<Rightarrow> string" where
  "oct_digits n = (if n < 8 then [digit_char n] else oct_digits (n div 8) @ [digit_char (n mod 8)])"

declare oct_digits.simps [simp del]

definition writeFile :: "string \<Rightarrow> string \<Rightarrow> mode \<Rightarrow> files \<Rightarrow> (go_error + unit) \<times> files" where
  "writeFile p d m f =
     (case os_WriteFile p d m f of
        (Some e, f1) \<Rightarrow> (Inl (Wrapped (''ca: write '' @ p) (ErrorText e)), f1)
      | (None, f1) \<Rightarrow>
          (case os_Stat p f1 of
             (StatError e, f2) \<Rightarrow> (Inl (Wrapped (''ca: stat '' @ p) (ErrorText e)), f2)
           | (NotExist, f2) \<Rightarrow>
               (Inl (Wrapped (''ca: stat '' @ p) (ErrorText (''stat '' @ p @ '': no such file or directory''))), f2)
           | (Exists m', f2) \<Rightarrow>
               if m' \<noteq> m then (Inl (ErrorText (''ca: '' @ p @ '' has mode '' @ oct_digits (unat m') @
                                    '', want '' @ oct_digits (unat m))), f2)
               else (Inr (), f2)))"

subsection \<open>New: generate the authority, or load it\<close>

text \<open>A step of the start-up works on the world and the data directory, and may fail.\<close>

type_synonym 'a boot = "world \<times> files \<Rightarrow> (go_error + 'a) \<times> world \<times> files"

definition boot_return :: "'a \<Rightarrow> 'a boot" where
  "boot_return a s = (Inr a, s)"

definition boot_fail :: "go_error \<Rightarrow> 'a boot" where
  "boot_fail e s = (Inl e, s)"

definition boot_bind :: "'a boot \<Rightarrow> ('a \<Rightarrow> 'b boot) \<Rightarrow> 'b boot" where
  "boot_bind m k s = (case m s of (Inl e, s1) \<Rightarrow> (Inl e, s1) | (Inr a, s1) \<Rightarrow> k a s1)"

definition on_world :: "(world \<Rightarrow> (go_error + 'a) \<times> world) \<Rightarrow> 'a boot" where
  "on_world m s = (case m (fst s) of (r, w) \<Rightarrow> (r, w, snd s))"

definition on_files :: "(files \<Rightarrow> (go_error + 'a) \<times> files) \<Rightarrow> 'a boot" where
  "on_files m s = (case m (snd s) of (r, f) \<Rightarrow> (r, fst s, f))"

definition boot_now :: "instant boot" where
  "boot_now = on_world (\<lambda>w. (Inr (fst (go_now w)), snd (go_now w)))"

definition boot_wrap :: "string \<Rightarrow> 'a boot \<Rightarrow> 'a boot" where
  "boot_wrap p m s = (case m s of (Inl e, s1) \<Rightarrow> (Inl (Wrapped p e), s1) | (Inr a, s1) \<Rightarrow> (Inr a, s1))"

definition boot_sum :: "string + 'a \<Rightarrow> 'a boot" where
  "boot_sum r = (case r of Inl e \<Rightarrow> boot_fail (ErrorText e) | Inr a \<Rightarrow> boot_return a)"

definition ed25519_GenerateKey :: "crypto \<Rightarrow> (bytes \<times> bytes) boot" where
  "ed25519_GenerateKey c =
     boot_bind (on_world (rand_read 32)) (\<lambda>seed. boot_return (c_NewKeyFromSeed c seed))"

text \<open>\<open>filepath.Join\<close>, which also cleans the path it gives; that is left out, since both name the same file.\<close>

definition path_join :: "string \<Rightarrow> string \<Rightarrow> string" where
  "path_join d n = (if d = [] then n else d @ ''/'' @ n)"

definition rootKeyFile :: string where "rootKeyFile = ''root.key''"
definition rootCertFile :: string where "rootCertFile = ''root.crt''"
definition srvKeyFile :: string where "srvKeyFile = ''server.key''"
definition srvCertFile :: string where "srvCertFile = ''server.crt''"

definition mode_0400 :: mode where "mode_0400 = 0x100"
definition mode_0444 :: mode where "mode_0444 = 0x124"

definition root_template :: "int \<Rightarrow> instant \<Rightarrow> instant \<Rightarrow> cert_template" where
  "root_template serial nb na =
     \<lparr>ct_SerialNumber = serial, ct_CommonName = ''Praetor Root CA'', ct_Organization = [''Praetor''],
      ct_OrganizationalUnit = [], ct_DNSNames = [], ct_IPAddresses = [], ct_NotBefore = nb,
      ct_NotAfter = na, ct_KeyUsage = [CertSign, CRLSign], ct_ExtKeyUsage = [],
      ct_BasicConstraintsValid = True, ct_IsCA = True, ct_MaxPathLen = 0, ct_MaxPathLenZero = True\<rparr>"

text \<open>The names of the server certificate: IP addresses, with the loopback first, and the rest.\<close>

definition parse_ip_or_nil :: "crypto \<Rightarrow> string \<Rightarrow> bytes" where
  "parse_ip_or_nil c s = (case c_ParseIP c s of None \<Rightarrow> [] | Some ip \<Rightarrow> ip)"

fun split_names :: "crypto \<Rightarrow> string list \<Rightarrow> string list \<times> bytes list \<Rightarrow> string list \<times> bytes list" where
  "split_names c [] acc = acc"
| "split_names c (n # ns) (dns, ips) =
     (case c_ParseIP c n of
        Some ip \<Rightarrow> split_names c ns (dns, ips @ [ip])
      | None \<Rightarrow> split_names c ns (dns @ [n], ips))"

definition server_template ::
  "int \<Rightarrow> string list \<Rightarrow> bytes list \<Rightarrow> instant \<Rightarrow> instant \<Rightarrow> cert_template" where
  "server_template serial dns ips nb na =
     \<lparr>ct_SerialNumber = serial, ct_CommonName = ''praetor-server'', ct_Organization = [''Praetor''],
      ct_OrganizationalUnit = [], ct_DNSNames = dns, ct_IPAddresses = ips, ct_NotBefore = nb,
      ct_NotAfter = na, ct_KeyUsage = [DigitalSignature, KeyEncipherment],
      ct_ExtKeyUsage = [ServerAuth], ct_BasicConstraintsValid = False, ct_IsCA = False,
      ct_MaxPathLen = 0, ct_MaxPathLenZero = False\<rparr>"

definition marshalEd25519PrivKey :: "crypto \<Rightarrow> bytes \<Rightarrow> string" where
  "marshalEd25519PrivKey c priv = c_pem_Encode c ''PRIVATE KEY'' (c_MarshalPKCS8PrivateKey c priv)"

definition write_material :: "string \<Rightarrow> string \<Rightarrow> string \<Rightarrow> string \<Rightarrow> string \<Rightarrow> unit boot" where
  "write_material dir rootKeyPEM rootPEM srvKeyPEM srvCertPEM =
     boot_bind (on_files (writeFile (path_join dir rootKeyFile) rootKeyPEM mode_0400)) (\<lambda>_.
     boot_bind (on_files (writeFile (path_join dir rootCertFile) rootPEM mode_0444)) (\<lambda>_.
     boot_bind (on_files (writeFile (path_join dir srvKeyFile) srvKeyPEM mode_0400)) (\<lambda>_.
     on_files (writeFile (path_join dir srvCertFile) srvCertPEM mode_0444))))"

definition make_root :: "crypto \<Rightarrow> (bytes \<times> bytes \<times> certificate) boot" where
  "make_root c =
     boot_bind (boot_wrap ''ca: generate root key'' (ed25519_GenerateKey c)) (\<lambda>(rootPub, rootPriv).
     boot_bind (on_world randomSerial) (\<lambda>serial.
     boot_bind boot_now (\<lambda>t1. boot_bind boot_now (\<lambda>t2.
     let tm = root_template serial (t1 - time_Minute) (t2 + 10 * 365 * 24 * time_Hour) in
     boot_bind (boot_wrap ''ca: create root cert''
       (boot_sum (c_CreateCertificate c tm tm (Ed25519Pub rootPub) rootPriv))) (\<lambda>rootDER.
     boot_bind (boot_wrap ''ca: parse root cert'' (boot_sum (c_ParseCertificate c rootDER))) (\<lambda>rootCert.
     boot_return (rootPriv, rootDER, rootCert)))))))"

definition make_server ::
  "crypto \<Rightarrow> string list \<Rightarrow> bytes \<Rightarrow> certificate \<Rightarrow> (bytes \<times> bytes) boot" where
  "make_server c dnsNames rootPriv rootCert =
     boot_bind (boot_wrap ''ca: generate server key'' (ed25519_GenerateKey c)) (\<lambda>(srvPub, srvPriv).
     boot_bind (on_world randomSerial) (\<lambda>serial.
     boot_bind boot_now (\<lambda>t1. boot_bind boot_now (\<lambda>t2.
     let (dns, ips) = split_names c dnsNames ([], [parse_ip_or_nil c ''127.0.0.1'']);
         tm = server_template serial dns ips (t1 - time_Minute) (t2 + 365 * 24 * time_Hour) in
     boot_bind (boot_wrap ''ca: create server cert''
       (boot_sum (c_CreateCertificate c tm (crt_Fields rootCert) (Ed25519Pub srvPub) rootPriv))) (\<lambda>srvDER.
     boot_return (srvPriv, srvDER))))))"

definition key_pair :: "crypto \<Rightarrow> string \<Rightarrow> string \<Rightarrow> string \<Rightarrow> (string \<times> string) boot" where
  "key_pair c what certPEM keyPEM =
     (case c_X509KeyPair_error c certPEM keyPEM of
        Some e \<Rightarrow> boot_fail (Wrapped what (ErrorText e))
      | None \<Rightarrow> boot_return (certPEM, keyPEM))"

definition generate :: "crypto \<Rightarrow> string \<Rightarrow> string list \<Rightarrow> ca boot" where
  "generate c dir dnsNames =
     boot_bind (make_root c) (\<lambda>(rootPriv, rootDER, rootCert).
     boot_bind (make_server c dnsNames rootPriv rootCert) (\<lambda>(srvPriv, srvDER).
     let rootPEM = c_pem_Encode c ''CERTIFICATE'' rootDER;
         rootKeyPEM = marshalEd25519PrivKey c rootPriv;
         srvCertPEM = c_pem_Encode c ''CERTIFICATE'' srvDER;
         srvKeyPEM = marshalEd25519PrivKey c srvPriv in
     boot_bind (write_material dir rootKeyPEM rootPEM srvKeyPEM srvCertPEM) (\<lambda>_.
     boot_bind (key_pair c ''ca: build server TLS cert'' srvCertPEM srvKeyPEM) (\<lambda>serverTLS.
     boot_return \<lparr>ca_rootKey = rootPriv, ca_rootCert = rootCert, ca_rootPEM = rootPEM,
                   ca_serverTLS = serverTLS\<rparr>))))"

definition read_file :: "string \<Rightarrow> string \<Rightarrow> string boot" where
  "read_file what p = boot_wrap what (on_files (os_ReadFile p))"

definition parse_material :: "crypto \<Rightarrow> string \<Rightarrow> string \<Rightarrow> string \<Rightarrow> string \<Rightarrow> ca boot" where
  "parse_material c rootKeyPEM rootCertPEM srvCertPEM srvKeyPEM =
     (case c_pem_Decode c rootKeyPEM of
        None \<Rightarrow> boot_fail (ErrorText ''ca: decode root key PEM'')
      | Some (_, keyDER) \<Rightarrow>
     boot_bind (boot_wrap ''ca: parse root key'' (boot_sum (c_ParsePKCS8PrivateKey c keyDER))) (\<lambda>priv.
     case priv of
       OtherPriv \<Rightarrow> boot_fail (ErrorText ''ca: root key is not Ed25519'')
     | Ed25519Priv edPriv \<Rightarrow>
     (case c_pem_Decode c rootCertPEM of
        None \<Rightarrow> boot_fail (ErrorText ''ca: decode root cert PEM'')
      | Some (_, certDER) \<Rightarrow>
     boot_bind (boot_wrap ''ca: parse root cert'' (boot_sum (c_ParseCertificate c certDER))) (\<lambda>rootCert.
     boot_bind (key_pair c ''ca: load server TLS cert'' srvCertPEM srvKeyPEM) (\<lambda>serverTLS.
     boot_return \<lparr>ca_rootKey = edPriv, ca_rootCert = rootCert, ca_rootPEM = rootCertPEM,
                   ca_serverTLS = serverTLS\<rparr>)))))"

definition load :: "crypto \<Rightarrow> string \<Rightarrow> ca boot" where
  "load c dir =
     boot_bind (read_file ''ca: read root key'' (path_join dir rootKeyFile)) (\<lambda>rootKeyPEM.
     boot_bind (read_file ''ca: read root cert'' (path_join dir rootCertFile)) (\<lambda>rootCertPEM.
     boot_bind (read_file ''ca: read server cert'' (path_join dir srvCertFile)) (\<lambda>srvCertPEM.
     boot_bind (read_file ''ca: read server key'' (path_join dir srvKeyFile)) (\<lambda>srvKeyPEM.
     parse_material c rootKeyPEM rootCertPEM srvCertPEM srvKeyPEM))))"

definition New_CA :: "crypto \<Rightarrow> string \<Rightarrow> string list \<Rightarrow> ca boot" where
  "New_CA c dataDir dnsNames =
     (let dir = path_join dataDir ''ca'' in
      boot_bind (on_files (\<lambda>f. case os_MkdirAll dir f of
          (Some e, f1) \<Rightarrow> (Inl (Wrapped (''ca: mkdir '' @ dir) (ErrorText e)), f1)
        | (None, f1) \<Rightarrow> (Inr (), f1))) (\<lambda>_.
      boot_bind (on_files (\<lambda>f. case os_Stat (path_join dir rootKeyFile) f of (r, f1) \<Rightarrow> (Inr r, f1))) (\<lambda>st.
      if st = NotExist then generate c dir dnsNames else load c dir)))"

subsection \<open>ServerTLSConfig and RootBundlePEM\<close>

datatype client_auth = NoClientCert | RequireAndVerifyClientCert | VerifyClientCertIfGiven
datatype tls_version = TLS12 | TLS13

record tls_config =
  tls_Certificates :: "(string \<times> string) list"
  tls_ClientAuth :: client_auth
  tls_ClientCAs :: "certificate list"
  tls_MinVersion :: tls_version

definition ServerTLSConfig :: "ca \<Rightarrow> tls_config" where
  "ServerTLSConfig a =
     \<lparr>tls_Certificates = [ca_serverTLS a], tls_ClientAuth = VerifyClientCertIfGiven,
      tls_ClientCAs = [ca_rootCert a], tls_MinVersion = TLS13\<rparr>"

definition RootBundlePEM :: "ca \<Rightarrow> string" where
  "RootBundlePEM a = ca_rootPEM a"

subsection \<open>What IssueClient accepts and what it signs\<close>

lemma key_error_None: "key_error k = None \<longleftrightarrow> (\<exists>b. k = Ed25519Pub b) \<or> (\<exists>b. k = EcdsaPub ''P-256'' b)"
  by (auto simp: key_error_def split: public_key.splits)

lemma read_csr_Inr:
  "read_csr c p = Inr r \<longleftrightarrow>
     (\<exists>der. c_pem_Decode c p = Some (''CERTIFICATE REQUEST'', der) \<and> c_ParseCertificateRequest c der = Inr r) \<and>
     c_CheckSignature c r = None \<and> key_error (csr_PublicKey r) = None \<and>
     (''2.5.29.19'', True) \<notin> set (csr_Extensions r)"
  by (auto simp: read_csr_def split: option.splits sum.splits prod.splits)

lemma randomSerial_env: "randomSerial w = (r, w1) \<Longrightarrow> w1 = tick w"
  by (auto simp: randomSerial_def rand_read_def split: if_splits)

lemma IssueClient_db [simp]: "w_db (snd (IssueClient c a p h ttl w)) = w_db w"
  by (auto simp: IssueClient_def go_now_def Let_def split: sum.splits prod.splits dest!: randomSerial_env)

lemma IssueClient_env [simp]:
  "w_fault (snd (IssueClient c a p h ttl w)) = w_fault w"
  "w_clock (snd (IssueClient c a p h ttl w)) = w_clock w"
  "w_ulid (snd (IssueClient c a p h ttl w)) = w_ulid w"
  by (auto simp: IssueClient_def go_now_def Let_def split: sum.splits prod.splits dest!: randomSerial_env)

lemma IssueClient_Inr:
  assumes "IssueClient c a p h ttl w = (Inr pem, w')"
  obtains r serial der where "read_csr c p = Inr r" "fst (randomSerial w) = Inr serial"
    "c_CreateCertificate c (client_template serial h (w_clock w (Suc (w_tick w)) - time_Minute)
        (w_clock w (Suc (Suc (w_tick w))) + ttl)) (crt_Fields (ca_rootCert a)) (csr_PublicKey r)
        (ca_rootKey a) = Inr der"
    "pem = c_pem_Encode c ''CERTIFICATE'' der" "w' = tick (tick (tick w))"
  using assms
  by (auto simp: IssueClient_def Let_def go_now_def split: sum.splits prod.splits dest!: randomSerial_env)

lemma cut_to_second_le: "cut_to_second t \<le> t"
  using div_mult_mod_eq [of t time_Second]
  by (simp add: cut_to_second_def time_units minus_mod_eq_div_mult [symmetric])

lemma IssueClient_parsed:
  assumes "crypto_ok c" "IssueClient c a csrPEM hostID ttl w = (Inr pem, w')"
  obtains r crt where "read_csr c csrPEM = Inr r"
    "c_pem_Decode c pem = Some (''CERTIFICATE'', crt_Raw crt)" "c_ParseCertificate c (crt_Raw crt) = Inr crt"
    "crt_PublicKey crt = csr_PublicKey r" "ct_CommonName (crt_Fields crt) = hostID"
    "ct_OrganizationalUnit (crt_Fields crt) = [''praetor-agent'']"
    "ct_ExtKeyUsage (crt_Fields crt) = [ClientAuth]" "\<not> ct_IsCA (crt_Fields crt)"
    "CertSign \<notin> set (ct_KeyUsage (crt_Fields crt))"
    "ct_NotBefore (crt_Fields crt) = cut_to_second (w_clock w (w_tick w + 1) - time_Minute)"
    "ct_NotAfter (crt_Fields crt) = cut_to_second (w_clock w (w_tick w + 2) + ttl)"
proof -
  obtain r serial der where r: "read_csr c csrPEM = Inr r"
    and der: "c_CreateCertificate c (client_template serial hostID (w_clock w (Suc (w_tick w)) - time_Minute)
        (w_clock w (Suc (Suc (w_tick w))) + ttl)) (crt_Fields (ca_rootCert a)) (csr_PublicKey r)
        (ca_rootKey a) = Inr der"
    and pem: "pem = c_pem_Encode c ''CERTIFICATE'' der"
    using assms(2) by (rule IssueClient_Inr)
  let ?tm = "client_template serial hostID (w_clock w (Suc (w_tick w)) - time_Minute)
      (w_clock w (Suc (Suc (w_tick w))) + ttl)"
  define crt where "crt = \<lparr>crt_Fields = ?tm\<lparr>ct_NotBefore := cut_to_second (ct_NotBefore ?tm),
      ct_NotAfter := cut_to_second (ct_NotAfter ?tm)\<rparr>, crt_PublicKey = csr_PublicKey r, crt_Raw = der\<rparr>"
  have "c_ParseCertificate c (crt_Raw crt) = Inr crt"
    using assms(1) der unfolding crypto_ok_def crt_def by simp
  moreover have "c_pem_Decode c pem = Some (''CERTIFICATE'', crt_Raw crt)"
    using assms(1) pem by (simp add: crypto_ok_def crt_def)
  ultimately show ?thesis
    using r that [of r crt] by (simp add: crt_def client_template_def)
qed

text \<open>C16: A certificate is issued only for a well-formed request whose signature verifies and whose
  key is Ed25519 or ECDSA P-256, without a critical BasicConstraints; it binds that very key to
  the given host ID (whatever subject the request names), is a client certificate of the agent
  unit, is no CA, and is valid from a minute before its issue to at most \<open>ttl\<close> after it.\<close>

theorem IssueClient_sound:
  assumes "crypto_ok c" "IssueClient c a csrPEM hostID ttl w = (Inr pem, w')"
  shows "\<exists>r crt. read_csr c csrPEM = Inr r \<and> c_CheckSignature c r = None
     \<and> ((\<exists>b. csr_PublicKey r = Ed25519Pub b) \<or> (\<exists>b. csr_PublicKey r = EcdsaPub ''P-256'' b))
     \<and> (''2.5.29.19'', True) \<notin> set (csr_Extensions r)
     \<and> c_pem_Decode c pem = Some (''CERTIFICATE'', crt_Raw crt) \<and> c_ParseCertificate c (crt_Raw crt) = Inr crt
     \<and> crt_PublicKey crt = csr_PublicKey r \<and> ct_CommonName (crt_Fields crt) = hostID
     \<and> ct_OrganizationalUnit (crt_Fields crt) = [''praetor-agent'']
     \<and> ct_ExtKeyUsage (crt_Fields crt) = [ClientAuth] \<and> \<not> ct_IsCA (crt_Fields crt)
     \<and> CertSign \<notin> set (ct_KeyUsage (crt_Fields crt))
     \<and> ct_NotBefore (crt_Fields crt) = cut_to_second (w_clock w (w_tick w + 1) - time_Minute)
     \<and> ct_NotAfter (crt_Fields crt) \<le> w_clock w (w_tick w + 2) + ttl"
proof -
  obtain r and crt :: certificate where r: "read_csr c csrPEM = Inr r"
    and crt: "c_pem_Decode c pem = Some (''CERTIFICATE'', crt_Raw crt)" "c_ParseCertificate c (crt_Raw crt) = Inr crt"
    "crt_PublicKey crt = csr_PublicKey r" "ct_CommonName (crt_Fields crt) = hostID"
    "ct_OrganizationalUnit (crt_Fields crt) = [''praetor-agent'']"
    "ct_ExtKeyUsage (crt_Fields crt) = [ClientAuth]" "\<not> ct_IsCA (crt_Fields crt)"
    "CertSign \<notin> set (ct_KeyUsage (crt_Fields crt))"
    "ct_NotBefore (crt_Fields crt) = cut_to_second (w_clock w (w_tick w + 1) - time_Minute)"
    and na: "ct_NotAfter (crt_Fields crt) = cut_to_second (w_clock w (w_tick w + 2) + ttl)"
    using assms by (rule IssueClient_parsed)
  have "(\<exists>b. csr_PublicKey r = Ed25519Pub b) \<or> (\<exists>b. csr_PublicKey r = EcdsaPub ''P-256'' b)"
    "c_CheckSignature c r = None" "(''2.5.29.19'', True) \<notin> set (csr_Extensions r)"
    using r by (simp_all add: read_csr_Inr key_error_None)
  moreover have "ct_NotAfter (crt_Fields crt) \<le> w_clock w (w_tick w + 2) + ttl"
    unfolding na by (rule cut_to_second_le)
  ultimately show ?thesis using r crt by (intro exI [where x = r] exI [where x = crt]) simp
qed

lemma IssueClient_run:
  assumes "read_csr c p = Inr r" "\<not> w_rand_fails w (w_tick w)"
    "c_CreateCertificate c (client_template (big_SetBytes (map (w_rand w (w_tick w)) [0..<16])) h
       (w_clock w (w_tick w + 1) - time_Minute) (w_clock w (w_tick w + 2) + ttl))
       (crt_Fields (ca_rootCert a)) (csr_PublicKey r) (ca_rootKey a) = Inr der"
  shows "IssueClient c a p h ttl w = (Inr (c_pem_Encode c ''CERTIFICATE'' der), tick (tick (tick w)))"
  using assms by (simp add: IssueClient_def randomSerial_def rand_read_def go_now_def Let_def del: upt_rec_numeral)

lemma IssueClient_goes_on: "goes_on w (snd (IssueClient c a p h ttl w))"
proof (cases "read_csr c p")
  case (Inr r)
  obtain q w1 where "randomSerial w = (q, w1)" "w1 = tick w" using randomSerial_env by (cases "randomSerial w") blast
  with Inr show ?thesis
    by (auto simp: IssueClient_def go_now_def Let_def goes_on_def tick_simps split: sum.splits)
qed (simp add: IssueClient_def)

text \<open>Exactly which requests are refused: no certificate is issued when the PEM block, its type,
  the parse, the signature, the key type or the extensions are wrong, and otherwise one is issued
  unless the random source or the signing fails.\<close>

theorem IssueClient_accepts:
  "(\<exists>pem w'. IssueClient c a csrPEM hostID ttl w = (Inr pem, w')) \<longleftrightarrow>
     (\<exists>der r. c_pem_Decode c csrPEM = Some (''CERTIFICATE REQUEST'', der)
        \<and> c_ParseCertificateRequest c der = Inr r \<and> c_CheckSignature c r = None
        \<and> ((\<exists>b. csr_PublicKey r = Ed25519Pub b) \<or> (\<exists>b. csr_PublicKey r = EcdsaPub ''P-256'' b))
        \<and> (''2.5.29.19'', True) \<notin> set (csr_Extensions r)
        \<and> \<not> w_rand_fails w (w_tick w)
        \<and> (\<exists>crt. c_CreateCertificate c
              (client_template (big_SetBytes (map (w_rand w (w_tick w)) [0..<16])) hostID
                 (w_clock w (w_tick w + 1) - time_Minute) (w_clock w (w_tick w + 2) + ttl))
              (crt_Fields (ca_rootCert a)) (csr_PublicKey r) (ca_rootKey a) = Inr crt))"
proof -
  have *: "(\<exists>pem w'. IssueClient c a csrPEM hostID ttl w = (Inr pem, w')) \<longleftrightarrow>
     (\<exists>r. read_csr c csrPEM = Inr r \<and> \<not> w_rand_fails w (w_tick w)
        \<and> (\<exists>crt. c_CreateCertificate c
              (client_template (big_SetBytes (map (w_rand w (w_tick w)) [0..<16])) hostID
                 (w_clock w (w_tick w + 1) - time_Minute) (w_clock w (w_tick w + 2) + ttl))
              (crt_Fields (ca_rootCert a)) (csr_PublicKey r) (ca_rootKey a) = Inr crt))"
    by (auto simp: IssueClient_def randomSerial_def rand_read_def go_now_def Let_def
        simp del: upt_rec_numeral split: sum.splits)
  show ?thesis unfolding * read_csr_Inr key_error_None by blast
qed

subsection \<open>Start after start\<close>

lemma boot_bind_Inr:
  "boot_bind m k s = (Inr b, s2) \<longleftrightarrow> (\<exists>a s1. m s = (Inr a, s1) \<and> k a s1 = (Inr b, s2))"
  by (auto simp: boot_bind_def split: sum.splits prod.splits)

lemma boot_bind_fst_Inr:
  "m s = (Inr a, s1) \<Longrightarrow> boot_bind m k s = k a s1"
  by (simp add: boot_bind_def)

lemma boot_bind_Inl: "m s = (Inl e, s1) \<Longrightarrow> boot_bind m k s = (Inl e, s1)"
  by (simp add: boot_bind_def)

lemma boot_wrap_Inr [simp]: "boot_wrap p m s = (Inr a, s1) \<longleftrightarrow> m s = (Inr a, s1)"
  by (auto simp: boot_wrap_def split: sum.splits prod.splits)

lemma boot_simps [simp]:
  "boot_return a s = (Inr b, s1) \<longleftrightarrow> b = a \<and> s1 = s"
  "boot_fail e s = (Inr b, s1) \<longleftrightarrow> False"
  by (auto simp: boot_return_def boot_fail_def)

lemma boot_sum_Inr [simp]: "boot_sum r s = (Inr a, s1) \<longleftrightarrow> r = Inr a \<and> s1 = s"
  by (auto simp: boot_sum_def boot_fail_def split: sum.splits)

lemma on_world_Inr [simp]:
  "on_world m s = (Inr a, s1) \<longleftrightarrow> (\<exists>w. m (fst s) = (Inr a, w) \<and> s1 = (w, snd s))"
  by (auto simp: on_world_def split: prod.splits)

lemma on_files_Inr [simp]:
  "on_files m s = (Inr a, s1) \<longleftrightarrow> (\<exists>f. m (snd s) = (Inr a, f) \<and> s1 = (fst s, f))"
  by (auto simp: on_files_def split: prod.splits)

text \<open>Reading the material is all that matters to it: the parse works on the contents alone.\<close>

lemma parse_material_state:
  "fst (parse_material c k r sc sk s) = fst (parse_material c k r sc sk s')"
  "snd (parse_material c k r sc sk s) = s"
  by (auto simp: parse_material_def boot_bind_def boot_wrap_def boot_sum_def boot_fail_def boot_return_def
      key_pair_def split: option.splits sum.splits prod.splits private_key.splits)

definition readable :: "files \<Rightarrow> string \<Rightarrow> string \<Rightarrow> bool" where
  "readable f p d \<longleftrightarrow> (\<exists>m. f_files f p = Some (d, m) \<and> (f_superuser f \<or> bit m 8))"

definition same_disk :: "files \<Rightarrow> files \<Rightarrow> bool" where
  "same_disk f f' \<longleftrightarrow> f_files f' = f_files f \<and> f_superuser f' = f_superuser f"

lemma f_next_simps [simp]:
  "f_files (f_next f) = f_files f" "f_superuser (f_next f) = f_superuser f" "f_io (f_next f) = f_io f"
  "f_umask (f_next f) = f_umask f"
  by (simp_all add: f_next_def)

lemma same_disk_refl [simp]: "same_disk f f"
  by (simp add: same_disk_def)

lemma same_disk_trans: "same_disk a b \<Longrightarrow> same_disk b d \<Longrightarrow> same_disk a d"
  by (simp add: same_disk_def)

lemma same_disk_readable: "same_disk f f' \<Longrightarrow> readable f' p d = readable f p d"
  by (simp add: same_disk_def readable_def)

lemma os_ReadFile_disk: "os_ReadFile p f = (r, f') \<Longrightarrow> same_disk f f' \<and> f_io f' = f_io f"
  by (auto simp: os_ReadFile_def same_disk_def split: io.splits option.splits)

lemma os_ReadFile_Inr: "os_ReadFile p f = (Inr d, f') \<Longrightarrow> readable f p d"
  by (auto simp: os_ReadFile_def readable_def split: io.splits option.splits if_splits)

lemma os_ReadFile_calm:
  assumes "f_io f = (\<lambda>_. IoOk)" "readable f p d"
  shows "os_ReadFile p f = (Inr d, f_next f)"
  using assms by (auto simp: os_ReadFile_def readable_def)

lemma os_Stat_disk: "os_Stat p f = (r, f') \<Longrightarrow> same_disk f f' \<and> f_io f' = f_io f"
  by (auto simp: os_Stat_def same_disk_def split: io.splits)

lemma os_MkdirAll_disk: "os_MkdirAll p f = (r, f') \<Longrightarrow> same_disk f f' \<and> f_io f' = f_io f"
  by (auto simp: os_MkdirAll_def same_disk_def split: io.splits)

lemma writeFile_Inr:
  assumes "writeFile p d m f = (Inr (), f')"
  shows "f_files f' = (f_files f)(p := Some (d, m))" "f_superuser f' = f_superuser f"
  using assms
  by (auto simp: writeFile_def os_WriteFile_def os_Stat_def Let_def
      split: io.splits option.splits if_splits prod.splits stat_result.splits)

lemma load_Inr:
  assumes "load c dir (w, f) = (Inr a, w', f')"
  shows "same_disk f f' \<and> (\<exists>k r sc sk. readable f (path_join dir rootKeyFile) k
     \<and> readable f (path_join dir rootCertFile) r \<and> readable f (path_join dir srvCertFile) sc
     \<and> readable f (path_join dir srvKeyFile) sk \<and> fst (parse_material c k r sc sk (w, f)) = Inr a)"
proof -
  from assms obtain k f1 r f2 sc f3 sk f4 where
    r1: "os_ReadFile (path_join dir rootKeyFile) f = (Inr k, f1)" and
    r2: "os_ReadFile (path_join dir rootCertFile) f1 = (Inr r, f2)" and
    r3: "os_ReadFile (path_join dir srvCertFile) f2 = (Inr sc, f3)" and
    r4: "os_ReadFile (path_join dir srvKeyFile) f3 = (Inr sk, f4)" and
    p: "parse_material c k r sc sk (w, f4) = (Inr a, w', f')"
    by (auto simp: load_def read_file_def boot_bind_Inr)
  have d: "same_disk f f1" "same_disk f f2" "same_disk f f3" "same_disk f f4"
    using r1 r2 r3 r4 by (metis os_ReadFile_disk same_disk_trans)+
  have "f' = f4" using p parse_material_state(2) [of c k r sc sk "(w, f4)"] by simp
  moreover have "fst (parse_material c k r sc sk (w, f)) = Inr a"
    using p parse_material_state(1) [of c k r sc sk "(w, f)" "(w, f4)"] by simp
  ultimately show ?thesis
    using d os_ReadFile_Inr [OF r1] os_ReadFile_Inr [OF r2] os_ReadFile_Inr [OF r3] os_ReadFile_Inr [OF r4]
      same_disk_readable by blast
qed

lemma load_readable:
  assumes "f_io f = (\<lambda>_. IoOk)" "readable f (path_join dir rootKeyFile) k"
    "readable f (path_join dir rootCertFile) r" "readable f (path_join dir srvCertFile) sc"
    "readable f (path_join dir srvKeyFile) sk"
  shows "fst (load c dir (w, f)) = fst (parse_material c k r sc sk (w, f))"
proof -
  have rd: "boot_bind (read_file what p) K (w, g) = K d (w, f_next g)"
    if "f_io g = f_io f" "same_disk f g" "readable f p d" for what p d g and K :: "string \<Rightarrow> ca boot"
    using that assms(1)
    by (intro boot_bind_fst_Inr) (simp add: read_file_def same_disk_readable os_ReadFile_calm)
  have sd: "same_disk f (f_next f)" "same_disk f (f_next (f_next f))" "same_disk f (f_next (f_next (f_next f)))"
    by (simp_all add: same_disk_def)
  have "load c dir (w, f) = parse_material c k r sc sk (w, f_next (f_next (f_next (f_next f))))"
    unfolding load_def rd [OF refl same_disk_refl assms(2)]
    using rd [OF _ sd(1) assms(3)] rd [OF _ sd(2) assms(4)] rd [OF _ sd(3) assms(5)] by simp
  then show ?thesis by (metis parse_material_state(1))
qed

lemma path_join_eq: "path_join d a = path_join d b \<longleftrightarrow> a = b"
  by (simp add: path_join_def)

lemma file_names_distinct: "distinct [rootKeyFile, rootCertFile, srvKeyFile, srvCertFile]"
  "distinct [srvCertFile, srvKeyFile, rootCertFile, rootKeyFile]"
  by (simp_all add: rootKeyFile_def rootCertFile_def srvKeyFile_def srvCertFile_def)

lemma write_material_Inr:
  assumes "write_material dir rk rc sk sc (w, f) = (Inr (), w', f')"
  shows "f_files f' = (f_files f)(path_join dir rootKeyFile \<mapsto> (rk, mode_0400),
      path_join dir rootCertFile \<mapsto> (rc, mode_0444), path_join dir srvKeyFile \<mapsto> (sk, mode_0400),
      path_join dir srvCertFile \<mapsto> (sc, mode_0444))"
proof -
  from assms obtain f1 f2 f3 where
    "writeFile (path_join dir rootKeyFile) rk mode_0400 f = (Inr (), f1)"
    "writeFile (path_join dir rootCertFile) rc mode_0444 f1 = (Inr (), f2)"
    "writeFile (path_join dir srvKeyFile) sk mode_0400 f2 = (Inr (), f3)"
    "writeFile (path_join dir srvCertFile) sc mode_0444 f3 = (Inr (), f')"
    by (auto simp: write_material_def boot_bind_Inr)
  then show ?thesis by (simp add: writeFile_Inr(1))
qed

lemma generate_Inr:
  assumes "crypto_ok c" "generate c dir names (w, f) = (Inr a, w', f')"
  shows "\<exists>k r sc sk. readable f' (path_join dir rootKeyFile) k
     \<and> readable f' (path_join dir rootCertFile) r \<and> readable f' (path_join dir srvCertFile) sc
     \<and> readable f' (path_join dir srvKeyFile) sk \<and> fst (parse_material c k r sc sk (w', f')) = Inr a"
proof -
  from assms(2) obtain priv rder rcert w1 f1 spriv sder w2 f2 w3 f3 where
    root: "make_root c (w, f) = (Inr (priv, rder, rcert), w1, f1)" and
    wr: "write_material dir (marshalEd25519PrivKey c priv) (c_pem_Encode c ''CERTIFICATE'' rder)
        (marshalEd25519PrivKey c spriv) (c_pem_Encode c ''CERTIFICATE'' sder) (w2, f2) = (Inr (), w3, f3)" and
    kp: "c_X509KeyPair_error c (c_pem_Encode c ''CERTIFICATE'' sder) (marshalEd25519PrivKey c spriv) = None" and
    a: "a = \<lparr>ca_rootKey = priv, ca_rootCert = rcert, ca_rootPEM = c_pem_Encode c ''CERTIFICATE'' rder,
        ca_serverTLS = (c_pem_Encode c ''CERTIFICATE'' sder, marshalEd25519PrivKey c spriv)\<rparr>" and
    e: "w' = w3" "f' = f3"
    by (auto simp: generate_def boot_bind_Inr key_pair_def Let_def split: option.splits)
  have parse: "c_ParseCertificate c rder = Inr rcert"
    using root by (auto simp: make_root_def boot_bind_Inr Let_def)
  from wr e have files: "f_files f' = (f_files f2)(path_join dir rootKeyFile \<mapsto> (marshalEd25519PrivKey c priv, mode_0400),
      path_join dir rootCertFile \<mapsto> (c_pem_Encode c ''CERTIFICATE'' rder, mode_0444),
      path_join dir srvKeyFile \<mapsto> (marshalEd25519PrivKey c spriv, mode_0400),
      path_join dir srvCertFile \<mapsto> (c_pem_Encode c ''CERTIFICATE'' sder, mode_0444))"
    using write_material_Inr [OF wr] by simp
  have "bit mode_0400 8" "bit mode_0444 8"
    by (simp_all add: mode_0400_def mode_0444_def)
  then have "readable f' (path_join dir rootKeyFile) (marshalEd25519PrivKey c priv)"
    "readable f' (path_join dir rootCertFile) (c_pem_Encode c ''CERTIFICATE'' rder)"
    "readable f' (path_join dir srvCertFile) (c_pem_Encode c ''CERTIFICATE'' sder)"
    "readable f' (path_join dir srvKeyFile) (marshalEd25519PrivKey c spriv)"
    using file_names_distinct by (auto simp: readable_def files path_join_eq)
  moreover have "fst (parse_material c (marshalEd25519PrivKey c priv) (c_pem_Encode c ''CERTIFICATE'' rder)
      (c_pem_Encode c ''CERTIFICATE'' sder) (marshalEd25519PrivKey c spriv) (w', f')) = Inr a"
    using assms(1) parse kp a
    by (simp add: parse_material_def marshalEd25519PrivKey_def crypto_ok_def boot_bind_def boot_wrap_def
        boot_sum_def boot_return_def key_pair_def)
  ultimately show ?thesis by blast
qed

text \<open>C21: The authority survives a restart: after a start that succeeded, whether it generated or
  loaded its material, the next start on the same data directory, at any time and with any server
  names, succeeds when its reads do and gives the same root key, root certificate, bundle and
  server certificate.\<close>

theorem New_CA_restart:
  assumes "crypto_ok c" "New_CA c dir names (w, f) = (Inr a, w', f')"
  shows "fst (New_CA c dir names2 (w2, f'\<lparr>f_io := \<lambda>_. IoOk\<rparr>)) = Inr a"
proof -
  let ?d = "path_join dir ''ca''" and ?f = "f'\<lparr>f_io := \<lambda>_. IoOk\<rparr>"
  obtain e f1 st f2 where mk: "os_MkdirAll ?d f = (e, f1)"
    and stt: "os_Stat (path_join ?d rootKeyFile) f1 = (st, f2)"
    by (metis surj_pair)
  with assms(2) have run: "(if st = NotExist then generate c ?d names else load c ?d) (w, f2) = (Inr a, w', f')"
    by (cases e) (auto simp: New_CA_def boot_bind_def on_files_def Let_def)
  have "\<exists>k r sc sk w3 f3. readable f' (path_join ?d rootKeyFile) k
     \<and> readable f' (path_join ?d rootCertFile) r \<and> readable f' (path_join ?d srvCertFile) sc
     \<and> readable f' (path_join ?d srvKeyFile) sk \<and> fst (parse_material c k r sc sk (w3, f3)) = Inr a"
  proof (cases "st = NotExist")
    case True
    with run have "generate c ?d names (w, f2) = (Inr a, w', f')" by simp
    from generate_Inr [OF assms(1) this] show ?thesis by blast
  next
    case False
    with run have l: "load c ?d (w, f2) = (Inr a, w', f')" by simp
    then have "same_disk f2 f'" using load_Inr by blast
    with load_Inr [OF l] show ?thesis using same_disk_readable by blast
  qed
  then obtain k r sc sk w3 f3 where m: "readable f' (path_join ?d rootKeyFile) k"
     "readable f' (path_join ?d rootCertFile) r" "readable f' (path_join ?d srvCertFile) sc"
     "readable f' (path_join ?d srvKeyFile) sk" "fst (parse_material c k r sc sk (w3, f3)) = Inr a" by blast
  let ?g = "f_next (f_next ?f)"
  have "readable ?g p x = readable f' p x" for p x by (simp add: readable_def)
  with m(1-4) have "fst (load c ?d (w2, ?g)) = fst (parse_material c k r sc sk (w2, ?g))"
    by (intro load_readable) simp_all
  then have "fst (load c ?d (w2, ?g)) = Inr a"
    using m(5) parse_material_state(1) [of c k r sc sk "(w2, ?g)" "(w3, f3)"] by simp
  moreover have "New_CA c dir names2 (w2, ?f) = load c ?d (w2, ?g)"
    using m(1) by (auto simp: New_CA_def Let_def boot_bind_def on_files_def os_MkdirAll_def os_Stat_def
        readable_def)
  ultimately show ?thesis by simp
qed

lemma New_CA_stuck:
  assumes "f_files f (path_join (path_join dir ''ca'') rootKeyFile) \<noteq> None"
    "f_files f (path_join (path_join dir ''ca'') srvCertFile) = None"
  shows "\<exists>e s. New_CA c dir names (w, f) = (Inl e, s)"
proof (rule ccontr)
  let ?d = "path_join dir ''ca''"
  assume "\<not> ?thesis"
  then obtain a w' f' where ok: "New_CA c dir names (w, f) = (Inr a, w', f')"
    by (cases "New_CA c dir names (w, f)") (metis sum.exhaust surj_pair)
  obtain e f1 st f2 where mk: "os_MkdirAll ?d f = (e, f1)"
    and stt: "os_Stat (path_join ?d rootKeyFile) f1 = (st, f2)"
    by (metis surj_pair)
  have disk: "same_disk f f1" "same_disk f f2"
    using os_MkdirAll_disk [OF mk] os_Stat_disk [OF stt] same_disk_trans by blast+
  have "st \<noteq> NotExist"
    using stt assms(1) disk(1) by (auto simp: os_Stat_def same_disk_def split: io.splits option.splits)
  with ok mk stt have "load c ?d (w, f2) = (Inr a, w', f')"
    by (cases e) (auto simp: New_CA_def boot_bind_def on_files_def Let_def)
  then obtain sc where "readable f2 (path_join ?d srvCertFile) sc" using load_Inr by blast
  then show False using assms(2) disk(2) by (auto simp: same_disk_def readable_def)
qed

lemma boot_bind_files:
  assumes "\<And>s. snd (snd (m s)) = snd s" "\<And>a s. snd (snd (k a s)) = snd s"
  shows "snd (snd (boot_bind m k s)) = snd s"
  using assms(1) [of s] assms(2) by (cases "m s") (auto simp: boot_bind_def split: sum.splits)

lemma world_steps_files [simp]:
  "snd (snd (on_world m s)) = snd s" "snd (snd (boot_return a s)) = snd s" "snd (snd (boot_sum r s)) = snd s"
  "snd (snd (boot_fail x s)) = snd s" "snd (snd (boot_now s)) = snd s"
  by (auto simp: on_world_def boot_return_def boot_sum_def boot_fail_def boot_now_def
      split: prod.splits sum.splits)

lemma boot_wrap_files: "snd (snd (m s)) = snd s \<Longrightarrow> snd (snd (boot_wrap p m s)) = snd s"
  by (cases "m s") (auto simp: boot_wrap_def split: sum.splits)

lemma make_files:
  "snd (snd (make_root c s)) = snd s" "snd (snd (make_server c names priv rcert s)) = snd s"
  unfolding make_root_def make_server_def ed25519_GenerateKey_def Let_def split_def
  by (intro boot_bind_files boot_wrap_files world_steps_files)+

lemma write_material_umask:
  assumes "f_io f = (\<lambda>_. IoOk)" "mode_0400 AND NOT (f_umask f) = mode_0400"
    "mode_0444 AND NOT (f_umask f) \<noteq> mode_0444"
    "f_files f (path_join dir rootKeyFile) = None" "f_files f (path_join dir rootCertFile) = None"
  shows "\<exists>e f'. write_material dir rk rc sk sc (w, f) = (Inl e, w, f')
     \<and> f_files f' = (f_files f)(path_join dir rootKeyFile \<mapsto> (rk, mode_0400),
          path_join dir rootCertFile \<mapsto> (rc, mode_0444 AND NOT (f_umask f)))"
proof -
  have ne: "path_join dir rootKeyFile \<noteq> path_join dir rootCertFile"
    using file_names_distinct by (simp add: path_join_eq)
  let ?f1 = "(f_next (f_next f))\<lparr>f_files := (f_files f)(path_join dir rootKeyFile \<mapsto> (rk, mode_0400))\<rparr>"
  have "writeFile (path_join dir rootKeyFile) rk mode_0400 f = (Inr (), ?f1)"
    using assms by (simp add: writeFile_def os_WriteFile_def os_Stat_def Let_def f_next_def)
  moreover have "\<exists>e f2. writeFile (path_join dir rootCertFile) rc mode_0444 ?f1 = (Inl e, f2) \<and>
      f_files f2 = (f_files ?f1)(path_join dir rootCertFile \<mapsto> (rc, mode_0444 AND NOT (f_umask f)))"
    using assms ne by (simp add: writeFile_def os_WriteFile_def os_Stat_def Let_def)
  ultimately show ?thesis by (auto simp: write_material_def boot_bind_def on_files_def)
qed

text \<open>A umask that clears a read bit of \<open>0444\<close> (such as 027 or 077) makes the first start fail on
  an empty directory, although every system call succeeds, and once the root key has been written
  no later start ever succeeds, whatever the system calls do: the half-written material is neither
  completed nor replaced.\<close>

theorem New_CA_umask:
  assumes "f_io f = (\<lambda>_. IoOk)" "mode_0400 AND NOT (f_umask f) = mode_0400"
    "mode_0444 AND NOT (f_umask f) \<noteq> mode_0444" "f_files f = (\<lambda>_. None)"
  shows "\<exists>e w' f'. New_CA c dir names (w, f) = (Inl e, w', f')
     \<and> (f_files f' = (\<lambda>_. None) \<or>
        (\<forall>names2 w2 io. \<exists>e2 s. New_CA c dir names2 (w2, f'\<lparr>f_io := io\<rparr>) = (Inl e2, s)))"
proof -
  let ?d = "path_join dir ''ca''" and ?f = "f_next (f_next f)"
  have start: "New_CA c dir names (w, f) = generate c ?d names (w, ?f)"
    using assms by (simp add: New_CA_def Let_def boot_bind_def on_files_def os_MkdirAll_def os_Stat_def)
  obtain r w1 g1 where root: "make_root c (w, ?f) = (r, w1, g1)" by (metis surj_pair)
  then have g1: "g1 = ?f" using make_files(1) [of c "(w, ?f)"] by simp
  show ?thesis
  proof (cases r)
    case (Inl e)
    with root g1 assms(4) show ?thesis unfolding start generate_def by (simp add: boot_bind_Inl)
  next
    case (Inr p)
    obtain priv rder rcert where p: "p = (priv, rder, rcert)" by (metis surj_pair)
    obtain r2 w2 g2 where srv: "make_server c names priv rcert (w1, ?f) = (r2, w2, g2)" by (metis surj_pair)
    then have g2: "g2 = ?f" using make_files(2) [of c names priv rcert "(w1, ?f)"] by simp
    show ?thesis
    proof (cases r2)
      case (Inl e)
      with root g1 Inr p srv g2 assms(4) show ?thesis
        unfolding start generate_def by (simp add: boot_bind_def)
    next
      case (Inr q)
      obtain spriv sder where q: "q = (spriv, sder)" by (metis surj_pair)
      from assms obtain e f' where
        wr: "write_material ?d (marshalEd25519PrivKey c priv) (c_pem_Encode c ''CERTIFICATE'' rder)
          (marshalEd25519PrivKey c spriv) (c_pem_Encode c ''CERTIFICATE'' sder) (w2, ?f) = (Inl e, w2, f')"
        and disk: "f_files f' = (f_files ?f)(path_join ?d rootKeyFile \<mapsto> (marshalEd25519PrivKey c priv, mode_0400),
          path_join ?d rootCertFile \<mapsto> (c_pem_Encode c ''CERTIFICATE'' rder, mode_0444 AND NOT (f_umask ?f)))"
        using write_material_umask [of ?f ?d "marshalEd25519PrivKey c priv" "c_pem_Encode c ''CERTIFICATE'' rder"
          "marshalEd25519PrivKey c spriv" "c_pem_Encode c ''CERTIFICATE'' sder" w2] by auto
      have "generate c ?d names (w, ?f) = (Inl e, w2, f')"
        using root \<open>r = Inr p\<close> p srv Inr q wr g1 g2
        by (simp add: generate_def boot_bind_def Let_def)
      moreover have left: "f_files f' (path_join ?d rootKeyFile) \<noteq> None" "f_files f' (path_join ?d srvCertFile) = None"
        using disk file_names_distinct assms(4) by (auto simp: path_join_eq)
      from left have "\<exists>e2 s. New_CA c dir names2 (w3, f'\<lparr>f_io := io\<rparr>) = (Inl e2, s)"
        for names2 w3 io by (intro New_CA_stuck) simp_all
      ultimately show ?thesis unfolding start by blast
    qed
  qed
qed

subsection \<open>A concrete crypto that obeys the laws, for concrete runs\<close>

text \<open>
  \<open>demo_crypto L\<close> signs exactly the pairs of a template and a key in \<open>L\<close>; the
  certificate is the position of its pair. Its PEM text escapes the type, so that it decodes.
\<close>

fun position :: "'a \<Rightarrow> 'a list \<Rightarrow> nat" where
  "position x [] = 0"
| "position x (y # ys) = (if x = y then 0 else Suc (position x ys))"

lemma position_nth: "x \<in> set xs \<Longrightarrow> position x xs < length xs \<and> xs ! position x xs = x"
  by (induction xs) auto

definition demo_encode :: "string \<Rightarrow> bytes \<Rightarrow> string" where
  "demo_encode ty b = concat (map (\<lambda>ch. [CHR ''t'', ch]) ty) @ CHR ''|'' # map (\<lambda>x. char_of (unat x)) b"

fun demo_decode :: "string \<Rightarrow> (string \<times> bytes) option" where
  "demo_decode [] = None"
| "demo_decode [ch] = (if ch = CHR ''|'' then Some ([], []) else None)"
| "demo_decode (ch # ch2 # r) =
     (if ch = CHR ''|'' then Some ([], map (\<lambda>x. of_nat (of_char x)) (ch2 # r))
      else map_option (\<lambda>(ty, b). (ch2 # ty, b)) (demo_decode r))"

lemma demo_decode_bar: "demo_decode (CHR ''|'' # r) = Some ([], map (\<lambda>x. of_nat (of_char x)) r)"
  by (cases r) simp_all

lemma demo_decode_encode: "demo_decode (demo_encode ty b) = Some (ty, b)"
proof (induction ty)
  case Nil
  have "of_nat (of_char (char_of (unat x) :: char)) = x" for x :: "8 word"
    using unat_u8_less [of x] by (simp add: take_bit_nat_eq_self)
  then show ?case by (simp add: demo_encode_def demo_decode_bar o_def)
qed (simp add: demo_encode_def)

definition demo_key :: public_key where "demo_key = Ed25519Pub []"

definition demo_crypto :: "(cert_template \<times> public_key) list \<Rightarrow> crypto" where
  "demo_crypto L =
     \<lparr>c_pem_Decode = demo_decode, c_pem_Encode = demo_encode,
      c_ParseCertificateRequest = (\<lambda>_. Inr \<lparr>csr_CommonName = ''someone-else'', csr_PublicKey = demo_key,
         csr_Extensions = []\<rparr>),
      c_CheckSignature = (\<lambda>_. None),
      c_CreateCertificate = (\<lambda>tm parent pub priv.
         if (tm, pub) \<in> set L then Inr (replicate (position (tm, pub) L) 0) else Inl ''not signed''),
      c_ParseCertificate = (\<lambda>der. if length der < length L
         then (case L ! length der of (tm, pub) \<Rightarrow>
           Inr \<lparr>crt_Fields = tm\<lparr>ct_NotBefore := cut_to_second (ct_NotBefore tm),
                  ct_NotAfter := cut_to_second (ct_NotAfter tm)\<rparr>, crt_PublicKey = pub, crt_Raw = der\<rparr>)
         else Inl ''no certificate''),
      c_NewKeyFromSeed = (\<lambda>seed. ([], seed)), c_MarshalPKCS8PrivateKey = (\<lambda>k. k),
      c_ParsePKCS8PrivateKey = (\<lambda>k. Inr (Ed25519Priv k)), c_X509KeyPair_error = (\<lambda>_ _. None),
      c_ParseIP = (\<lambda>s. if s = ''127.0.0.1'' then Some [127, 0, 0, 1] else None),
      c_Sum256 = map (\<lambda>ch. of_nat (of_char ch))\<rparr>"

lemma demo_crypto_ok: "crypto_ok (demo_crypto L)"
  using position_nth [where xs = L]
  by (auto simp: crypto_ok_def demo_crypto_def demo_decode_encode split: if_splits prod.splits)

definition demo_ca :: ca where
  "demo_ca = \<lparr>ca_rootKey = [], ca_rootCert = \<lparr>crt_Fields = root_template 0 0 0, crt_PublicKey = demo_key,
     crt_Raw = []\<rparr>, ca_rootPEM = demo_encode ''CERTIFICATE'' [], ca_serverTLS = ([], [])\<rparr>"

lemma big_SetBytes_zero: "big_SetBytes (replicate n 0) = 0"
  by (induction n) (simp_all add: big_SetBytes_def)

definition calm_files :: "mode \<Rightarrow> files" where
  "calm_files umask = \<lparr>f_files = (\<lambda>_. None), f_umask = umask, f_superuser = False, f_io = (\<lambda>_. IoOk), f_calls = 0\<rparr>"

theorem IssueClient_sound_witness:
  "\<exists>pem w' (crt :: certificate). IssueClient (demo_crypto [(client_template 0 ''H1'' (1000 - time_Minute) (2000 + time_Hour), demo_key)])
        demo_ca (demo_encode ''CERTIFICATE REQUEST'' []) ''H1'' time_Hour (calm_world empty_db) = (Inr pem, w')
     \<and> ct_CommonName (crt_Fields crt) = ''H1'' \<and> crt_PublicKey crt = demo_key"
proof -
  let ?c = "demo_crypto [(client_template 0 ''H1'' (1000 - time_Minute) (2000 + time_Hour), demo_key)]"
  let ?p = "demo_encode ''CERTIFICATE REQUEST'' []"
  let ?r = "IssueClient ?c demo_ca ?p ''H1'' time_Hour (calm_world empty_db)"
  have rd: "read_csr ?c ?p = Inr \<lparr>csr_CommonName = ''someone-else'', csr_PublicKey = demo_key, csr_Extensions = []\<rparr>"
    by (simp add: read_csr_def demo_crypto_def demo_decode_encode key_error_def demo_key_def)
  have a: "?r = (Inr (demo_encode ''CERTIFICATE'' []), snd ?r)"
    by (simp add: IssueClient_def rd randomSerial_def rand_read_def calm_world_def go_now_def tick_def
        big_SetBytes_zero map_replicate_const del: upt_rec_numeral)
       (simp add: demo_crypto_def)
  from IssueClient_sound [OF demo_crypto_ok a] obtain r and crt :: certificate where
    "read_csr ?c ?p = Inr r" "ct_CommonName (crt_Fields crt) = ''H1''" "crt_PublicKey crt = csr_PublicKey r"
    by (elim exE conjE) rule
  with a rd show ?thesis by auto
qed

definition demo_boot_crypto :: crypto where
  "demo_boot_crypto = demo_crypto
     [(root_template 0 (2000 - time_Minute) (3000 + 10 * 365 * 24 * time_Hour), demo_key),
      (server_template 0 [] [[127, 0, 0, 1]] (6000 - time_Minute) (7000 + 365 * 24 * time_Hour), demo_key)]"

lemma calm_boot [calm_simps]:
  "randomSerial (calm_at n d) = (Inr 0, calm_at (Suc n) d)"
  "boot_now (calm_at n d, f) = (Inr (1000 * int n), calm_at (Suc n) d, f)"
  "on_world m (w, f) = (case m w of (r, w1) \<Rightarrow> (r, w1, f))"
  "ed25519_GenerateKey c (calm_at n d, f) = (Inr (c_NewKeyFromSeed c (replicate 32 0)), calm_at (Suc n) d, f)"
  by (simp_all add: randomSerial_def big_SetBytes_zero boot_now_def on_world_def ed25519_GenerateKey_def
      boot_bind_def boot_return_def calm_steps)

lemma demo_boot_fields:
  "c_NewKeyFromSeed demo_boot_crypto seed = ([], seed)" "c_ParseIP demo_boot_crypto ''127.0.0.1'' = Some [127, 0, 0, 1]"
  "c_X509KeyPair_error demo_boot_crypto = (\<lambda>_ _. None)"
  "c_CreateCertificate demo_boot_crypto
     (root_template 0 (2000 - time_Minute) (3000 + 10 * 365 * 24 * time_Hour)) p (Ed25519Pub []) k = Inr []"
  "c_CreateCertificate demo_boot_crypto
     (server_template 0 [] [[127, 0, 0, 1]] (6000 - time_Minute) (7000 + 365 * 24 * time_Hour)) p (Ed25519Pub []) k = Inr [0]"
  by (simp_all add: demo_boot_crypto_def demo_crypto_def demo_key_def root_template_def server_template_def)

lemma demo_boot_parse: "\<exists>crt. c_ParseCertificate demo_boot_crypto [] = Inr crt"
  by (simp add: demo_boot_crypto_def demo_crypto_def)

lemmas demo_boot_run = boot_bind_def boot_wrap_def boot_return_def boot_sum_def Let_def calm_simps
  demo_boot_fields [simplified]

lemma demo_make_root:
  "\<exists>crt. make_root demo_boot_crypto (calm_world empty_db, f)
     = (Inr (replicate 32 0, [], crt), calm_at (Suc (Suc (Suc (Suc 0)))) empty_db, f)"
  using demo_boot_parse by (auto simp: make_root_def demo_boot_run)

lemma demo_make_server:
  "make_server demo_boot_crypto [] k crt (calm_at (Suc (Suc (Suc (Suc 0)))) empty_db, f)
     = (Inr (replicate 32 0, [0]), calm_at 8 empty_db, f)"
  by (simp add: make_server_def parse_ip_or_nil_def demo_boot_run numeral_eq_Suc)

theorem New_CA_restart_witness:
  "\<exists>a w' f'. New_CA demo_boot_crypto ''/data'' [] (calm_world empty_db, calm_files 0x12) = (Inr a, w', f')
     \<and> fst (New_CA demo_boot_crypto ''/data'' [''x''] (w', f'\<lparr>f_io := \<lambda>_. IoOk\<rparr>)) = Inr a"
proof -
  let ?run = "New_CA demo_boot_crypto ''/data'' [] (calm_world empty_db, calm_files 0x12)"
  obtain crt where root: "make_root demo_boot_crypto (calm_world empty_db, f)
     = (Inr (replicate 32 0, [], crt), calm_at (Suc (Suc (Suc (Suc 0)))) empty_db, f)" for f
    using demo_make_root demo_boot_parse by (auto simp: make_root_def demo_boot_run)
  have "\<exists>a w' f'. ?run = (Inr a, w', f')"
    using file_names_distinct
    by (simp add: New_CA_def Let_def boot_bind_def on_files_def os_MkdirAll_def os_Stat_def calm_files_def
        generate_def root demo_make_server write_material_def writeFile_def os_WriteFile_def path_join_eq
        mode_0400_def mode_0444_def f_next_def key_pair_def demo_boot_fields boot_return_def)
  then obtain a w' f' where run: "?run = (Inr a, w', f')" by blast
  have "crypto_ok demo_boot_crypto" by (simp add: demo_boot_crypto_def demo_crypto_ok)
  from New_CA_restart [OF this run] run show ?thesis by blast
qed

theorem New_CA_umask_witness:
  "\<exists>e w' f'. New_CA demo_boot_crypto ''/data'' [] (calm_world empty_db, calm_files 0x17) = (Inl e, w', f')
     \<and> f_files f' \<noteq> (\<lambda>_. None)
     \<and> (\<exists>e2 s. New_CA demo_boot_crypto ''/data'' [] (w', f'\<lparr>f_io := \<lambda>_. IoOk\<rparr>) = (Inl e2, s))"
proof -
  let ?run = "New_CA demo_boot_crypto ''/data'' [] (calm_world empty_db, calm_files 0x17)"
  obtain crt where root: "make_root demo_boot_crypto (calm_world empty_db, f)
     = (Inr (replicate 32 0, [], crt), calm_at (Suc (Suc (Suc (Suc 0)))) empty_db, f)" for f
    using demo_make_root demo_boot_parse by (auto simp: make_root_def demo_boot_run)
  have "f_files (snd (snd ?run)) \<noteq> (\<lambda>_. None)"
    using file_names_distinct
    by (simp add: New_CA_def Let_def boot_bind_def on_files_def os_MkdirAll_def os_Stat_def calm_files_def
        generate_def root demo_make_server write_material_def writeFile_def os_WriteFile_def path_join_eq
        mode_0400_def mode_0444_def f_next_def)
  moreover have "\<exists>e w' f'. ?run = (Inl e, w', f') \<and> (f_files f' = (\<lambda>_. None) \<or>
        (\<forall>names2 w2 io. \<exists>e2 s. New_CA demo_boot_crypto ''/data'' names2 (w2, f'\<lparr>f_io := io\<rparr>) = (Inl e2, s)))"
    by (rule New_CA_umask) (simp_all add: calm_files_def mode_0400_def mode_0444_def)
  ultimately show ?thesis by fastforce
qed

end
