(* ===== verification/Enrollment.thy ===== *)
theory Enrollment
  imports CA Effects
begin

text \<open>
  \<open>internal/enrollment/service.go\<close>: the Enroll RPC. The steps are the source's numbered ones:
  detect a re-enrollment from the verified client certificate of the connection, check the shape of
  the request, authenticate (claim the token, or look up the host of the certificate), choose the
  host ID, issue the certificate, write the host, note the host on the token (a failure there is
  only logged), record the identity. There is no transaction: every statement stands by itself.
\<close>

datatype peer = NoPeer | OtherAuth | TLSInfo "certificate list list"

record host_info =
  hi_Hostname :: string
  hi_Os :: string
  hi_OsVersion :: string
  hi_Kernel :: string
  hi_Arch :: string
  hi_CpuCores :: int
  hi_MemoryBytes :: int
  hi_MachineId :: string
  hi_IpAddresses :: "string list option"
  hi_Labels :: "(string \<times> string) list option"

record enroll_request =
  eq_EnrollmentToken :: string
  eq_CsrPem :: string
  eq_HostInfo :: "host_info option"
  eq_AgentVersion :: string

record enroll_response =
  ep_CertPem :: string
  ep_CaBundlePem :: string
  ep_AgentId :: string
  ep_CertRenewalIntervalSeconds :: int

definition clientCertTTL :: duration where "clientCertTTL = 24 * time_Hour"

text \<open>The leaf of the first verified chain, when there is one.\<close>

definition verified_leaf :: "peer \<Rightarrow> certificate option" where
  "verified_leaf p =
     (case p of TLSInfo ((leaf # _) # _) \<Rightarrow> Some leaf | _ \<Rightarrow> None)"

definition detect_reenroll :: "peer \<Rightarrow> world \<Rightarrow> (bool \<times> string) \<times> world" where
  "detect_reenroll p w =
     (case verified_leaf p of
        None \<Rightarrow> ((False, []), w)
      | Some leaf \<Rightarrow>
          (let (now, w1) = go_now w
           in if ct_NotAfter (crt_Fields leaf) > now then ((True, ct_CommonName (crt_Fields leaf)), w1)
              else ((False, []), w1)))"

definition validate_shape :: "bool \<Rightarrow> enroll_request \<Rightarrow> grpc_error option" where
  "validate_shape isReEnroll req =
     (if \<not> isReEnroll \<and> eq_EnrollmentToken req = []
      then Some (Status InvalidArgument ''enrollment_token is required'')
      else if eq_CsrPem req = [] then Some (Status InvalidArgument ''csr_pem is required'')
      else case eq_HostInfo req of
             None \<Rightarrow> Some (Status InvalidArgument ''host_info.hostname is required'')
           | Some hi \<Rightarrow>
               if hi_Hostname hi = [] then Some (Status InvalidArgument ''host_info.hostname is required'')
               else None)"

text \<open>\<open>authenticate\<close> gives the token ID (empty on re-enrollment) and the organisation.\<close>

definition authenticate ::
  "crypto \<Rightarrow> bool \<Rightarrow> string \<Rightarrow> string \<Rightarrow> world \<Rightarrow> (grpc_error + string \<times> string) \<times> world" where
  "authenticate c isReEnroll existingHostID tok w =
     (if isReEnroll then
        (case exec_query (\<lambda>_ d. key_row hr_id existingHostID (db_hosts d)) w of
           (Inl e, w1) \<Rightarrow> (Inl (Status Unauthenticated ''host not found for re-enrollment''), w1)
         | (Inr r, w1) \<Rightarrow> (Inr ([], hr_org_id r), w1))
      else if ParseAndValidate tok \<noteq> None
      then (Inl (Status InvalidArgument ''malformed enrollment token''), w)
      else (case exec_stmt (claim_token_sql (HashHex (c_Sum256 c) tok)) w of
              (Inl e, w1) \<Rightarrow>
                (Inl (Status Unauthenticated ''invalid, expired, or already-used enrollment token''), w1)
            | (Inr (tokenID, orgID), w1) \<Rightarrow> (Inr (tokenID, orgID), w1)))"

definition fresh_ulid :: "world \<Rightarrow> string \<times> world" where
  "fresh_ulid w = new_ulid (snd (go_now w))"

definition find_machine_sql :: "string \<Rightarrow> string \<Rightarrow> instant \<Rightarrow> db \<Rightarrow> db_error + string" where
  "find_machine_sql machineID orgID t d =
     map_sum id hr_id (first_row (filter (\<lambda>r. hr_machine_id r = Some machineID \<and> hr_org_id r = orgID)
                                    (db_hosts d)))"

text \<open>The error result of the source's function is always nil: a failed lookup means a new ID.\<close>

definition resolveHostID :: "string \<Rightarrow> string \<Rightarrow> string \<Rightarrow> world \<Rightarrow> string \<times> world" where
  "resolveHostID machineID orgID reEnrollHostID w =
     (if reEnrollHostID \<noteq> [] then (reEnrollHostID, w)
      else if machineID = [] then fresh_ulid w
      else (case exec_query (find_machine_sql machineID orgID) w of
              (Inr existing, w1) \<Rightarrow> (existing, w1)
            | (Inl e, w1) \<Rightarrow> fresh_ulid w1))"

definition non_empty :: "string \<Rightarrow> string option" where
  "non_empty s = (if s = [] then None else Some s)"

definition enrolled_host :: "string \<Rightarrow> string \<Rightarrow> enroll_request \<Rightarrow> host_info \<Rightarrow> instant \<Rightarrow> host" where
  "enrolled_host hostID orgID req hi now =
     \<lparr>h_ID = hostID, h_Hostname = hi_Hostname hi, h_OS = hi_Os hi, h_OSVersion = non_empty (hi_OsVersion hi),
      h_Kernel = non_empty (hi_Kernel hi), h_Arch = hi_Arch hi, h_CPUCores = Some (wrap32 (hi_CpuCores hi)),
      h_MemoryBytes = Some (hi_MemoryBytes hi), h_MachineID = non_empty (hi_MachineId hi),
      h_IPAddresses = hi_IpAddresses hi, h_Labels = hi_Labels hi, h_FirstSeenAt = now,
      h_LastHeartbeatAt = Some now, h_Status = ''enrolled'', h_AgentVersion = non_empty (eq_AgentVersion req),
      h_OrgID = orgID\<rparr>"

definition certFingerprint :: "crypto \<Rightarrow> string \<Rightarrow> string" where
  "certFingerprint c certPEM =
     (case c_pem_Decode c certPEM of
        None \<Rightarrow> ''invalid-pem''
      | Some (_, der) \<Rightarrow>
          (case c_ParseCertificate c der of
             Inl e \<Rightarrow> ''invalid-cert''
           | Inr crt \<Rightarrow> hex_bytes (c_Sum256 c (map (\<lambda>b. char_of (unat b)) (crt_Raw crt)))))"

text \<open>The part of the log line that shows a token: never more than its first 12 characters.\<close>

definition safePrefix :: "string \<Rightarrow> string" where
  "safePrefix tok = (if length tok < 12 then ''***'' else take 12 tok @ ''...'')"

definition issued_identity :: "crypto \<Rightarrow> string \<Rightarrow> string \<Rightarrow> instant \<Rightarrow> identity_row" where
  "issued_identity c hostID certPEM now =
     \<lparr>ir_id = 0, ir_host_id = hostID, ir_cert_pem = certPEM, ir_cert_fingerprint = certFingerprint c certPEM,
      ir_issued_at = now, ir_expires_at = now + clientCertTTL, ir_revoked_at = None, ir_revoked_reason = None\<rparr>"

text \<open>Steps 6 to 8: write the host, note it on the token (on re-enrollment the token ID is empty),
  record the identity.\<close>

definition record_enrollment ::
  "crypto \<Rightarrow> ca \<Rightarrow> string \<Rightarrow> string \<Rightarrow> string \<Rightarrow> enroll_request \<Rightarrow> host_info \<Rightarrow> string \<Rightarrow> world
     \<Rightarrow> (grpc_error + enroll_response) \<times> world" where
  "record_enrollment c auth tokenID orgID hostID req hi certPEM w =
     (let (now, w1) = go_now w
      in case host_Upsert (enrolled_host hostID orgID req hi now) w1 of
           (Inl e, w2) \<Rightarrow> (Inl (Status Internal ''internal error''), w2)
         | (Inr _, w2) \<Rightarrow>
             (let w3 = (if tokenID \<noteq> [] then snd (exec_stmt (set_used_by_sql hostID tokenID) w2) else w2)
              in case identity_Insert (issued_identity c hostID certPEM now) w3 of
                   (Inl e, w4) \<Rightarrow> (Inl (Status Internal ''internal error''), w4)
                 | (Inr _, w4) \<Rightarrow>
                     (Inr \<lparr>ep_CertPem = certPEM, ep_CaBundlePem = RootBundlePEM auth, ep_AgentId = hostID,
                           ep_CertRenewalIntervalSeconds = 20 * time_Hour div time_Second\<rparr>, w4)))"

definition Enroll ::
  "crypto \<Rightarrow> ca \<Rightarrow> peer \<Rightarrow> enroll_request \<Rightarrow> world \<Rightarrow> (grpc_error + enroll_response) \<times> world" where
  "Enroll c auth p req w =
     (let ((isReEnroll, existingHostID), w1) = detect_reenroll p w
      in case validate_shape isReEnroll req of
           Some e \<Rightarrow> (Inl e, w1)
         | None \<Rightarrow>
             (case eq_HostInfo req of
                None \<Rightarrow> (Inl (Status InvalidArgument ''host_info.hostname is required''), w1)
              | Some hi \<Rightarrow>
                  (case authenticate c isReEnroll existingHostID (eq_EnrollmentToken req) w1 of
                     (Inl e, w2) \<Rightarrow> (Inl e, w2)
                   | (Inr (tokenID, orgID), w2) \<Rightarrow>
                       (let (hostID, w3) = resolveHostID (hi_MachineId hi) orgID existingHostID w2
                        in case IssueClient c auth (eq_CsrPem req) hostID clientCertTTL w3 of
                             (Inl e, w4) \<Rightarrow>
                               (Inl (Status InvalidArgument (''CSR rejected: '' @ error_text e)), w4)
                           | (Inr certPEM, w4) \<Rightarrow>
                               record_enrollment c auth tokenID orgID hostID req hi certPEM w4))))"

subsection \<open>What the steps do to the tables\<close>

lemma detect_reenroll_db [simp]: "w_db (snd (detect_reenroll p w)) = w_db w"
  by (auto simp: detect_reenroll_def Let_def go_now_def split: option.splits)

lemma fresh_ulid_db [simp]: "w_db (snd (fresh_ulid w)) = w_db w"
  by (simp add: fresh_ulid_def)

lemma resolveHostID_db [simp]: "w_db (snd (resolveHostID m org h w)) = w_db w"
  by (auto simp: resolveHostID_def exec_query_dbD split: prod.splits sum.splits)

lemma authenticate_first:
  "authenticate c False h tok w =
     (if ParseAndValidate tok \<noteq> None then (Inl (Status InvalidArgument ''malformed enrollment token''), w)
      else case exec_stmt (claim_token_sql (HashHex (c_Sum256 c) tok)) w of
             (Inl e, w1) \<Rightarrow> (Inl (Status Unauthenticated ''invalid, expired, or already-used enrollment token''), w1)
           | (Inr r, w1) \<Rightarrow> (Inr r, w1))"
  by (auto simp: authenticate_def split: prod.splits sum.splits)

context store_effects
begin

lemma authenticate_R: "R (w_db w) (w_db (snd (authenticate c re h tok w)))"
proof -
  have "R (w_db w) (w_db (snd (exec_stmt (claim_token_sql hash) w)))" for hash
    by (rule exec_stmt_R) (rule claim_token_R)
  then show ?thesis
    by (auto simp: authenticate_def exec_query_dbD R_refl split: prod.splits sum.splits)
       (metis snd_conv)+
qed

lemma record_enrollment_R: "R (w_db w) (w_db (snd (record_enrollment c a tid org h req hi pem w)))"
proof -
  let ?h = "enrolled_host h org req hi (fst (go_now w))" and ?w1 = "snd (go_now w)"
  have up: "R (w_db w) (w_db (snd (host_Upsert ?h ?w1)))"
    using host_methods_R(1) [of ?w1 ?h] by simp
  have noted: "R (w_db v) (w_db (if tid \<noteq> [] then snd (exec_stmt (set_used_by_sql h tid) v) else v))" for v
    by (auto simp: R_refl intro!: exec_stmt_R dest: set_used_by_R)
  show ?thesis
  proof (cases "fst (host_Upsert ?h ?w1)")
    case (Inl e)
    then show ?thesis using up
      by (auto simp: record_enrollment_def Let_def split_def split: prod.splits)
  next
    case (Inr u)
    let ?w2 = "snd (host_Upsert ?h ?w1)"
    let ?w3 = "if tid \<noteq> [] then snd (exec_stmt (set_used_by_sql h tid) ?w2) else ?w2"
    let ?i = "issued_identity c h pem (fst (go_now w))"
    have "w_db (snd (record_enrollment c a tid org h req hi pem w)) = w_db (snd (identity_Insert ?i ?w3))"
      using Inr by (cases "host_Upsert ?h ?w1")
        (auto simp: record_enrollment_def Let_def split_def split: prod.splits sum.splits)
    moreover have "R (w_db w) (w_db (snd (identity_Insert ?i ?w3)))"
      using up noted [of ?w2] identity_methods_R(1) [of ?w3 ?i] R_trans by blast
    ultimately show ?thesis by simp
  qed
qed

lemma Enroll_R: "R (w_db w) (w_db (snd (Enroll c a p req w)))"
proof -
  obtain re h w1 where d: "detect_reenroll p w = ((re, h), w1)" by (metis surj_pair)
  then have d1: "w_db w1 = w_db w" using detect_reenroll_db [of p w] by simp
  obtain r w2 where au: "authenticate c re h (eq_EnrollmentToken req) w1 = (r, w2)" by (metis surj_pair)
  then have d2: "R (w_db w) (w_db w2)" using authenticate_R [of w1] d1 by (metis snd_conv)
  show ?thesis
  proof (cases "validate_shape re req = None \<and> eq_HostInfo req \<noteq> None \<and> (\<exists>x. r = Inr x)")
    case False
    with d au d1 d2 show ?thesis
      by (auto simp: Enroll_def R_refl split: option.splits sum.splits)
  next
    case True
    then obtain hi tid org where hi: "eq_HostInfo req = Some hi" and r: "r = Inr (tid, org)" by auto
    obtain hid w3 where rs: "resolveHostID (hi_MachineId hi) org h w2 = (hid, w3)" by (metis surj_pair)
    obtain q w4 where ic: "IssueClient c a (eq_CsrPem req) hid clientCertTTL w3 = (q, w4)" by (metis surj_pair)
    have d4: "w_db w4 = w_db w2"
      using rs ic resolveHostID_db [of "hi_MachineId hi" org h w2]
        IssueClient_db [of c a "eq_CsrPem req" hid clientCertTTL w3] by simp
    show ?thesis
    proof (cases q)
      case (Inl e)
      with True d au hi r rs ic d4 d2 show ?thesis by (simp add: Enroll_def)
    next
      case (Inr pem)
      have "R (w_db w4) (w_db (snd (record_enrollment c a tid org hid req hi pem w4)))"
        by (rule record_enrollment_R)
      then have "R (w_db w) (w_db (snd (record_enrollment c a tid org hid req hi pem w4)))"
        using d4 d2 R_trans by metis
      with True d au hi r rs ic Inr show ?thesis by (simp add: Enroll_def)
    qed
  qed
qed

end

subsection \<open>A successful enrollment, step by step\<close>

lemma Enroll_Inr:
  assumes "Enroll c a p req w = (Inr resp, w')"
  obtains re h w1 hi tid org w2 hid w3 pem w4 where
    "detect_reenroll p w = ((re, h), w1)" "validate_shape re req = None" "eq_HostInfo req = Some hi"
    "authenticate c re h (eq_EnrollmentToken req) w1 = (Inr (tid, org), w2)"
    "resolveHostID (hi_MachineId hi) org h w2 = (hid, w3)"
    "IssueClient c a (eq_CsrPem req) hid clientCertTTL w3 = (Inr pem, w4)"
    "record_enrollment c a tid org hid req hi pem w4 = (Inr resp, w')"
proof -
  obtain re h w1 where d: "detect_reenroll p w = ((re, h), w1)" by (metis surj_pair)
  from assms d obtain hi where v: "validate_shape re req = None" and hi: "eq_HostInfo req = Some hi"
    by (auto simp: Enroll_def split: option.splits)
  from assms d v hi obtain tid org w2 where au: "authenticate c re h (eq_EnrollmentToken req) w1 = (Inr (tid, org), w2)"
    by (auto simp: Enroll_def split: prod.splits sum.splits)
  obtain hid w3 where rs: "resolveHostID (hi_MachineId hi) org h w2 = (hid, w3)" by (metis surj_pair)
  from assms d v hi au rs obtain pem w4 where
    ic: "IssueClient c a (eq_CsrPem req) hid clientCertTTL w3 = (Inr pem, w4)"
    by (auto simp: Enroll_def split: prod.splits sum.splits)
  from assms d v hi au rs ic have "record_enrollment c a tid org hid req hi pem w4 = (Inr resp, w')"
    by (simp add: Enroll_def)
  with d v hi au rs ic that show ?thesis by blast
qed

lemma record_enrollment_Inr:
  assumes "record_enrollment c a tid org hid req hi pem w = (Inr resp, w')"
  obtains w2 w3 where
    "host_Upsert (enrolled_host hid org req hi (w_clock w (w_tick w))) (tick w) = (Inr (), w2)"
    "w3 = (if tid \<noteq> [] then snd (exec_stmt (set_used_by_sql hid tid) w2) else w2)"
    "\<exists>q. identity_Insert (issued_identity c hid pem (w_clock w (w_tick w))) w3 = (Inr q, w')"
    "resp = \<lparr>ep_CertPem = pem, ep_CaBundlePem = RootBundlePEM a, ep_AgentId = hid,
       ep_CertRenewalIntervalSeconds = 72000\<rparr>"
  using assms
  by (auto simp: record_enrollment_def Let_def go_now_def time_units split: prod.splits sum.splits)

lemma set_used_by_hosts: "db_hosts (w_db (snd (exec_stmt (set_used_by_sql h k) w))) = db_hosts (w_db w)"
  by (rule exec_stmt_keeps [where I = "\<lambda>d. db_hosts d = db_hosts (w_db w)"])
     (auto simp: set_used_by_sql_def Let_def split: if_splits)

lemma detect_reenroll_True:
  "detect_reenroll p w = ((True, h), w1) \<longleftrightarrow>
     (\<exists>leaf. verified_leaf p = Some leaf \<and> ct_NotAfter (crt_Fields leaf) > w_clock w (w_tick w)
        \<and> h = ct_CommonName (crt_Fields leaf) \<and> w1 = tick w)"
  by (auto simp: detect_reenroll_def go_now_def split: option.splits)

lemma detect_reenroll_False:
  "detect_reenroll p w = ((False, h), w1) \<Longrightarrow> h = [] \<and>
     (\<forall>leaf. verified_leaf p = Some leaf \<longrightarrow> ct_NotAfter (crt_Fields leaf) \<le> w_clock w (w_tick w))"
  by (auto simp: detect_reenroll_def go_now_def split: option.splits if_splits)

text \<open>The steps read the clock and the random source as they come.\<close>

lemma enroll_goes_on:
  "goes_on w (snd (detect_reenroll p w))" "goes_on w (snd (authenticate c re h tok w))"
  "goes_on w (snd (resolveHostID m org h w))"
proof -
  show "goes_on w (snd (detect_reenroll p w))"
    by (auto simp: detect_reenroll_def go_now_def Let_def split: option.splits)
  have q: "goes_on w v" if "exec_query f w = (r, v)" for f and r :: "go_error + 'x" and v
    using that exec_query_env [of f w] by (auto simp: goes_on_def)
  have x: "goes_on w v" if "exec_stmt f w = (r, v)" for f and r :: "go_error + 'x" and v
    using that goes_on_steps(2) [of w f] by simp
  show "goes_on w (snd (authenticate c re h tok w))"
    by (auto simp: authenticate_def dest: q x split: prod.splits sum.splits)
  have fresh: "goes_on v (snd (fresh_ulid v))" for v
    by (simp add: fresh_ulid_def go_now_def new_ulid_def goes_on_def)
  show "goes_on w (snd (resolveHostID m org h w))"
    using fresh by (auto simp: resolveHostID_def dest: q intro: goes_on_trans split: prod.splits sum.splits)
qed

text \<open>The host row and the identity that a successful enrollment leaves.\<close>

lemma enrolled_row:
  assumes "record_enrollment c a tid org hid req hi pem w = (Inr resp, w')"
  shows "ep_AgentId resp = hid \<and> ep_CertPem resp = pem
    \<and> (\<exists>r t. find_by hr_id hid (db_hosts (w_db w')) = Some r
         \<and> r = (host_to_row (enrolled_host hid org req hi (w_clock w (w_tick w))))\<lparr>hr_first_seen_at := t\<rparr>
         \<and> hr_org_id r = org)
    \<and> (\<exists>i \<in> set (db_identities (w_db w')). ir_host_id i = hid \<and> ir_cert_pem i = pem
         \<and> ir_cert_fingerprint i = certFingerprint c pem \<and> ir_revoked_at i = None
         \<and> ir_expires_at i = w_clock w (w_tick w) + clientCertTTL)"
proof -
  let ?now = "w_clock w (w_tick w)"
  obtain w2 w3 q where up: "host_Upsert (enrolled_host hid org req hi ?now) (tick w) = (Inr (), w2)"
    and w3: "w3 = (if tid \<noteq> [] then snd (exec_stmt (set_used_by_sql hid tid) w2) else w2)"
    and ins: "identity_Insert (issued_identity c hid pem ?now) w3 = (Inr q, w')"
    and resp: "resp = \<lparr>ep_CertPem = pem, ep_CaBundlePem = RootBundlePEM a, ep_AgentId = hid,
       ep_CertRenewalIntervalSeconds = 72000\<rparr>"
    using assms by (rule record_enrollment_Inr) blast
  let ?n = "host_to_row (enrolled_host hid org req hi ?now)"
  have n: "hr_id ?n = hid" "hr_org_id ?n = org" by (simp_all add: host_to_row_def enrolled_host_def)
  from up have u: "upsert_sql ?n (w_clock w (Suc (w_tick w))) (w_db w) = Inr ((), w_db w2)"
    by (auto simp: host_Upsert_def dest!: exec_stmt_Inr)
  have i: "insert_identity_sql (issued_identity c hid pem ?now) (w_clock w3 (w_tick w3)) (w_db w3) = Inr (q, w_db w')"
    using ins by (auto simp: identity_Insert_def dest!: exec_stmt_Inr)
  have "db_hosts (w_db w') = db_hosts (w_db w2)"
    using insert_identity_frame [OF i] w3 set_used_by_hosts by simp
  with upsert_find [OF u] n have
    "\<exists>t. find_by hr_id hid (db_hosts (w_db w')) = Some (?n\<lparr>hr_first_seen_at := t\<rparr>)" by auto
  moreover from i have "\<exists>i \<in> set (db_identities (w_db w')). ir_host_id i = hid \<and> ir_cert_pem i = pem
       \<and> ir_cert_fingerprint i = certFingerprint c pem \<and> ir_revoked_at i = None
       \<and> ir_expires_at i = ?now + clientCertTTL"
    using insert_identity_row [OF i] by (auto simp: issued_identity_def)
  ultimately show ?thesis using resp n(2) by auto
qed

text \<open>C1: Nobody enrolls without authority: a successful Enroll was made either over a connection whose
  verified client certificate had not expired, for a host that exists, which keeps its ID and
  organisation; or with a well-formed token whose hash belonged to an unused, unrevoked, unexpired
  token, which is used from then on and gave the host its organisation.\<close>

theorem Enroll_authorized:
  assumes "Enroll c a p req w = (Inr resp, w')" "db_ok (w_db w)"
  shows "(\<exists>leaf r. verified_leaf p = Some leaf \<and> ct_NotAfter (crt_Fields leaf) > w_clock w (w_tick w)
        \<and> find_by hr_id (ct_CommonName (crt_Fields leaf)) (db_hosts (w_db w)) = Some r
        \<and> (ct_CommonName (crt_Fields leaf) \<noteq> [] \<longrightarrow> ep_AgentId resp = ct_CommonName (crt_Fields leaf))
        \<and> (\<exists>r'. find_by hr_id (ep_AgentId resp) (db_hosts (w_db w')) = Some r' \<and> hr_org_id r' = hr_org_id r))
    \<or> (\<exists>tk t. (\<forall>leaf. verified_leaf p = Some leaf \<longrightarrow> ct_NotAfter (crt_Fields leaf) \<le> w_clock w (w_tick w))
        \<and> ParseAndValidate (eq_EnrollmentToken req) = None
        \<and> tk \<in> set (db_tokens (w_db w)) \<and> token_usable t tk
        \<and> t \<in> {w_clock w (w_tick w), w_clock w (w_tick w + 1)}
        \<and> tr_token_hash tk = HashHex (c_Sum256 c) (eq_EnrollmentToken req)
        \<and> tr_id tk \<in> used_token_ids (w_db w')
        \<and> (\<exists>r'. find_by hr_id (ep_AgentId resp) (db_hosts (w_db w')) = Some r' \<and> hr_org_id r' = tr_org_id tk))"
proof -
  obtain re h w1 hi tid org w2 hid w3 pem w4 where
    d: "detect_reenroll p w = ((re, h), w1)" and
    au: "authenticate c re h (eq_EnrollmentToken req) w1 = (Inr (tid, org), w2)" and
    rs: "resolveHostID (hi_MachineId hi) org h w2 = (hid, w3)" and
    ic: "IssueClient c a (eq_CsrPem req) hid clientCertTTL w3 = (Inr pem, w4)" and
    rec: "record_enrollment c a tid org hid req hi pem w4 = (Inr resp, w')"
    using assms(1) by (rule Enroll_Inr) blast
  have d1: "w_db w1 = w_db w" using detect_reenroll_db [of p w] d by simp
  have d4: "w_db w4 = w_db w2"
    using rs ic resolveHostID_db [of "hi_MachineId hi" org h w2]
      IssueClient_db [of c a "eq_CsrPem req" hid clientCertTTL w3] by simp
  obtain r' where agent: "ep_AgentId resp = hid"
    and r': "find_by hr_id hid (db_hosts (w_db w')) = Some r'" "hr_org_id r' = org"
    using enrolled_row [OF rec] by blast
  have evolve: "tokens_evolve (w_db w2) (w_db w')"
    using evolution.record_enrollment_R [of w4 c a tid org hid req hi pem] rec d4 by simp
  show ?thesis
  proof (cases re)
    case True
    with d obtain leaf where leaf: "verified_leaf p = Some leaf" "h = ct_CommonName (crt_Fields leaf)"
      "ct_NotAfter (crt_Fields leaf) > w_clock w (w_tick w)"
      by (auto simp: detect_reenroll_True)
    from au True d1 obtain r where "find_by hr_id h (db_hosts (w_db w)) = Some r" "org = hr_org_id r"
      by (auto simp: authenticate_def dest!: exec_query_Inr split: prod.splits sum.splits)
    moreover have "h \<noteq> [] \<Longrightarrow> hid = h" using rs by (simp add: resolveHostID_def)
    ultimately show ?thesis using leaf agent r'
      by (intro disjI1 exI [where x = leaf] exI [where x = r]) auto
  next
    case False
    with d have nl: "\<forall>leaf. verified_leaf p = Some leaf \<longrightarrow> ct_NotAfter (crt_Fields leaf) \<le> w_clock w (w_tick w)"
      using detect_reenroll_False [of p w h w1] by simp
    let ?t = "w_clock w1 (w_tick w1)"
    from au False have ok: "ParseAndValidate (eq_EnrollmentToken req) = None"
      and ex: "exec_stmt (claim_token_sql (HashHex (c_Sum256 c) (eq_EnrollmentToken req))) w1 = (Inr (tid, org), w2)"
      by (auto simp: authenticate_first split: if_splits prod.splits sum.splits)
    then have cl: "claim_token_sql (HashHex (c_Sum256 c) (eq_EnrollmentToken req)) ?t (w_db w) = Inr ((tid, org), w_db w2)"
      using exec_stmt_Inr [OF ex] d1 by simp
    then obtain tk where tk: "tk \<in> set (db_tokens (w_db w))" "tr_id tk = tid" "tr_org_id tk = org"
      "tr_token_hash tk = HashHex (c_Sum256 c) (eq_EnrollmentToken req)" "token_usable ?t tk"
      by (rule claim_token_row)
    have "tid \<in> used_token_ids (w_db w2)" using claim_token_fresh [OF cl assms(2)] by blast
    moreover have "db_ok (w_db w2)" using claim_token_db_ok [OF cl assms(2)] .
    ultimately have "tid \<in> used_token_ids (w_db w')" using used_token_ids_mono evolve by blast
    moreover have "?t \<in> {w_clock w (w_tick w), w_clock w (w_tick w + 1)}"
      using d by (auto simp: detect_reenroll_def go_now_def split: option.splits if_splits)
    ultimately show ?thesis using nl ok tk agent r'
      by (intro disjI2 exI [where x = tk] exI [where x = ?t]) auto
  qed
qed

text \<open>When it was: the ticks of the last steps, counted from the end.\<close>

lemma record_enrollment_ticks:
  assumes "record_enrollment c a tid org hid req hi pem w = (Inr resp, w')"
  shows "w_tick w' = w_tick w + (if tid \<noteq> [] then 4 else 3)"
    "\<exists>i \<in> set (db_identities (w_db w')). ir_host_id i = hid \<and> ir_cert_pem i = pem
         \<and> ir_cert_fingerprint i = certFingerprint c pem \<and> ir_revoked_at i = None
         \<and> ir_expires_at i = w_clock w (w_tick w) + clientCertTTL \<and> ir_issued_at i = w_clock w (w_tick w' - 1)"
proof -
  let ?h = "enrolled_host hid org req hi (w_clock w (w_tick w))" and ?i = "issued_identity c hid pem (w_clock w (w_tick w))"
  obtain w2 w3 q where up: "host_Upsert ?h (tick w) = (Inr (), w2)"
    and w3: "w3 = (if tid \<noteq> [] then snd (exec_stmt (set_used_by_sql hid tid) w2) else w2)"
    and ins: "identity_Insert ?i w3 = (Inr q, w')"
    using assms by (rule record_enrollment_Inr) blast
  have w2: "w2 = snd (exec_stmt (upsert_sql (host_to_row ?h)) (tick w))" using up by (simp add: host_Upsert_def)
  have t3: "w_tick w3 = w_tick w + (if tid \<noteq> [] then 3 else 2)" "w_clock w3 = w_clock w"
    by (simp_all add: w3 w2)
  have w': "w' = snd (exec_stmt (insert_identity_sql ?i) w3)" using ins by (simp add: identity_Insert_def)
  then show "w_tick w' = w_tick w + (if tid \<noteq> [] then 4 else 3)" using t3 by simp
  have last: "w_tick w' - 1 = w_tick w3" using w' by simp
  have "insert_identity_sql ?i (w_clock w3 (w_tick w3)) (w_db w3) = Inr (q, w_db w')"
    using ins by (auto simp: identity_Insert_def dest!: exec_stmt_Inr)
  from insert_identity_row [OF this]
  show "\<exists>i \<in> set (db_identities (w_db w')). ir_host_id i = hid \<and> ir_cert_pem i = pem
         \<and> ir_cert_fingerprint i = certFingerprint c pem \<and> ir_revoked_at i = None
         \<and> ir_expires_at i = w_clock w (w_tick w) + clientCertTTL \<and> ir_issued_at i = w_clock w (w_tick w' - 1)"
    unfolding last by (simp add: t3(2) issued_identity_def)
qed

text \<open>C18: What a successful Enroll leaves behind: a certificate for the key of the request whose common
  name is the returned agent ID and no other; the host row with the status \<open>enrolled\<close> and all the data
  the agent reported, an absent text as NULL; and an unrevoked identity with the fingerprint of
  exactly that certificate, issued at the last reading of the clock of the call, and valid until 24
  hours after the reading, three or four interactions before the end of the call, that also stands
  as the heartbeat of the host. The agent is told to renew after 20 hours.\<close>

theorem Enroll_records:
  assumes "crypto_ok c" "Enroll c a p req w = (Inr resp, w')"
  shows "\<exists>hi crt r k i n. eq_HostInfo req = Some hi \<and> hi_Hostname hi \<noteq> []
    \<and> c_pem_Decode c (ep_CertPem resp) = Some (''CERTIFICATE'', crt_Raw crt) \<and> c_ParseCertificate c (crt_Raw crt) = Inr crt
    \<and> ct_CommonName (crt_Fields crt) = ep_AgentId resp \<and> \<not> ct_IsCA (crt_Fields crt)
    \<and> read_csr c (eq_CsrPem req) = Inr k \<and> crt_PublicKey crt = csr_PublicKey k
    \<and> find_by hr_id (ep_AgentId resp) (db_hosts (w_db w')) = Some r \<and> hr_status r = ''enrolled''
    \<and> hr_hostname r = hi_Hostname hi \<and> hr_os r = hi_Os hi \<and> hr_arch r = hi_Arch hi
    \<and> hr_os_version r = (if hi_OsVersion hi = [] then None else Some (hi_OsVersion hi))
    \<and> hr_kernel r = (if hi_Kernel hi = [] then None else Some (hi_Kernel hi))
    \<and> hr_machine_id r = (if hi_MachineId hi = [] then None else Some (hi_MachineId hi))
    \<and> hr_agent_version r = (if eq_AgentVersion req = [] then None else Some (eq_AgentVersion req))
    \<and> hr_cpu_cores r = Some (wrap32 (hi_CpuCores hi)) \<and> hr_memory_bytes r = Some (hi_MemoryBytes hi)
    \<and> hr_ip_addresses r = Some (marshal_strings (hi_IpAddresses hi)) \<and> hr_labels r = Some (marshal_labels (hi_Labels hi))
    \<and> w_tick w \<le> n \<and> (n = w_tick w' - 3 \<or> n = w_tick w' - 4) \<and> hr_last_heartbeat_at r = Some (w_clock w n)
    \<and> i \<in> set (db_identities (w_db w')) \<and> ir_host_id i = ep_AgentId resp \<and> ir_cert_pem i = ep_CertPem resp
    \<and> ir_cert_fingerprint i = hex_bytes (c_Sum256 c (map (\<lambda>b. char_of (unat b)) (crt_Raw crt)))
    \<and> ir_revoked_at i = None \<and> ir_issued_at i = w_clock w (w_tick w' - 1)
    \<and> ir_expires_at i = w_clock w n + 24 * 60 * 60 * 1000000000
    \<and> ep_CertRenewalIntervalSeconds resp = 20 * 60 * 60 \<and> ep_CaBundlePem resp = RootBundlePEM a"
proof -
  obtain re h w1 hi tid org w2 hid w3 pem w4 where
    d: "detect_reenroll p w = ((re, h), w1)" and
    v: "validate_shape re req = None" and hi: "eq_HostInfo req = Some hi" and
    au: "authenticate c re h (eq_EnrollmentToken req) w1 = (Inr (tid, org), w2)" and
    rs: "resolveHostID (hi_MachineId hi) org h w2 = (hid, w3)" and
    ic: "IssueClient c a (eq_CsrPem req) hid clientCertTTL w3 = (Inr pem, w4)" and
    rec: "record_enrollment c a tid org hid req hi pem w4 = (Inr resp, w')"
    using assms(2) by (rule Enroll_Inr) blast
  have "goes_on w w1" "goes_on w1 w2" "goes_on w2 w3" "goes_on w3 w4"
    using enroll_goes_on(1) [of w p] enroll_goes_on(2) [of w1 c re h "eq_EnrollmentToken req"]
      enroll_goes_on(3) [of w2 "hi_MachineId hi" org h] IssueClient_goes_on [of w3 c a "eq_CsrPem req" hid clientCertTTL]
      d au rs ic by simp_all
  then have "goes_on w w4" by (blast intro: goes_on_trans)
  then have w4: "w_clock w4 = w_clock w" "w_tick w \<le> w_tick w4" by (simp_all add: goes_on_def)
  note ticks = record_enrollment_ticks [OF rec]
  have n: "w_tick w4 = w_tick w' - 3 \<or> w_tick w4 = w_tick w' - 4" using ticks(1) by (cases "tid = []") simp_all
  have name: "hi_Hostname hi \<noteq> []" using v hi by (auto simp: validate_shape_def split: if_splits)
  have ids: "ep_AgentId resp = hid" "ep_CertPem resp = pem" using enrolled_row [OF rec] by simp_all
  obtain k crt where crt: "read_csr c (eq_CsrPem req) = Inr k"
    "c_pem_Decode c pem = Some (''CERTIFICATE'', crt_Raw crt)" "c_ParseCertificate c (crt_Raw crt) = Inr crt"
    "crt_PublicKey crt = csr_PublicKey k" "ct_CommonName (crt_Fields crt) = hid" "\<not> ct_IsCA (crt_Fields crt)"
    using IssueClient_parsed [OF assms(1) ic] by blast
  obtain r t where r: "find_by hr_id hid (db_hosts (w_db w')) = Some r"
    "r = (host_to_row (enrolled_host hid org req hi (w_clock w4 (w_tick w4))))\<lparr>hr_first_seen_at := t\<rparr>"
    using enrolled_row [OF rec] by blast
  obtain i where i: "i \<in> set (db_identities (w_db w'))" "ir_host_id i = hid" "ir_cert_pem i = pem"
    "ir_cert_fingerprint i = certFingerprint c pem" "ir_revoked_at i = None"
    "ir_expires_at i = w_clock w4 (w_tick w4) + clientCertTTL" "ir_issued_at i = w_clock w4 (w_tick w' - 1)"
    using ticks(2) by blast
  have fp: "certFingerprint c pem = hex_bytes (c_Sum256 c (map (\<lambda>b. char_of (unat b)) (crt_Raw crt)))"
    using crt by (simp add: certFingerprint_def)
  have told: "ep_CertRenewalIntervalSeconds resp = 72000" "ep_CaBundlePem resp = RootBundlePEM a"
    using rec by (rule record_enrollment_Inr, simp)+
  show ?thesis
    by (intro exI [where x = hi] exI [where x = crt] exI [where x = r] exI [where x = k] exI [where x = i]
        exI [where x = "w_tick w4"] conjI)
       (simp_all add: hi name ids crt r(1) i fp w4 told n [unfolded w4] clientCertTTL_def time_units,
        simp_all add: r(2) host_to_row_def enrolled_host_def non_empty_def w4)
qed

subsection \<open>When an enrollment goes through\<close>

lemma resolveHostID_env [simp]:
  "w_fault (snd (resolveHostID m org h w)) = w_fault w"
  "w_rand (snd (resolveHostID m org h w)) = w_rand w"
  "w_rand_fails (snd (resolveHostID m org h w)) = w_rand_fails w"
  "w_clock (snd (resolveHostID m org h w)) = w_clock w"
proof -
  obtain r w1 where q: "exec_query (find_machine_sql m org) w = (r, w1)" by (metis surj_pair)
  then have "w_fault w1 = w_fault w" "w_rand w1 = w_rand w" "w_rand_fails w1 = w_rand_fails w"
    "w_clock w1 = w_clock w" using exec_query_env [of "find_machine_sql m org" w] by simp_all
  with q show "w_fault (snd (resolveHostID m org h w)) = w_fault w"
    "w_rand (snd (resolveHostID m org h w)) = w_rand w"
    "w_rand_fails (snd (resolveHostID m org h w)) = w_rand_fails w"
    "w_clock (snd (resolveHostID m org h w)) = w_clock w"
    by (auto simp: resolveHostID_def fresh_ulid_def split: sum.splits)
qed

text \<open>Without a fault, a known machine of the organisation keeps its ID, and no other row stands in
  the way of the new one.\<close>

lemma resolveHostID_machine:
  assumes "w_fault w (w_tick w) = NoFault" "db_ok (w_db w)"
    and res: "resolveHostID m org [] w = (hid, w')"
    and key: "machine_key n = (if m = [] then None else Some (m, org))" "hr_id n = hid"
  shows "\<not> violates_machine_uidx n (db_hosts (w_db w))"
    and "\<And>r. r \<in> set (db_hosts (w_db w)) \<Longrightarrow> m \<noteq> [] \<Longrightarrow> hr_machine_id r = Some m \<Longrightarrow> hr_org_id r = org \<Longrightarrow> hid = hr_id r"
proof -
  let ?P = "\<lambda>r. hr_machine_id r = Some m \<and> hr_org_id r = org"
  have ok: "hosts_ok (db_hosts (w_db w))" using assms(2) by (simp add: db_ok_def)
  have mk: "machine_key r = Some (m, org) \<longleftrightarrow> ?P r" for r by (auto simp: machine_key_def)
  show same: "hid = hr_id r" if r: "r \<in> set (db_hosts (w_db w))" "m \<noteq> []" "hr_machine_id r = Some m" "hr_org_id r = org" for r
  proof -
    from r obtain x xs where f: "filter ?P (db_hosts (w_db w)) = x # xs"
      by (cases "filter ?P (db_hosts (w_db w))") (auto simp: filter_empty_conv)
    have "x \<in> set (filter ?P (db_hosts (w_db w)))" by (simp add: f)
    then have x: "x \<in> set (db_hosts (w_db w))" "?P x" by simp_all
    have "hid = hr_id x"
      using res r(2) f assms(1)
      by (simp add: resolveHostID_def exec_query_NoFault find_machine_sql_def first_row_def)
    moreover have "machine_key x = machine_key r" "machine_key r \<noteq> None"
      using x(2) r mk [of x] mk [of r] by simp_all
    ultimately show "hid = hr_id r" using hosts_okD [OF ok r(1) x(1)] by simp
  qed
  show "\<not> violates_machine_uidx n (db_hosts (w_db w))"
  proof
    assume "violates_machine_uidx n (db_hosts (w_db w))"
    then obtain r where r: "r \<in> set (db_hosts (w_db w))" "hr_id r \<noteq> hid" "machine_key n \<noteq> None"
      "machine_key r = machine_key n" using key(2) by (auto simp: violates_machine_uidx_def)
    with key(1) have "m \<noteq> []" "machine_key r = Some (m, org)" by (auto split: if_splits)
    with same r(1,2) show False by (simp add: mk)
  qed
qed

lemma record_enrollment_ok:
  assumes "w_fault w = (\<lambda>_. NoFault)"
    "\<not> violates_machine_uidx (host_to_row (enrolled_host hid org req hi (w_clock w (w_tick w)))) (db_hosts (w_db w))"
    "\<forall>i \<in> set (db_identities (w_db w)). ir_revoked_at i = None \<longrightarrow> ir_cert_fingerprint i \<noteq> certFingerprint c pem"
  shows "\<exists>resp w'. record_enrollment c a tid org hid req hi pem w = (Inr resp, w') \<and> ep_AgentId resp = hid"
proof -
  let ?n = "host_to_row (enrolled_host hid org req hi (w_clock w (w_tick w)))"
  let ?t = "w_clock w (Suc (w_tick w))"
  have "\<exists>d1. upsert_sql ?n ?t (w_db w) = Inr ((), d1)"
    using assms(2) by (cases "find_by hr_id (hr_id ?n) (db_hosts (w_db w))") (simp_all add: upsert_sql_def Let_def)
  then obtain d1 where u: "upsert_sql ?n ?t (w_db w) = Inr ((), d1)" by blast
  define w2 where "w2 = (tick (tick w))\<lparr>w_db := d1\<rparr>"
  have up: "host_Upsert (enrolled_host hid org req hi (w_clock w (w_tick w))) (tick w) = (Inr (), w2)"
    using u assms(1) by (simp add: host_Upsert_def exec_stmt_NoFault w2_def wrap_err_def)
  have d1: "hr_id ?n = hid" "hid \<in> hr_id ` set (db_hosts d1)" "db_identities d1 = db_identities (w_db w)"
    using upsert_host_ids [OF u] upsert_hosts(2) [OF u] by (simp_all add: host_to_row_def enrolled_host_def)
  define w3 where "w3 = (if tid \<noteq> [] then snd (exec_stmt (set_used_by_sql hid tid) w2) else w2)"
  have w3: "w_fault w3 = (\<lambda>_. NoFault)" "db_hosts (w_db w3) = db_hosts d1" "db_identities (w_db w3) = db_identities (w_db w)"
    using assms(1) d1(3)
    by (auto simp: w3_def w2_def exec_stmt_NoFault set_used_by_sql_def Let_def split: if_splits)
  let ?i = "issued_identity c hid pem (w_clock w (w_tick w))"
  have "\<exists>q d. insert_identity_sql ?i (w_clock w3 (w_tick w3)) (w_db w3) = Inr (q, d)"
    using w3 d1(2) assms(3) by (auto simp: insert_identity_sql_def issued_identity_def host_exists_iff)
  then obtain q d where "identity_Insert ?i w3 = (Inr q, (tick w3)\<lparr>w_db := d\<rparr>)"
    using w3(1) by (auto simp: identity_Insert_def exec_stmt_NoFault wrap_err_def)
  then show ?thesis
    using up w3_def by (simp add: record_enrollment_def go_now_def)
qed

text \<open>C20: Liveness of a first enrollment: with a complete request, a usable token, the only usable one with
  its hash, and an acceptable request for a certificate, and without faults, Enroll succeeds, if the
  one certificate it makes, for the host ID, the serial number and the two readings of the clock it
  comes to, can be signed and its fingerprint is not that of an unrevoked identity. The answer holds
  that certificate; the token is used, and the host belongs to its organisation. A machine already
  known to the organisation gets its old host ID, so that it never appears twice.\<close>

theorem Enroll_first_accepts:
  assumes "w_fault w = (\<lambda>_. NoFault)" "db_ok (w_db w)" "verified_leaf p = None"
    "eq_HostInfo req = Some hi" "hi_Hostname hi \<noteq> []" "eq_CsrPem req \<noteq> []"
    "ParseAndValidate (eq_EnrollmentToken req) = None"
    "tk \<in> set (db_tokens (w_db w))" "token_usable (w_clock w (w_tick w)) tk"
    "tr_token_hash tk = HashHex (c_Sum256 c) (eq_EnrollmentToken req)"
    "\<forall>tk' \<in> set (db_tokens (w_db w)).
       tr_token_hash tk' = tr_token_hash tk \<and> token_usable (w_clock w (w_tick w)) tk' \<longrightarrow> tk' = tk"
    "read_csr c (eq_CsrPem req) = Inr k" "w_rand_fails w = (\<lambda>_. False)"
    and host_ID: "resolveHostID (hi_MachineId hi) (tr_org_id tk) []
       (snd (authenticate c False [] (eq_EnrollmentToken req) w)) = (hid, w3)"
    and signed: "c_CreateCertificate c
        (client_template (big_SetBytes (map (w_rand w (w_tick w3)) [0..<16])) hid
           (w_clock w (w_tick w3 + 1) - time_Minute) (w_clock w (w_tick w3 + 2) + 24 * time_Hour))
        (crt_Fields (ca_rootCert a)) (csr_PublicKey k) (ca_rootKey a) = Inr der"
    and untaken: "\<forall>i \<in> set (db_identities (w_db w)). ir_revoked_at i = None \<longrightarrow>
        ir_cert_fingerprint i \<noteq> certFingerprint c (c_pem_Encode c ''CERTIFICATE'' der)"
  shows "\<exists>resp w' r'. Enroll c a p req w = (Inr resp, w') \<and> ep_AgentId resp = hid
    \<and> ep_CertPem resp = c_pem_Encode c ''CERTIFICATE'' der \<and> tr_id tk \<in> used_token_ids (w_db w')
    \<and> find_by hr_id hid (db_hosts (w_db w')) = Some r' \<and> hr_org_id r' = tr_org_id tk
    \<and> (\<forall>r \<in> set (db_hosts (w_db w)). hi_MachineId hi \<noteq> [] \<and> hr_machine_id r = Some (hi_MachineId hi)
          \<and> hr_org_id r = tr_org_id tk \<longrightarrow> hid = hr_id r)"
proof -
  let ?tok = "eq_EnrollmentToken req" and ?t = "w_clock w (w_tick w)" and ?org = "tr_org_id tk"
  let ?hash = "HashHex (c_Sum256 c) ?tok" and ?pem = "c_pem_Encode c ''CERTIFICATE'' der"
  have tok: "?tok \<noteq> []" using assms(7) by (auto simp: ParseAndValidate_def)
  have d: "detect_reenroll p w = ((False, []), w)" using assms(3) by (simp add: detect_reenroll_def)
  have v: "validate_shape False req = None" using assms(4-6) tok by (simp add: validate_shape_def)
  obtain tid org d1 where cl0: "claim_token_sql ?hash ?t (w_db w) = Inr ((tid, org), d1)"
    using assms(8-10) claim_token_NoRows [of ?hash ?t "w_db w"]
    by (cases "claim_token_sql ?hash ?t (w_db w)") auto
  obtain tk' where tk': "tk' \<in> set (db_tokens (w_db w))" "tr_id tk' = tid" "tr_org_id tk' = org" "tr_token_hash tk' = ?hash"
    "token_usable ?t tk'" and d1: "d1 = (w_db w)\<lparr>db_tokens := db_tokens d1\<rparr>"
    using cl0 by (rule claim_token_row) auto
  then have "tk' = tk" using assms(10,11) by simp
  then have cl: "claim_token_sql ?hash ?t (w_db w) = Inr ((tr_id tk, ?org), d1)" using cl0 tk' by simp
  define w2 where "w2 = (tick w)\<lparr>w_db := d1\<rparr>"
  have au: "authenticate c False [] ?tok w = (Inr (tr_id tk, ?org), w2)"
    using assms(1,7) cl by (simp add: authenticate_first exec_stmt_NoFault w2_def)
  have dbs: "db_hosts d1 = db_hosts (w_db w)" "db_identities d1 = db_identities (w_db w)"
    using d1 by (metis db.select_convs(1,3) db.surjective db.update_convs(2))+
  have ok1: "db_ok (w_db w2)" using claim_token_db_ok [OF cl assms(2)] by (simp add: w2_def)
  have rs: "resolveHostID (hi_MachineId hi) ?org [] w2 = (hid, w3)" using host_ID au by simp
  have "goes_on w2 w3" "w_db w3 = w_db w2"
    using enroll_goes_on(3) [of w2 "hi_MachineId hi" ?org "[]"] resolveHostID_db [of "hi_MachineId hi" ?org "[]" w2] rs by simp_all
  then have w3: "w_db w3 = d1" "w_fault w3 = (\<lambda>_. NoFault)" "w_rand_fails w3 = (\<lambda>_. False)" "w_rand w3 = w_rand w"
      "w_clock w3 = w_clock w"
    using assms(1,13) by (simp_all add: w2_def goes_on_def)
  define w4 where "w4 = tick (tick (tick w3))"
  have ic: "IssueClient c a (eq_CsrPem req) hid clientCertTTL w3 = (Inr ?pem, w4)"
    unfolding w4_def
    by (rule IssueClient_run [OF assms(12)]) (simp add: w3, unfold w3 clientCertTTL_def, rule signed)
  have w4: "w_db w4 = d1" "w_fault w4 = (\<lambda>_. NoFault)" using w3 by (simp_all add: w4_def)
  let ?n = "host_to_row (enrolled_host hid ?org req hi (w_clock w4 (w_tick w4)))"
  have n: "machine_key ?n = (if hi_MachineId hi = [] then None else Some (hi_MachineId hi, ?org))" "hr_id ?n = hid"
    by (simp_all add: machine_key_def host_to_row_def enrolled_host_def non_empty_def)
  have nf2: "w_fault w2 (w_tick w2) = NoFault" using assms(1) by (simp add: w2_def)
  have machine: "\<not> violates_machine_uidx ?n (db_hosts d1)"
    "\<forall>r \<in> set (db_hosts d1). hi_MachineId hi \<noteq> [] \<and> hr_machine_id r = Some (hi_MachineId hi)
        \<and> hr_org_id r = ?org \<longrightarrow> hid = hr_id r"
    using resolveHostID_machine [OF nf2 ok1 rs n] by (simp_all add: w2_def)
  then obtain resp w' where rec: "record_enrollment c a (tr_id tk) ?org hid req hi ?pem w4 = (Inr resp, w')"
    "ep_AgentId resp = hid"
    using record_enrollment_ok [of w4 hid ?org req hi c ?pem a "tr_id tk"] w4 untaken dbs(2) by auto
  have en: "Enroll c a p req w = (Inr resp, w')"
    using d v au rs ic rec(1) assms(4) by (simp add: Enroll_def)
  have "tokens_evolve d1 (w_db w')"
    using evolution.record_enrollment_R [of w4 c a "tr_id tk" ?org hid req hi ?pem] rec(1) w4(1) by simp
  moreover have "tr_id tk \<in> used_token_ids d1" "db_ok d1"
    using claim_token_fresh [OF cl assms(2)] claim_token_db_ok [OF cl assms(2)] by simp_all
  ultimately have used: "tr_id tk \<in> used_token_ids (w_db w')" using used_token_ids_mono by blast
  obtain r' where "find_by hr_id hid (db_hosts (w_db w')) = Some r'" "hr_org_id r' = ?org"
    using enrolled_row [OF rec(1)] by blast
  moreover have "ep_CertPem resp = ?pem" using enrolled_row [OF rec(1)] by simp
  ultimately show ?thesis using en rec(2) used machine(2) dbs(1) by auto
qed

text \<open>C38: A first enrollment with a usable token but an unacceptable certificate request is refused with
  the reason, creates no host and no identity, and still uses the token up: presented again, at any
  later time, it is refused as already used.\<close>

theorem Enroll_bad_csr_burns_token:
  assumes "w_fault w = (\<lambda>_. NoFault)" "verified_leaf p = None"
    "eq_HostInfo req = Some hi" "hi_Hostname hi \<noteq> []" "eq_CsrPem req \<noteq> []"
    "ParseAndValidate (eq_EnrollmentToken req) = None"
    "tk \<in> set (db_tokens (w_db w))" "token_usable (w_clock w (w_tick w)) tk"
    "tr_token_hash tk = HashHex (c_Sum256 c) (eq_EnrollmentToken req)"
    "read_csr c (eq_CsrPem req) = Inl e"
  shows "\<exists>w'. Enroll c a p req w = (Inl (Status InvalidArgument (''CSR rejected: '' @ error_text e)), w')
    \<and> db_hosts (w_db w') = db_hosts (w_db w) \<and> db_identities (w_db w') = db_identities (w_db w)
    \<and> (\<forall>req2. eq_EnrollmentToken req2 = eq_EnrollmentToken req \<and> validate_shape False req2 = None
          \<and> w_clock w (w_tick w') \<ge> w_clock w (w_tick w) \<longrightarrow>
        (\<exists>w2. Enroll c a p req2 w' =
           (Inl (Status Unauthenticated ''invalid, expired, or already-used enrollment token''), w2)
           \<and> w_db w2 = w_db w'))"
proof -
  let ?tok = "eq_EnrollmentToken req" and ?t = "w_clock w (w_tick w)"
  let ?hash = "HashHex (c_Sum256 c) ?tok"
  have tok: "?tok \<noteq> []" using assms(6) by (auto simp: ParseAndValidate_def)
  have d: "detect_reenroll p v = ((False, []), v)" for v using assms(2) by (simp add: detect_reenroll_def)
  have v: "validate_shape False req = None" using assms(3-5) tok by (simp add: validate_shape_def)
  obtain tid org d1 where cl: "claim_token_sql ?hash ?t (w_db w) = Inr ((tid, org), d1)"
    using assms(7-9) claim_token_NoRows [of ?hash ?t "w_db w"]
    by (cases "claim_token_sql ?hash ?t (w_db w)") auto
  define w2 where "w2 = (tick w)\<lparr>w_db := d1\<rparr>"
  have au: "authenticate c False [] ?tok w = (Inr (tid, org), w2)"
    using assms(1,6) cl by (simp add: authenticate_first exec_stmt_NoFault w2_def)
  define w3 where "w3 = snd (resolveHostID (hi_MachineId hi) org [] w2)"
  obtain hid where rs: "resolveHostID (hi_MachineId hi) org [] w2 = (hid, w3)"
    unfolding w3_def by (metis prod.collapse)
  have w3: "w_db w3 = d1" "w_fault w3 = (\<lambda>_. NoFault)" "w_clock w3 = w_clock w"
    using assms(1) by (simp_all add: w3_def w2_def)
  have run: "Enroll c a p req w = (Inl (Status InvalidArgument (''CSR rejected: '' @ error_text e)), w3)"
    using d v au rs assms(3,10) by (simp add: Enroll_def IssueClient_def)
  have d1: "d1 = (w_db w)\<lparr>db_tokens := db_tokens d1\<rparr>"
    using cl by (rule claim_token_row) simp
  have later: "claim_token_sql ?hash t' d1 = Inl NoRows" if "t' \<ge> ?t" for t'
    using cl that by (rule claim_token_spent)
  have "\<exists>w4. Enroll c a p req2 w3 =
      (Inl (Status Unauthenticated ''invalid, expired, or already-used enrollment token''), w4) \<and> w_db w4 = w_db w3"
    if r: "eq_EnrollmentToken req2 = ?tok" "validate_shape False req2 = None"
      "w_clock w (w_tick w3) \<ge> ?t" for req2
  proof -
    obtain hi2 where "eq_HostInfo req2 = Some hi2" using r(2) by (auto simp: validate_shape_def split: option.splits if_splits)
    with r d assms(6) w3 later show ?thesis
      by (simp add: Enroll_def authenticate_first exec_stmt_NoFault)
  qed
  moreover have "db_hosts d1 = db_hosts (w_db w)" "db_identities d1 = db_identities (w_db w)"
    using d1 by (metis db.select_convs(1,3) db.surjective db.update_convs(2))+
  ultimately show ?thesis using run w3(1) by auto
qed

text \<open>C39: Re-enrollment does not look at the identities: a host all of whose certificates have been
  revoked renews over a connection with any certificate for it that has not expired, a revoked one
  too, without a token, and gets the new certificate under its old ID, recorded as an identity that is
  not revoked. Needed are only that the one new certificate can be signed and its fingerprint is
  not that of an unrevoked identity, that no other host of the organisation has the reported machine,
  and no faults.\<close>

theorem Enroll_renews_revoked:
  assumes "w_fault w = (\<lambda>_. NoFault)" "verified_leaf p = Some leaf"
    "ct_NotAfter (crt_Fields leaf) > w_clock w (w_tick w)" "ct_CommonName (crt_Fields leaf) = h" "h \<noteq> []"
    "find_by hr_id h (db_hosts (w_db w)) = Some r"
    "\<forall>i \<in> set (db_identities (w_db w)). ir_host_id i = h \<longrightarrow> ir_revoked_at i \<noteq> None"
    "eq_HostInfo req = Some hi" "hi_Hostname hi \<noteq> []" "eq_CsrPem req \<noteq> []" "eq_EnrollmentToken req = []"
    "\<forall>r' \<in> set (db_hosts (w_db w)). hr_id r' \<noteq> h \<and> hr_org_id r' = hr_org_id r \<longrightarrow>
       hr_machine_id r' \<noteq> non_empty (hi_MachineId hi) \<or> hr_machine_id r' = None"
    "read_csr c (eq_CsrPem req) = Inr k" "w_rand_fails w = (\<lambda>_. False)"
    and signed: "c_CreateCertificate c
        (client_template (big_SetBytes (map (w_rand w (w_tick w + 2)) [0..<16])) h
           (w_clock w (w_tick w + 3) - time_Minute) (w_clock w (w_tick w + 4) + 24 * time_Hour))
        (crt_Fields (ca_rootCert a)) (csr_PublicKey k) (ca_rootKey a) = Inr der"
    and untaken: "\<forall>i \<in> set (db_identities (w_db w)). ir_revoked_at i = None \<longrightarrow>
        ir_cert_fingerprint i \<noteq> certFingerprint c (c_pem_Encode c ''CERTIFICATE'' der)"
  shows "\<exists>resp w'. Enroll c a p req w = (Inr resp, w') \<and> ep_AgentId resp = h
    \<and> ep_CertPem resp = c_pem_Encode c ''CERTIFICATE'' der
    \<and> (\<exists>i \<in> set (db_identities (w_db w')). ir_host_id i = h \<and> ir_cert_pem i = ep_CertPem resp \<and> ir_revoked_at i = None)"
proof -
  let ?w = "tick (tick w)" and ?pem = "c_pem_Encode c ''CERTIFICATE'' der"
  have d: "detect_reenroll p w = ((True, h), tick w)"
    using assms(2-4) by (simp add: detect_reenroll_True)
  have v: "validate_shape True req = None" using assms(8-10) by (simp add: validate_shape_def)
  have au: "authenticate c True h (eq_EnrollmentToken req) (tick w) = (Inr ([], hr_org_id r), ?w)"
    using assms(1,6) by (simp add: authenticate_def exec_query_NoFault key_row_def)
  have rs: "resolveHostID (hi_MachineId hi) (hr_org_id r) h ?w = (h, ?w)"
    using assms(5) by (simp add: resolveHostID_def)
  define w4 where "w4 = tick (tick (tick ?w))"
  have ic: "IssueClient c a (eq_CsrPem req) h clientCertTTL ?w = (Inr ?pem, w4)"
    unfolding w4_def
    by (rule IssueClient_run [OF assms(13)])
       (use signed assms(14) in \<open>simp_all add: clientCertTTL_def numeral_eq_Suc del: upt_rec_numeral\<close>)
  have w4: "w_db w4 = w_db w" "w_fault w4 = (\<lambda>_. NoFault)" using assms(1) by (simp_all add: w4_def)
  let ?n = "host_to_row (enrolled_host h (hr_org_id r) req hi (w_clock w4 (w_tick w4)))"
  have "\<not> violates_machine_uidx ?n (db_hosts (w_db w4))"
    using assms(12) w4(1) by (auto simp: violates_machine_uidx_def machine_key_def host_to_row_def enrolled_host_def)
  then obtain resp w' where rec: "record_enrollment c a [] (hr_org_id r) h req hi ?pem w4 = (Inr resp, w')"
    "ep_AgentId resp = h"
    using record_enrollment_ok [of w4 h "hr_org_id r" req hi c ?pem a "[]"] w4 untaken by auto
  have "Enroll c a p req w = (Inr resp, w')"
    using d v au rs ic rec assms(8) by (simp add: Enroll_def)
  moreover have "ep_CertPem resp = ?pem" using enrolled_row [OF rec(1)] by simp
  moreover have "\<exists>i \<in> set (db_identities (w_db w')). ir_host_id i = h \<and> ir_cert_pem i = ?pem \<and> ir_revoked_at i = None"
    using enrolled_row [OF rec(1)] by blast
  ultimately show ?thesis using rec(2) by auto
qed

subsection \<open>Concrete enrollments\<close>

definition demo_token :: string where "demo_token = format_plain (replicate 25 0)"

definition demo_info :: host_info where
  "demo_info = \<lparr>hi_Hostname = ''web-1'', hi_Os = ''linux'', hi_OsVersion = [], hi_Kernel = ''6.8'', hi_Arch = ''amd64'',
     hi_CpuCores = 4, hi_MemoryBytes = 1024, hi_MachineId = [], hi_IpAddresses = None, hi_Labels = None\<rparr>"

definition demo_request :: enroll_request where
  "demo_request = \<lparr>eq_EnrollmentToken = demo_token, eq_CsrPem = demo_encode ''CERTIFICATE REQUEST'' [],
     eq_HostInfo = Some demo_info, eq_AgentVersion = ''1.0''\<rparr>"

definition demo_enroll_crypto :: crypto where
  "demo_enroll_crypto = demo_crypto [(client_template 0 ''ULID-2'' (4000 - time_Minute) (5000 + clientCertTTL), demo_key)]"

definition demo_row :: token_row where
  "demo_row = sample_token\<lparr>tr_token_hash := HashHex (c_Sum256 demo_enroll_crypto) demo_token\<rparr>"

definition demo_db :: db where
  "demo_db = empty_db\<lparr>db_tokens := [demo_row]\<rparr>"

lemma demo_db_ok: "db_ok demo_db"
  by (simp add: demo_db_def db_ok_def empty_db_def hosts_ok_def identities_ok_def refs_ok_def
      demo_row_def sample_token_def)

lemma demo_token_valid: "ParseAndValidate demo_token = None" "demo_token \<noteq> []"
  by (simp_all add: demo_token_def ParseAndValidate_format_plain) (simp add: format_plain_def Let_def)

lemma demo_row_fields:
  "tr_token_hash demo_row = HashHex (c_Sum256 demo_enroll_crypto) demo_token" "tr_id demo_row = ''T1''"
  "tr_org_id demo_row = ''default''" "t < 900000000000 \<Longrightarrow> token_usable t demo_row"
  by (simp_all add: demo_row_def sample_token_def token_usable_def)

lemma demo_read_csr:
  "read_csr (demo_crypto L) (demo_encode ''CERTIFICATE REQUEST'' b) =
     Inr \<lparr>csr_CommonName = ''someone-else'', csr_PublicKey = demo_key, csr_Extensions = []\<rparr>"
  by (simp add: read_csr_def demo_crypto_def demo_decode_encode key_error_def demo_key_def)

lemma demo_claim:
  "claim_token_sql (HashHex (c_Sum256 demo_enroll_crypto) demo_token) 0 demo_db =
     Inr ((''T1'', ''default''), demo_db\<lparr>db_tokens := [demo_row\<lparr>tr_used_at := Some 0\<rparr>]\<rparr>)"
  by (simp add: claim_token_sql_def demo_db_def demo_row_fields update_where_def)

lemma demo_resolve:
  "resolveHostID [] org [] (calm_at n d) = (''ULID-'' @ nat_digits (Suc n), calm_at (Suc (Suc n)) d)"
  by (simp add: resolveHostID_def fresh_ulid_def calm_steps)

lemma demo_ulid: "''ULID-'' @ nat_digits (Suc (Suc 0)) = ''ULID-2''"
  by (subst nat_digits.simps) (simp add: digit_char_def char_of_def bit_0)

lemma demo_issue:
  "IssueClient demo_enroll_crypto demo_ca (demo_encode ''CERTIFICATE REQUEST'' []) ''ULID-2'' clientCertTTL
     (calm_at (Suc (Suc (Suc 0))) d) = (Inr (demo_encode ''CERTIFICATE'' []), calm_at 6 d)"
  by (simp add: IssueClient_def demo_enroll_crypto_def demo_read_csr calm_simps)
     (simp add: demo_crypto_def numeral_eq_Suc)

lemma demo_record:
  "\<exists>resp w'. record_enrollment demo_enroll_crypto demo_ca ''T1'' ''default'' ''ULID-2'' demo_request demo_info
      (demo_encode ''CERTIFICATE'' []) (calm_at 6 (demo_db\<lparr>db_tokens := [demo_row\<lparr>tr_used_at := Some 0\<rparr>]\<rparr>))
    = (Inr resp, w') \<and> ep_AgentId resp = ''ULID-2''"
  by (rule record_enrollment_ok) (simp_all add: demo_db_def empty_db_def violates_machine_uidx_def)

lemma demo_enroll:
  "\<exists>resp w'. Enroll demo_enroll_crypto demo_ca NoPeer demo_request (calm_world demo_db) = (Inr resp, w')
     \<and> ep_AgentId resp = ''ULID-2''"
proof -
  let ?d = "demo_db\<lparr>db_tokens := [demo_row\<lparr>tr_used_at := Some 0\<rparr>]\<rparr>"
  have "authenticate demo_enroll_crypto False [] demo_token (calm_at 0 demo_db)
      = (Inr (''T1'', ''default''), calm_at (Suc 0) ?d)"
    by (simp add: authenticate_first demo_token_valid calm_exec demo_claim)
  moreover have "detect_reenroll NoPeer (calm_at 0 demo_db) = ((False, []), calm_at 0 demo_db)"
    by (simp add: detect_reenroll_def verified_leaf_def)
  moreover have "validate_shape False demo_request = None"
    by (simp add: validate_shape_def demo_request_def demo_token_valid demo_info_def demo_encode_def)
  ultimately show ?thesis
    using demo_record demo_resolve [of "''default''" "Suc 0" ?d] demo_ulid
    by (simp add: Enroll_def calm_world_at demo_request_def demo_info_def demo_issue)
qed

theorem Enroll_authorized_witness:
  "\<exists>resp w'. Enroll demo_enroll_crypto demo_ca NoPeer demo_request (calm_world demo_db) = (Inr resp, w')
     \<and> (\<exists>tk \<in> set (db_tokens demo_db). tr_id tk \<in> used_token_ids (w_db w'))"
proof -
  obtain resp w' where run: "Enroll demo_enroll_crypto demo_ca NoPeer demo_request (calm_world demo_db) = (Inr resp, w')"
    using demo_enroll by blast
  have "db_ok (w_db (calm_world demo_db))" using demo_db_ok by (simp add: calm_world_at)
  from Enroll_authorized [OF run this] run show ?thesis
    by (auto simp: verified_leaf_def calm_world_at)
qed

theorem Enroll_records_witness:
  "\<exists>resp w' r. Enroll demo_enroll_crypto demo_ca NoPeer demo_request (calm_world demo_db) = (Inr resp, w')
     \<and> find_by hr_id ''ULID-2'' (db_hosts (w_db w')) = Some r \<and> hr_hostname r = ''web-1''"
proof -
  obtain resp w' where run: "Enroll demo_enroll_crypto demo_ca NoPeer demo_request (calm_world demo_db) = (Inr resp, w')"
    and id: "ep_AgentId resp = ''ULID-2''" using demo_enroll by blast
  have "crypto_ok demo_enroll_crypto" by (simp add: demo_enroll_crypto_def demo_crypto_ok)
  from Enroll_records [OF this run] obtain hi r where "eq_HostInfo demo_request = Some hi"
    "find_by hr_id (ep_AgentId resp) (db_hosts (w_db w')) = Some r" "hr_hostname r = hi_Hostname hi"
    by blast
  moreover have "eq_HostInfo demo_request = Some demo_info" "hi_Hostname demo_info = ''web-1''"
    by (simp_all add: demo_request_def demo_info_def)
  ultimately show ?thesis using run id by auto
qed

lemma calm_serial: "big_SetBytes (map (w_rand (calm_at n d) k) [0..<16]) = 0"
  by (simp add: calm_at_def calm_world_def map_replicate_const big_SetBytes_zero del: upt_rec_numeral)

text \<open>The one certificate that \<open>demo_enroll_crypto\<close> signs is enough.\<close>

theorem Enroll_first_accepts_witness:
  "\<exists>resp w'. Enroll demo_enroll_crypto demo_ca NoPeer demo_request (calm_world demo_db) = (Inr resp, w')
     \<and> ep_AgentId resp = ''ULID-2'' \<and> ''T1'' \<in> used_token_ids (w_db w')"
proof -
  let ?d = "demo_db\<lparr>db_tokens := [demo_row\<lparr>tr_used_at := Some 0\<rparr>]\<rparr>"
  let ?csr = "\<lparr>csr_CommonName = ''someone-else'', csr_PublicKey = demo_key, csr_Extensions = []\<rparr>"
  have au: "snd (authenticate demo_enroll_crypto False [] (eq_EnrollmentToken demo_request) (calm_at 0 demo_db)) = calm_at (Suc 0) ?d"
    by (simp add: authenticate_first demo_request_def demo_token_valid calm_exec demo_claim)
  have id: "resolveHostID (hi_MachineId demo_info) (tr_org_id demo_row) []
      (snd (authenticate demo_enroll_crypto False [] (eq_EnrollmentToken demo_request) (calm_at 0 demo_db))) = (''ULID-2'', calm_at 3 ?d)"
    using demo_resolve [of "tr_org_id demo_row" "Suc 0" ?d] demo_ulid unfolding au by (simp add: demo_info_def numeral_3_eq_3)
  have csr: "read_csr demo_enroll_crypto (eq_CsrPem demo_request) = Inr ?csr"
    by (simp add: demo_request_def demo_enroll_crypto_def demo_read_csr)
  have signed: "c_CreateCertificate demo_enroll_crypto
      (client_template (big_SetBytes (map (w_rand (calm_at 0 demo_db) (w_tick (calm_at 3 ?d))) [0..<16])) ''ULID-2''
         (w_clock (calm_at 0 demo_db) (w_tick (calm_at 3 ?d) + 1) - time_Minute)
         (w_clock (calm_at 0 demo_db) (w_tick (calm_at 3 ?d) + 2) + 24 * time_Hour))
      (crt_Fields (ca_rootCert demo_ca)) (csr_PublicKey ?csr) (ca_rootKey demo_ca) = Inr []"
    unfolding calm_serial by (simp add: demo_enroll_crypto_def demo_crypto_def clientCertTTL_def)
  have "\<exists>resp w' r'. Enroll demo_enroll_crypto demo_ca NoPeer demo_request (calm_at 0 demo_db) = (Inr resp, w') \<and> ep_AgentId resp = ''ULID-2''
    \<and> ep_CertPem resp = c_pem_Encode demo_enroll_crypto ''CERTIFICATE'' [] \<and> tr_id demo_row \<in> used_token_ids (w_db w')
    \<and> find_by hr_id ''ULID-2'' (db_hosts (w_db w')) = Some r' \<and> hr_org_id r' = tr_org_id demo_row
    \<and> (\<forall>r \<in> set (db_hosts (w_db (calm_at 0 demo_db))). hi_MachineId demo_info \<noteq> [] \<and> hr_machine_id r = Some (hi_MachineId demo_info)
          \<and> hr_org_id r = tr_org_id demo_row \<longrightarrow> ''ULID-2'' = hr_id r)"
  proof (rule Enroll_first_accepts [OF _ _ _ _ _ _ _ _ _ _ _ csr _ id signed])
    show "db_ok (w_db (calm_at 0 demo_db))" using demo_db_ok by simp
    show "demo_row \<in> set (db_tokens (w_db (calm_at 0 demo_db)))" by (simp add: demo_db_def)
    show "token_usable (w_clock (calm_at 0 demo_db) (w_tick (calm_at 0 demo_db))) demo_row" by (simp add: demo_row_fields)
  qed (simp_all add: verified_leaf_def demo_request_def demo_info_def demo_token_valid demo_encode_def demo_row_fields
      demo_db_def empty_db_def)
  then show ?thesis by (auto simp: calm_world_at demo_row_fields)
qed

definition refusing_request :: enroll_request where
  "refusing_request = demo_request\<lparr>eq_CsrPem := ''junk''\<rparr>"

theorem Enroll_bad_csr_burns_token_witness:
  "\<exists>w' w2. Enroll demo_enroll_crypto demo_ca NoPeer refusing_request (calm_world demo_db)
       = (Inl (Status InvalidArgument ''CSR rejected: ca: invalid CSR PEM''), w')
     \<and> Enroll demo_enroll_crypto demo_ca NoPeer demo_request w'
       = (Inl (Status Unauthenticated ''invalid, expired, or already-used enrollment token''), w2)"
proof -
  have "\<exists>w'. Enroll demo_enroll_crypto demo_ca NoPeer refusing_request (calm_world demo_db) =
      (Inl (Status InvalidArgument (''CSR rejected: '' @ error_text (ErrorText ''ca: invalid CSR PEM''))), w')
    \<and> db_hosts (w_db w') = db_hosts (w_db (calm_world demo_db))
    \<and> db_identities (w_db w') = db_identities (w_db (calm_world demo_db))
    \<and> (\<forall>req2. eq_EnrollmentToken req2 = eq_EnrollmentToken refusing_request \<and> validate_shape False req2 = None
          \<and> w_clock (calm_world demo_db) (w_tick w') \<ge> w_clock (calm_world demo_db) (w_tick (calm_world demo_db)) \<longrightarrow>
        (\<exists>w2. Enroll demo_enroll_crypto demo_ca NoPeer req2 w' =
           (Inl (Status Unauthenticated ''invalid, expired, or already-used enrollment token''), w2)
           \<and> w_db w2 = w_db w'))"
  proof (rule Enroll_bad_csr_burns_token)
    show "read_csr demo_enroll_crypto (eq_CsrPem refusing_request) = Inl (ErrorText ''ca: invalid CSR PEM'')"
      by (simp add: read_csr_def refusing_request_def demo_enroll_crypto_def demo_crypto_def)
    show "eq_HostInfo refusing_request = Some demo_info" "hi_Hostname demo_info \<noteq> []"
      "eq_CsrPem refusing_request \<noteq> []" "ParseAndValidate (eq_EnrollmentToken refusing_request) = None"
      by (simp_all add: refusing_request_def demo_request_def demo_info_def demo_token_valid)
    show "demo_row \<in> set (db_tokens (w_db (calm_world demo_db)))"
      "token_usable (w_clock (calm_world demo_db) (w_tick (calm_world demo_db))) demo_row"
      "tr_token_hash demo_row = HashHex (c_Sum256 demo_enroll_crypto) (eq_EnrollmentToken refusing_request)"
      by (simp_all add: calm_world_at demo_db_def demo_row_fields refusing_request_def demo_request_def)
  qed (simp_all add: calm_world_at verified_leaf_def)
  moreover have "eq_EnrollmentToken demo_request = eq_EnrollmentToken refusing_request"
    "validate_shape False demo_request = None"
    by (simp_all add: refusing_request_def demo_request_def validate_shape_def demo_info_def demo_token_valid
        demo_encode_def)
  ultimately show ?thesis by (auto simp: calm_world_at)
qed

definition demo_leaf :: certificate where
  "demo_leaf = \<lparr>crt_Fields = client_template 0 ''H1'' 0 time_Hour, crt_PublicKey = demo_key, crt_Raw = []\<rparr>"

text \<open>The certificate of the only identity of H1 was revoked; another host has a live one.\<close>

definition revoked_db :: db where
  "revoked_db = empty_db\<lparr>db_hosts := [plain_host ''H1'', plain_host ''H2''], db_identities :=
     [\<lparr>ir_id = 1, ir_host_id = ''H1'', ir_cert_pem = [], ir_cert_fingerprint = [], ir_issued_at = 0, ir_expires_at = 9,
        ir_revoked_at = Some 1, ir_revoked_reason = Some ''stolen''\<rparr>,
      \<lparr>ir_id = 2, ir_host_id = ''H2'', ir_cert_pem = [], ir_cert_fingerprint = ''a0'', ir_issued_at = 0, ir_expires_at = 9,
        ir_revoked_at = None, ir_revoked_reason = None\<rparr>]\<rparr>"

definition renew_crypto :: crypto where
  "renew_crypto = demo_crypto [(client_template 0 ''H1'' (3000 - time_Minute) (4000 + clientCertTTL), demo_key)]"

theorem Enroll_renews_revoked_witness:
  "\<exists>resp w'. Enroll renew_crypto demo_ca (TLSInfo [[demo_leaf]]) (demo_request\<lparr>eq_EnrollmentToken := []\<rparr>)
      (calm_world revoked_db) = (Inr resp, w') \<and> ep_AgentId resp = ''H1''"
proof -
  let ?w = "calm_at 0 revoked_db" and ?req = "demo_request\<lparr>eq_EnrollmentToken := []\<rparr>"
  let ?csr = "\<lparr>csr_CommonName = ''someone-else'', csr_PublicKey = demo_key, csr_Extensions = []\<rparr>"
  have csr: "read_csr renew_crypto (eq_CsrPem ?req) = Inr ?csr" by (simp add: demo_request_def renew_crypto_def demo_read_csr)
  have signed: "c_CreateCertificate renew_crypto
      (client_template (big_SetBytes (map (w_rand ?w (w_tick ?w + 2)) [0..<16])) ''H1''
         (w_clock ?w (w_tick ?w + 3) - time_Minute) (w_clock ?w (w_tick ?w + 4) + 24 * time_Hour))
      (crt_Fields (ca_rootCert demo_ca)) (csr_PublicKey ?csr) (ca_rootKey demo_ca) = Inr []"
    unfolding calm_serial by (simp add: renew_crypto_def demo_crypto_def clientCertTTL_def)
  have fp: "certFingerprint renew_crypto (c_pem_Encode renew_crypto ''CERTIFICATE'' []) = []"
    by (simp add: certFingerprint_def renew_crypto_def demo_crypto_def demo_decode_encode hex_bytes_def)
  have "\<exists>resp w'. Enroll renew_crypto demo_ca (TLSInfo [[demo_leaf]]) ?req ?w = (Inr resp, w') \<and> ep_AgentId resp = ''H1''
    \<and> ep_CertPem resp = c_pem_Encode renew_crypto ''CERTIFICATE'' []
    \<and> (\<exists>i \<in> set (db_identities (w_db w')). ir_host_id i = ''H1'' \<and> ir_cert_pem i = ep_CertPem resp \<and> ir_revoked_at i = None)"
  proof (rule Enroll_renews_revoked [OF _ _ _ _ _ _ _ _ _ _ _ _ csr _ signed])
    show "verified_leaf (TLSInfo [[demo_leaf]]) = Some demo_leaf" by (simp add: verified_leaf_def)
    show "find_by hr_id ''H1'' (db_hosts (w_db ?w)) = Some (plain_host ''H1'')"
      by (simp add: revoked_db_def plain_host_def)
    show "eq_HostInfo ?req = Some demo_info" by (simp add: demo_request_def)
  qed (simp_all add: fp demo_leaf_def client_template_def time_units demo_request_def demo_info_def
      demo_encode_def plain_host_def revoked_db_def)
  then show ?thesis unfolding calm_world_at by blast
qed

end
