(* ===== verification/RateLimit.thy ===== *)
theory RateLimit
  imports World
begin

text \<open>
  \<open>internal/command/ratelimit.go\<close>: at most 60 commands per host in a window of five minutes.
  The window starts with the first command after the previous one has ended; a bucket counts the
  commands of its window. \<open>Allow\<close> takes the instant \<open>time.Now()\<close> read; the mutex
  makes each call one step. A specification without buckets (\<open>windows\<close>) says the same.
\<close>

definition maxCommandsPerWindow :: int where "maxCommandsPerWindow = 60"
definition windowDuration :: duration where "windowDuration = 5 * time_Minute"

record hostBucket =
  hb_count :: int
  hb_reset :: instant

type_synonym limiter = "string \<Rightarrow> hostBucket option"

definition NewRateLimiter :: limiter where "NewRateLimiter = (\<lambda>_. None)"

definition limit_error :: go_error where
  "limit_error = ErrorText ''rate limit exceeded: max 60 commands per 5m0s per host''"

definition Allow :: "string \<Rightarrow> instant \<Rightarrow> limiter \<Rightarrow> go_error option \<times> limiter" where
  "Allow h now r =
     (case r h of
        None \<Rightarrow> (None, r(h \<mapsto> \<lparr>hb_count = 1, hb_reset = now + windowDuration\<rparr>))
      | Some b \<Rightarrow>
          if now > hb_reset b then (None, r(h \<mapsto> \<lparr>hb_count = 1, hb_reset = now + windowDuration\<rparr>))
          else if hb_count b \<ge> maxCommandsPerWindow then (Some limit_error, r)
          else (None, r(h \<mapsto> b\<lparr>hb_count := hb_count b + 1\<rparr>)))"

text \<open>The number of calls for \<open>h\<close> that a run of calls admits.\<close>

fun admitted :: "string \<Rightarrow> (string \<times> instant) list \<Rightarrow> limiter \<Rightarrow> nat" where
  "admitted h [] r = 0"
| "admitted h ((k, t) # cs) r =
     (case Allow k t r of (e, r') \<Rightarrow> (if k = h \<and> e = None then 1 else 0) + admitted h cs r')"

text \<open>The instants of the calls for one host.\<close>

definition calls_of :: "string \<Rightarrow> (string \<times> instant) list \<Rightarrow> instant list" where
  "calls_of h cs = map snd (filter (\<lambda>(k, t). k = h) cs)"

definition limiter_ok :: "limiter \<Rightarrow> bool" where
  "limiter_ok r \<longleftrightarrow> (\<forall>h b. r h = Some b \<longrightarrow> 1 \<le> hb_count b \<and> hb_count b \<le> maxCommandsPerWindow)"

lemma limiter_ok_new: "limiter_ok NewRateLimiter"
  by (simp add: limiter_ok_def NewRateLimiter_def)

lemma limiter_okD: "limiter_ok r \<Longrightarrow> r h = Some b \<Longrightarrow> 1 \<le> hb_count b \<and> hb_count b \<le> 60"
  by (simp add: limiter_ok_def maxCommandsPerWindow_def)

lemma Allow_ok: "limiter_ok r \<Longrightarrow> limiter_ok (snd (Allow h now r))"
  unfolding limiter_ok_def
proof (intro allI impI)
  fix k b assume r: "\<forall>h b. r h = Some b \<longrightarrow> 1 \<le> hb_count b \<and> hb_count b \<le> maxCommandsPerWindow"
    and b: "snd (Allow h now r) k = Some b"
  show "1 \<le> hb_count b \<and> hb_count b \<le> maxCommandsPerWindow"
  proof (cases "r h")
    case None
    with r b show ?thesis by (auto simp: Allow_def maxCommandsPerWindow_def split: if_splits)
  next
    case (Some x)
    with r have x: "1 \<le> hb_count x" "hb_count x \<le> maxCommandsPerWindow" by blast+
    show ?thesis
    proof (cases "k = h")
      case True
      with Some x b show ?thesis by (auto simp: Allow_def maxCommandsPerWindow_def split: if_splits)
    next
      case False
      with Some r b show ?thesis by (auto simp: Allow_def maxCommandsPerWindow_def split: if_splits)
    qed
  qed
qed

lemma Allow_other: "k \<noteq> h \<Longrightarrow> snd (Allow k now r) h = r h"
  by (auto simp: Allow_def split: option.splits)

text \<open>Within a window only what is left of its bucket is admitted.\<close>

lemma admitted_in_window:
  assumes "r h = Some b" "\<forall>(k, t) \<in> set cs. t \<le> hb_reset b" "hb_count b \<le> maxCommandsPerWindow"
  shows "int (admitted h cs r) \<le> maxCommandsPerWindow - hb_count b"
  using assms
proof (induction h cs r arbitrary: b rule: admitted.induct)
  case (1 h r)
  then show ?case by simp
next
  case (2 h k t cs r)
  obtain e r' where al: "Allow k t r = (e, r')" by (cases "Allow k t r")
  show ?case
  proof (cases "k = h")
    case False
    then have "r' h = Some b" using Allow_other [of k h t r] al "2.prems"(1) by simp
    then show ?thesis using "2.IH" [OF al [symmetric]] "2.prems" al False by simp
  next
    case True
    have "\<not> t > hb_reset b" using "2.prems"(2) by auto
    with al True "2.prems"(1) consider
        (full) "hb_count b \<ge> maxCommandsPerWindow" "e = Some limit_error" "r' = r"
      | (room) "hb_count b < maxCommandsPerWindow" "e = None" "r' = r(h \<mapsto> b\<lparr>hb_count := hb_count b + 1\<rparr>)"
      by (auto simp: Allow_def split: if_splits)
    then show ?thesis
    proof cases
      case full
      then show ?thesis using "2.IH" [OF al [symmetric], of b] "2.prems" al by simp
    next
      case room
      have "r' h = Some (b\<lparr>hb_count := hb_count b + 1\<rparr>)" using room(3) by simp
      from "2.IH" [OF al [symmetric] this] room(1) "2.prems"(2)
      have "int (admitted h cs r') \<le> maxCommandsPerWindow - (hb_count b + 1)" by simp
      then show ?thesis using al room(2) True by simp
    qed
  qed
qed

text \<open>Within five minutes a new window can start only once.\<close>

lemma admitted_short:
  assumes "\<forall>(k, t) \<in> set cs. a \<le> t \<and> t \<le> a + windowDuration"
    and "\<And>b. r h = Some b \<Longrightarrow> hb_count b \<le> maxCommandsPerWindow"
  shows "int (admitted h cs r) \<le>
    (case r h of None \<Rightarrow> maxCommandsPerWindow | Some b \<Rightarrow> 2 * maxCommandsPerWindow - hb_count b)"
  using assms
proof (induction h cs r rule: admitted.induct)
  case (1 h r)
  then show ?case by (auto simp: maxCommandsPerWindow_def split: option.splits)
next
  case (2 h k t cs r)
  obtain e r' where al: "Allow k t r = (e, r')" by (cases "Allow k t r")
  have t: "a \<le> t" using "2.prems"(1) by auto
  let ?new = "\<lparr>hb_count = 1, hb_reset = t + windowDuration\<rparr>"
  have fresh: "int (admitted h cs r') \<le> maxCommandsPerWindow - 1" if "r' h = Some ?new"
  proof -
    have "int (admitted h cs r') \<le> maxCommandsPerWindow - hb_count ?new"
      by (rule admitted_in_window) (use that "2.prems"(1) t in \<open>auto simp: maxCommandsPerWindow_def\<close>)
    then show ?thesis by simp
  qed
  show ?case
  proof (cases "k = h")
    case False
    then have "r' h = r h" using Allow_other [of k h t r] al by simp
    then show ?thesis using "2.IH" [OF al [symmetric]] "2.prems" al False by simp
  next
    case True
    then consider (new) "e = None" "r' h = Some ?new"
      | (full) b where "r h = Some b" "e = Some limit_error" "r' = r"
      | (room) b where "r h = Some b" "hb_count b < maxCommandsPerWindow" "e = None"
          "r' = r(h \<mapsto> b\<lparr>hb_count := hb_count b + 1\<rparr>)"
      using al by (auto simp: Allow_def split: option.splits if_splits)
    then show ?thesis
    proof cases
      case new
      then have "int (admitted h ((k, t) # cs) r) \<le> maxCommandsPerWindow" using fresh al True by simp
      then show ?thesis using "2.prems"(2) by (auto split: option.splits)
    next
      case full
      then show ?thesis using "2.IH" [OF al [symmetric]] "2.prems" al by simp
    next
      case room
      have h: "r' h = Some (b\<lparr>hb_count := hb_count b + 1\<rparr>)" using room(4) by simp
      have "int (admitted h cs r') \<le> 2 * maxCommandsPerWindow - (hb_count b + 1)"
        using "2.IH" [OF al [symmetric]] "2.prems"(1) h room(2) by simp
      then show ?thesis using al room(1,3) True by simp
    qed
  qed
qed

text \<open>When the first call of the host starts a window, as after a bucket that has expired, all the calls are
  in that window.\<close>

lemma admitted_starting:
  assumes "\<forall>(k, t) \<in> set cs. a \<le> t \<and> t \<le> a + windowDuration"
    and "\<forall>b t ts. r h = Some b \<longrightarrow> calls_of h cs = t # ts \<longrightarrow> hb_reset b < t"
  shows "int (admitted h cs r) \<le> maxCommandsPerWindow"
  using assms
proof (induction h cs r rule: admitted.induct)
  case (1 h r)
  then show ?case by (simp add: maxCommandsPerWindow_def)
next
  case (2 h k t cs r)
  obtain e r' where al: "Allow k t r = (e, r')" by (cases "Allow k t r")
  show ?case
  proof (cases "k = h")
    case False
    then have "r' h = r h" using Allow_other [of k h t r] al by simp
    then show ?thesis using "2.IH" [OF al [symmetric]] "2.prems" al False by (simp add: calls_of_def)
  next
    case True
    let ?new = "\<lparr>hb_count = 1, hb_reset = t + windowDuration\<rparr>"
    have "\<forall>b. r h = Some b \<longrightarrow> hb_reset b < t" using "2.prems"(2) True by (simp add: calls_of_def)
    then have new: "e = None" "r' h = Some ?new" using al True by (auto simp: Allow_def split: option.splits if_splits)
    have "int (admitted h cs r') \<le> maxCommandsPerWindow - hb_count ?new"
      by (rule admitted_in_window) (use new(2) "2.prems"(1) in \<open>auto simp: maxCommandsPerWindow_def\<close>)
    then show ?thesis using al True new(1) by simp
  qed
qed

text \<open>C25: The bound the limiter really gives: in a state it can be in, calls whose instants lie within
  five minutes admit at most 119 commands of a host, and at most 60 when the first of them for the
  host starts a window, because the host is new or its last window has ended; other hosts never share
  a bucket. (The limit of 60 holds per window, and windows start with their first command, so the end
  of one and the start of the next can lie together.)\<close>

theorem Allow_bound:
  assumes "limiter_ok r" "\<forall>(k, t) \<in> set cs. a \<le> t \<and> t \<le> a + windowDuration"
  shows "admitted h cs r \<le> 119
    \<and> (\<forall>b. r h = Some b \<longrightarrow> int (admitted h cs r) \<le> 120 - hb_count b)
    \<and> ((\<forall>b t ts. r h = Some b \<longrightarrow> calls_of h cs = t # ts \<longrightarrow> hb_reset b < t) \<longrightarrow> admitted h cs r \<le> 60)
    \<and> (\<forall>k now. k \<noteq> h \<longrightarrow> snd (Allow k now r) h = r h) \<and> (\<forall>k now. limiter_ok (snd (Allow k now r)))"
proof -
  have "int (admitted h cs r) \<le>
      (case r h of None \<Rightarrow> maxCommandsPerWindow | Some b \<Rightarrow> 2 * maxCommandsPerWindow - hb_count b)"
    using assms by (intro admitted_short) (auto simp: limiter_ok_def)
  then have "admitted h cs r \<le> 119 \<and> (\<forall>b. r h = Some b \<longrightarrow> int (admitted h cs r) \<le> 120 - hb_count b)"
    using limiter_okD [OF assms(1), of h] by (cases "r h") (auto simp: maxCommandsPerWindow_def)
  moreover have "admitted h cs r \<le> 60" if "\<forall>b t ts. r h = Some b \<longrightarrow> calls_of h cs = t # ts \<longrightarrow> hb_reset b < t"
    using admitted_starting [where a = a and cs = cs and r = r and h = h, OF assms(2) that]
    by (simp add: maxCommandsPerWindow_def)
  ultimately show ?thesis using assms(1) Allow_other Allow_ok by blast
qed

text \<open>A run that comes to 119: one command, 59 at the end of its window, 60 a nanosecond later.\<close>

definition burst :: "(string \<times> instant) list" where
  "burst = replicate 59 (''H1'', windowDuration) @ replicate 60 (''H1'', windowDuration + 1)"

lemma burst_run:
  "admitted ''H1'' burst (snd (Allow ''H1'' 0 NewRateLimiter)) = 119"
  by code_simp

theorem Allow_bound_witness:
  "admitted ''H1'' burst (snd (Allow ''H1'' 0 NewRateLimiter)) = 119
   \<and> admitted ''H1'' burst (snd (Allow ''H1'' 0 NewRateLimiter)) \<le> 119
   \<and> admitted ''H1'' (replicate 70 (''H1'', windowDuration + 1)) (snd (Allow ''H1'' 0 NewRateLimiter)) \<le> 60"
proof -
  let ?r = "snd (Allow ''H1'' 0 NewRateLimiter)" and ?late = "replicate 70 (''H1'', windowDuration + 1)"
  have ok: "limiter_ok ?r" by (rule Allow_ok [OF limiter_ok_new])
  have "\<forall>(k, t) \<in> set burst. 1 \<le> t \<and> t \<le> 1 + windowDuration"
    by (auto simp: burst_def windowDuration_def time_units)
  then have "admitted ''H1'' burst ?r \<le> 119" using Allow_bound [OF ok] by blast
  moreover have "admitted ''H1'' ?late ?r \<le> 60"
  proof -
    have "\<forall>(k, t) \<in> set ?late. windowDuration + 1 \<le> t \<and> t \<le> windowDuration + 1 + windowDuration"
      by (simp add: windowDuration_def time_units)
    moreover have "\<forall>b t ts. ?r ''H1'' = Some b \<longrightarrow> calls_of ''H1'' ?late = t # ts \<longrightarrow> hb_reset b < t"
      by (auto simp: Allow_def NewRateLimiter_def calls_of_def numeral_eq_Suc)
    ultimately show ?thesis using Allow_bound [OF ok] by blast
  qed
  ultimately show ?thesis using burst_run by blast
qed

subsection \<open>The limiter without its buckets\<close>

text \<open>The answers that the calls for one host get in a run of calls for any hosts.\<close>

fun decisions :: "string \<Rightarrow> (string \<times> instant) list \<Rightarrow> limiter \<Rightarrow> bool list" where
  "decisions h [] r = []"
| "decisions h ((k, t) # cs) r =
     (case Allow k t r of (e, r') \<Rightarrow> (if k = h then [e = None] else []) @ decisions h cs r')"

text \<open>The reference: cut the calls of the host into windows, each from a call to the last one within five
  minutes of it; in each window the first 60 are admitted.\<close>

function windows :: "instant list \<Rightarrow> instant list list" where
  "windows [] = []"
| "windows (t # ts) =
     (t # takeWhile (\<lambda>u. u \<le> t + windowDuration) ts) # windows (dropWhile (\<lambda>u. u \<le> t + windowDuration) ts)"
  by pat_completeness auto
termination by (relation "measure length") (auto simp: less_Suc_eq_le length_dropWhile_le)

definition window_answers :: "instant list \<Rightarrow> bool list" where
  "window_answers w = replicate (min (length w) 60) True @ replicate (length w - 60) False"

lemma Allow_local:
  assumes "r1 h = r2 h"
  shows "fst (Allow h t r1) = fst (Allow h t r2)" "snd (Allow h t r1) h = snd (Allow h t r2) h"
  using assms by (auto simp: Allow_def split: option.splits)

text \<open>Other hosts do not matter.\<close>

lemma decisions_local: "r1 h = r2 h \<Longrightarrow> decisions h cs r1 = decisions h (map (Pair h) (calls_of h cs)) r2"
proof (induction cs arbitrary: r1 r2)
  case (Cons c cs)
  obtain k t where c: "c = (k, t)" by (cases c)
  show ?case
  proof (cases "k = h")
    case True
    then show ?thesis
      using Cons.IH [of "snd (Allow h t r1)" "snd (Allow h t r2)"] Allow_local [of r1 h r2 t, OF Cons.prems]
      by (simp add: c calls_of_def split_def)
  next
    case False
    then have "snd (Allow k t r1) h = r2 h" using Allow_other [OF False] Cons.prems by simp
    then have "decisions h cs (snd (Allow k t r1)) = decisions h (map (Pair h) (calls_of h cs)) r2" by (rule Cons.IH)
    then show ?thesis using False by (simp add: c calls_of_def split_def)
  qed
qed (simp add: calls_of_def)

text \<open>The calls of a window after its first, and what comes then.\<close>

lemma decisions_window:
  assumes "r h = Some b" "\<forall>t \<in> set ts. t \<le> hb_reset b" "0 \<le> hb_count b" "hb_count b \<le> 60"
  shows "\<exists>r' b'. r' h = Some b' \<and> hb_reset b' = hb_reset b
    \<and> decisions h (map (Pair h) (ts @ us)) r =
        replicate (min (length ts) (nat (60 - hb_count b))) True @ replicate (length ts - nat (60 - hb_count b)) False
        @ decisions h (map (Pair h) us) r'"
  using assms
proof (induction ts arbitrary: r b)
  case Nil
  then show ?case by auto
next
  case (Cons t ts)
  show ?case
  proof (cases "hb_count b = 60")
    case True
    then have "Allow h t r = (Some limit_error, r)"
      using Cons.prems by (simp add: Allow_def maxCommandsPerWindow_def)
    then show ?thesis using Cons.IH [of r b] Cons.prems True by simp
  next
    case False
    let ?b = "b\<lparr>hb_count := hb_count b + 1\<rparr>"
    have al: "Allow h t r = (None, r(h \<mapsto> ?b))"
      using Cons.prems False by (simp add: Allow_def maxCommandsPerWindow_def)
    have "\<exists>r' b'. r' h = Some b' \<and> hb_reset b' = hb_reset ?b \<and> decisions h (map (Pair h) (ts @ us)) (r(h \<mapsto> ?b)) =
        replicate (min (length ts) (nat (60 - hb_count ?b))) True @ replicate (length ts - nat (60 - hb_count ?b)) False
        @ decisions h (map (Pair h) us) r'"
      by (rule Cons.IH) (use Cons.prems False in simp_all)
    then obtain r' b' where r': "r' h = Some b'" "hb_reset b' = hb_reset ?b"
      "decisions h (map (Pair h) (ts @ us)) (r(h \<mapsto> ?b)) =
        replicate (min (length ts) (nat (60 - hb_count ?b))) True @ replicate (length ts - nat (60 - hb_count ?b)) False
        @ decisions h (map (Pair h) us) r'" by blast
    have n: "nat (60 - hb_count b) = Suc (nat (60 - hb_count ?b))" using Cons.prems(4) False by simp
    show ?thesis using r' al by (intro exI [of _ r'] exI [of _ b']) (simp add: n)
  qed
qed

lemma decisions_windows:
  "(\<And>b t. r h = Some b \<Longrightarrow> ts \<noteq> [] \<Longrightarrow> hb_reset b < hd ts) \<Longrightarrow>
   decisions h (map (Pair h) ts) r = concat (map window_answers (windows ts))"
proof (induction ts arbitrary: r rule: windows.induct)
  case (2 t ts)
  let ?in = "\<lambda>u. u \<le> t + windowDuration" and ?b = "\<lparr>hb_count = 1, hb_reset = t + windowDuration\<rparr>"
  have al: "Allow h t r = (None, r(h \<mapsto> ?b))" using "2.prems" by (auto simp: Allow_def split: option.splits)
  obtain r' b' where r': "r' h = Some b'" "hb_reset b' = t + windowDuration"
    "decisions h (map (Pair h) (takeWhile ?in ts @ dropWhile ?in ts)) (r(h \<mapsto> ?b)) =
       replicate (min (length (takeWhile ?in ts)) 59) True @ replicate (length (takeWhile ?in ts) - 59) False
       @ decisions h (map (Pair h) (dropWhile ?in ts)) r'"
    using decisions_window [of "r(h \<mapsto> ?b)" h ?b "takeWhile ?in ts" "dropWhile ?in ts"]
    by (auto dest: set_takeWhileD)
  have "hb_reset b' < hd (dropWhile ?in ts)" if "dropWhile ?in ts \<noteq> []"
    using hd_dropWhile [OF that] r'(2) by simp
  then have "decisions h (map (Pair h) (dropWhile ?in ts)) r' = concat (map window_answers (windows (dropWhile ?in ts)))"
    using r'(1) by (intro "2.IH") auto
  moreover have "window_answers (t # takeWhile ?in ts) =
      True # replicate (min (length (takeWhile ?in ts)) 59) True @ replicate (length (takeWhile ?in ts) - 59) False"
    by (simp add: window_answers_def min_def numeral_eq_Suc)
  ultimately show ?case using al r'(3) by simp
qed simp

text \<open>C24: The limiter is equivalent to a specification without state: of the calls for a host, whatever calls for
  other hosts come between, cut into windows that each begin with a call and take in those within five
  minutes of it, the first 60 of each window are admitted and the others refused.\<close>

theorem Allow_reference:
  "decisions h cs NewRateLimiter = concat (map window_answers (windows (calls_of h cs)))"
proof -
  have "decisions h cs NewRateLimiter = decisions h (map (Pair h) (calls_of h cs)) NewRateLimiter"
    by (rule decisions_local) simp
  also have "\<dots> = concat (map window_answers (windows (calls_of h cs)))"
    by (rule decisions_windows) (simp add: NewRateLimiter_def)
  finally show ?thesis .
qed

end
