(* ===== verification/Registry.thy ===== *)
theory Registry
  imports Prelude "HOL-Library.AList"
begin

text \<open>
  \<open>internal/stream/registry.go\<close>: the live streams by host ID, and the interface that its clients
  (the command broker through \<open>StreamRegistry\<close>, the config push through \<open>Registry\<close>) see,
  as a locale. The Go map is an association list with distinct keys; a stream is its number. The
  mutex makes each method one step.
\<close>

subsection \<open>The interface\<close>

locale stream_registry =
  fixes lookup :: "'r \<Rightarrow> string \<Rightarrow> 's option"
    and add :: "string \<Rightarrow> 's \<Rightarrow> 'r \<Rightarrow> 'r"
    and remove :: "string \<Rightarrow> 'r \<Rightarrow> 'r"
    and count :: "'r \<Rightarrow> nat"
    and valid :: "'r \<Rightarrow> bool"
  assumes lookup_add: "lookup (add h s r) k = (if k = h then Some s else lookup r k)"
    and lookup_remove: "lookup (remove h r) k = (if k = h then None else lookup r k)"
    and valid_add: "valid r \<Longrightarrow> valid (add h s r)"
    and valid_remove: "valid r \<Longrightarrow> valid (remove h r)"
    and count_dom: "valid r \<Longrightarrow> count r = card (dom (lookup r))"
    and finite_dom: "valid r \<Longrightarrow> finite (dom (lookup r))"
begin

text \<open>\<open>Remove\<close> does not say which stream: a stale remove takes away the newer stream.\<close>

lemma stale_remove: "lookup (remove h (add h s2 (add h s1 r))) h = None"
  by (simp add: lookup_remove)

lemma add_overwrites: "lookup (add h s2 (add h s1 r)) = lookup (add h s2 r)"
  by (rule ext) (simp add: lookup_add)

lemma count_add: "valid r \<Longrightarrow> count (add h s r) = (if lookup r h = None then count r + 1 else count r)"
proof -
  assume v: "valid r"
  have d: "dom (lookup (add h s r)) = insert h (dom (lookup r))"
    by (auto simp: lookup_add split: if_splits)
  show ?thesis using v valid_add [OF v, of h s] finite_dom [OF v] d
    by (auto simp: count_dom insert_absorb domIff)
qed

end

subsection \<open>The implementation\<close>

type_synonym stream_id = nat
type_synonym registry = "(string \<times> stream_id) list"

definition NewRegistry :: registry where "NewRegistry = []"

definition registry_Add :: "string \<Rightarrow> stream_id \<Rightarrow> registry \<Rightarrow> registry" where
  "registry_Add h s r = AList.update h s r"

definition registry_Remove :: "string \<Rightarrow> registry \<Rightarrow> registry" where
  "registry_Remove h r = AList.delete h r"

definition registry_Get :: "registry \<Rightarrow> string \<Rightarrow> stream_id option" where
  "registry_Get r h = map_of r h"

definition registry_Count :: "registry \<Rightarrow> nat" where
  "registry_Count r = length r"

text \<open>\<open>GetSender\<close> and the broker's adapter give the same answer as \<open>Get\<close>.\<close>

definition registry_GetSender :: "registry \<Rightarrow> string \<Rightarrow> stream_id option" where
  "registry_GetSender r h = map_of r h"

definition adapter_Get :: "registry \<Rightarrow> string \<Rightarrow> stream_id option" where
  "adapter_Get r h = registry_GetSender r h"

definition registry_ok :: "registry \<Rightarrow> bool" where
  "registry_ok r \<longleftrightarrow> distinct (map fst r)"

interpretation reg: stream_registry registry_Get registry_Add registry_Remove registry_Count registry_ok
proof (unfold_locales, goal_cases)
  case (5 r)
  then have "card (fst ` set r) = length r"
    unfolding registry_ok_def by (metis distinct_card length_map list.set_map)
  moreover have "registry_Get r = map_of r" by (rule ext) (simp add: registry_Get_def)
  ultimately show ?case by (simp add: registry_Count_def dom_map_of_conv_image_fst)
next
  case (6 r)
  have "registry_Get r = map_of r" by (rule ext) (simp add: registry_Get_def)
  then show ?case by (simp add: finite_dom_map_of)
qed (auto simp: registry_Get_def registry_Add_def registry_Remove_def registry_ok_def update_conv' delete_conv'
    distinct_update distinct_delete)

interpretation sender: stream_registry adapter_Get registry_Add registry_Remove registry_Count registry_ok
proof (unfold_locales, goal_cases)
  case (5 r)
  have "adapter_Get r = registry_Get r"
    by (rule ext) (simp add: adapter_Get_def registry_GetSender_def registry_Get_def)
  with 5 show ?case by (simp add: reg.count_dom)
next
  case (6 r)
  have "adapter_Get r = registry_Get r"
    by (rule ext) (simp add: adapter_Get_def registry_GetSender_def registry_Get_def)
  with 6 show ?case by (simp add: reg.finite_dom)
qed (auto simp: adapter_Get_def registry_GetSender_def reg.lookup_add [unfolded registry_Get_def]
    reg.lookup_remove [unfolded registry_Get_def] reg.valid_add reg.valid_remove)

end
