(* ===== verification/Broker.thy ===== *)
theory Broker
  imports RateLimit Registry Effects
begin

text \<open>
  The state of the running server beside its tables, and the command broker of
  \<open>internal/command/broker.go\<close>. A \<open>server\<close> has the world, the registry, the limiter and the
  messages sent, in order, each with the stream it went to; whether a \<open>Send\<close> fails is an outcome
  by the number of the call. \<open>json.Marshal\<close> of a command request, whose type generated code
  gives, is the parameter \<open>marshal\<close>.
\<close>

datatype command_payload =
    DiagnosticCommand int "(string \<times> string) list option"
  | ShellCommand string "string list option"

record command_request =
  cq_Id :: string
  cq_Tier :: int
  cq_Reason :: string
  cq_IssuedBy :: string
  cq_TimeoutSeconds :: int
  cq_Command :: command_payload

record config_update =
  cu_ConfigVersion :: int
  cu_HeartbeatIntervalSeconds :: int
  cu_MetricCollectionIntervalSeconds :: int
  cu_LogSources :: "string list"

datatype server_message =
    CommandRequest command_request
  | ConfigUpdate config_update
  | Ping instant

record server =
  s_world :: world
  s_registry :: registry
  s_limiter :: limiter
  s_sent :: "(stream_id \<times> server_message) list"
  s_sends :: nat
  s_send_error :: "nat \<Rightarrow> string option"

definition on_store :: "(world \<Rightarrow> 'a \<times> world) \<Rightarrow> server \<Rightarrow> 'a \<times> server" where
  "on_store m s = (case m (s_world s) of (r, w) \<Rightarrow> (r, s\<lparr>s_world := w\<rparr>))"

definition stream_Send :: "stream_id \<Rightarrow> server_message \<Rightarrow> server \<Rightarrow> go_error option \<times> server" where
  "stream_Send st msg s =
     (case s_send_error s (s_sends s) of
        Some e \<Rightarrow> (Some (ErrorText e), s\<lparr>s_sends := Suc (s_sends s)\<rparr>)
      | None \<Rightarrow> (None, s\<lparr>s_sends := Suc (s_sends s), s_sent := s_sent s @ [(st, msg)]\<rparr>))"

subsection \<open>Issue and HandleResult\<close>

datatype command_input = Known command_payload | UnknownType string

record issue_request =
  iq_HostID :: string
  iq_Tier :: int
  iq_Reason :: string
  iq_IssuedBy :: string
  iq_Timeout :: int
  iq_Command :: command_input

definition pending_row :: "string \<Rightarrow> issue_request \<Rightarrow> json \<Rightarrow> command_row" where
  "pending_row k req cmdJSON =
     \<lparr>xr_id = k, xr_host_id = iq_HostID req, xr_tier = iq_Tier req, xr_command_json = cmdJSON,
      xr_reason = iq_Reason req, xr_issued_by = iq_IssuedBy req, xr_issued_at = 0, xr_completed_at = None,
      xr_exit_code = None, xr_stdout = None, xr_stderr = None, xr_stdout_truncated = False,
      xr_stderr_truncated = False, xr_duration_ms = None, xr_error = None, xr_status = []\<rparr>"

definition build_request :: "string \<Rightarrow> issue_request \<Rightarrow> command_payload \<Rightarrow> command_request" where
  "build_request k req p =
     \<lparr>cq_Id = k, cq_Tier = iq_Tier req, cq_Reason = iq_Reason req, cq_IssuedBy = iq_IssuedBy req,
      cq_TimeoutSeconds = iq_Timeout req, cq_Command = p\<rparr>"

text \<open>The push of a stored command to the agent, the last part of \<open>Issue\<close>.\<close>

definition push_command :: "string \<Rightarrow> command_request \<Rightarrow> server \<Rightarrow> (string \<times> go_error option) \<times> server" where
  "push_command h cr s =
     (case adapter_Get (s_registry s) h of
        None \<Rightarrow> ((cq_Id cr, Some (ErrorText (''command broker: host '' @ h @
                   '' not connected (command queued with id '' @ cq_Id cr @ '')''))), s)
      | Some st \<Rightarrow>
          (case stream_Send st (CommandRequest cr) s of
             (Some e, s1) \<Rightarrow> ((cq_Id cr, Some (Wrapped (''command broker: send to '' @ h) e)), s1)
           | (None, s1) \<Rightarrow> ((cq_Id cr, None), s1)))"

definition Issue ::
  "(command_request \<Rightarrow> string + json) \<Rightarrow> issue_request \<Rightarrow> server \<Rightarrow> (string \<times> go_error option) \<times> server" where
  "Issue marshal req s =
     (let (now, s1) = on_store go_now s
      in case Allow (iq_HostID req) now (s_limiter s1) of
           (Some e, lim) \<Rightarrow> (([], Some (Wrapped ''command broker'' e)), s1\<lparr>s_limiter := lim\<rparr>)
         | (None, lim) \<Rightarrow>
             (let (_, s2) = on_store go_now (s1\<lparr>s_limiter := lim\<rparr>); (k, s3) = on_store new_ulid s2
              in case iq_Command req of
                   UnknownType t \<Rightarrow>
                     (([], Some (ErrorText (''command broker: unknown command type '' @ t))), s3)
                 | Known p \<Rightarrow>
                     (case marshal (build_request k req p) of
                        Inl e \<Rightarrow> (([], Some (Wrapped ''command broker: marshal'' (ErrorText e))), s3)
                      | Inr cmdJSON \<Rightarrow>
                          (case on_store (command_Insert (pending_row k req cmdJSON)) s3 of
                             (Inl e, s4) \<Rightarrow> (([], Some (Wrapped ''command broker: store'' e)), s4)
                           | (Inr _, s4) \<Rightarrow> push_command (iq_HostID req) (build_request k req p) s4))))"

record command_result =
  cs_CommandId :: string
  cs_ExitCode :: int
  cs_Stdout :: string
  cs_Stderr :: string
  cs_StdoutTruncated :: bool
  cs_StderrTruncated :: bool
  cs_DurationMs :: int
  cs_Error :: string

definition HandleResult :: "command_result \<Rightarrow> world \<Rightarrow> world" where
  "HandleResult r w =
     snd (command_Complete (cs_CommandId r) (cs_ExitCode r) (cs_Stdout r) (cs_Stderr r) (cs_StdoutTruncated r)
            (cs_StderrTruncated r) (cs_DurationMs r) (cs_Error r) w)"

subsection \<open>What Issue does\<close>

lemma on_store_simps [simp]:
  "s_registry (snd (on_store m s)) = s_registry s" "s_limiter (snd (on_store m s)) = s_limiter s"
  "s_sent (snd (on_store m s)) = s_sent s" "s_sends (snd (on_store m s)) = s_sends s"
  "s_send_error (snd (on_store m s)) = s_send_error s" "s_world (snd (on_store m s)) = snd (m (s_world s))"
  "fst (on_store m s) = fst (m (s_world s))"
  by (auto simp: on_store_def split: prod.splits)

lemma stream_Send_world [simp]: "s_world (snd (stream_Send st m s)) = s_world s"
  by (simp add: stream_Send_def split: option.splits)

lemma push_command_world [simp]: "s_world (snd (push_command h cr s)) = s_world s"
  using stream_Send_world by (auto simp: push_command_def stream_Send_def split: option.splits)

text \<open>The four ways \<open>Issue\<close> can end before the push, and the push.\<close>

lemma Issue_cases:
  assumes "Issue marshal req s = ((k, e), s')"
  obtains (early) "k = []" "e \<noteq> None" "s_sent s' = s_sent s" "s_registry s' = s_registry s"
      "w_db (s_world s') = w_db (s_world s)"
  | (store) c x where "k = []" "e \<noteq> None" "s_sent s' = s_sent s" "s_registry s' = s_registry s"
      "s_world s' = snd (command_Insert c x)" "w_db x = w_db (s_world s)" "w_fault x = w_fault (s_world s)"
      "\<exists>er. fst (command_Insert c x) = Inl er"
  | (push) p j s4 x where "iq_Command req = Known p" "marshal (build_request (cq_Id (build_request k req p)) req p) = Inr j"
      "command_Insert (pending_row k req j) x = (Inr (), s_world s4)" "w_db x = w_db (s_world s)"
      "s_sent s4 = s_sent s" "s_registry s4 = s_registry s" "s_send_error s4 = s_send_error s" "s_sends s4 = s_sends s"
      "push_command (iq_HostID req) (build_request k req p) s4 = ((k, e), s')"
      "k = w_ulid (s_world s) (Suc (Suc (w_tick (s_world s))))"
proof -
  define s1 where "s1 = snd (on_store go_now s)"
  obtain e0 lim where al: "Allow (iq_HostID req) (w_clock (s_world s) (w_tick (s_world s))) (s_limiter s1) = (e0, lim)"
    by (metis surj_pair)
  have now: "on_store go_now s = (w_clock (s_world s) (w_tick (s_world s)), s1)"
    by (simp add: s1_def on_store_def go_now_def)
  have w1: "s_world s1 = tick (s_world s)" "s_sent s1 = s_sent s" "s_registry s1 = s_registry s"
    "s_send_error s1 = s_send_error s" "s_sends s1 = s_sends s"
    by (simp_all add: s1_def) (simp add: go_now_def)
  define s3 where "s3 = s1\<lparr>s_limiter := lim, s_world := tick (tick (s_world s1))\<rparr>"
  define kk where "kk = w_ulid (s_world s) (Suc (Suc (w_tick (s_world s))))"
  have u: "on_store new_ulid (snd (on_store go_now (s1\<lparr>s_limiter := lim\<rparr>))) = (kk, s3)"
    by (simp add: on_store_def go_now_def new_ulid_def s3_def kk_def w1)
  have w3: "w_db (s_world s3) = w_db (s_world s)" "w_fault (s_world s3) = w_fault (s_world s)" "s_sent s3 = s_sent s" "s_registry s3 = s_registry s"
    "s_send_error s3 = s_send_error s" "s_sends s3 = s_sends s" by (simp_all add: s3_def w1)
  show ?thesis
  proof (cases e0)
    case (Some er)
    with assms now al have "k = []" "e \<noteq> None" "s' = s1\<lparr>s_limiter := lim\<rparr>" by (auto simp: Issue_def)
    then show ?thesis using w1 by (intro early) simp_all
  next
    case None
    note run = assms [unfolded Issue_def now Let_def split_def fst_conv snd_conv al None option.case prod.case u]
    show ?thesis
    proof (cases "iq_Command req")
      case (UnknownType t)
      with run al None u w3 show ?thesis by (intro early) (auto simp: split_def)
    next
      case (Known p)
      show ?thesis
      proof (cases "marshal (build_request kk req p)")
        case (Inl er)
        with run al None u Known w3 show ?thesis by (intro early) (auto simp: split_def)
      next
        case (Inr j)
        obtain r w4 where ins: "command_Insert (pending_row kk req j) (s_world s3) = (r, w4)" by (metis surj_pair)
        let ?s4 = "s3\<lparr>s_world := w4\<rparr>"
        show ?thesis
        proof (cases r)
          case (Inl er)
          with run al None u Known Inr ins have "k = []" "e \<noteq> None" "s' = ?s4"
            by (auto simp: split_def on_store_def)
          then show ?thesis using w3 ins Inl by (intro store [of "pending_row kk req j" "s_world s3"]) simp_all
        next
          case (Inr x)
          with run al None u Known \<open>marshal (build_request kk req p) = Inr j\<close> ins
          have pu: "push_command (iq_HostID req) (build_request kk req p) ?s4 = ((k, e), s')"
            by (auto simp: split_def on_store_def)
          then have "k = kk"
            by (auto simp: push_command_def build_request_def split: option.splits prod.splits)
          then show ?thesis
            using push [of p j "s_world s3" ?s4] Known \<open>marshal (build_request kk req p) = Inr j\<close> ins Inr pu w3
            by (simp add: kk_def build_request_def)
        qed
      qed
    qed
  qed
qed

lemma push_command_result:
  assumes "push_command h cr s = ((k, e), s')"
  shows "k = cq_Id cr \<and> s_registry s' = s_registry s
    \<and> (e = None \<longrightarrow> (\<exists>st. adapter_Get (s_registry s) h = Some st \<and> s_sent s' = s_sent s @ [(st, CommandRequest cr)]))
    \<and> (e \<noteq> None \<longrightarrow> s_sent s' = s_sent s)
    \<and> (e = None \<longleftrightarrow> adapter_Get (s_registry s) h \<noteq> None \<and> s_send_error s (s_sends s) = None)"
  using assms by (auto simp: push_command_def stream_Send_def split: option.splits)

lemma Issue_sent:
  assumes "Issue marshal req s = ((k, None), s')"
  shows "\<exists>st p. adapter_Get (s_registry s) (iq_HostID req) = Some st \<and> iq_Command req = Known p
    \<and> s_sent s' = s_sent s @ [(st, CommandRequest (build_request k req p))]"
  using assms
proof (cases rule: Issue_cases)
  case (push p j s4 x)
  then show ?thesis using push_command_result [OF push(9)] by metis
qed simp_all

lemma command_Insert_stored:
  assumes "command_Insert c w = (Inr (), w')"
  shows "\<exists>r. find_by xr_id (xr_id c) (db_commands (w_db w')) = Some r \<and> xr_host_id r = xr_host_id c
    \<and> xr_status r = ''pending'' \<and> xr_tier r = xr_tier c \<and> xr_command_json r = xr_command_json c
    \<and> xr_reason r = xr_reason c \<and> xr_issued_by r = xr_issued_by c \<and> xr_completed_at r = None"
proof -
  have i: "insert_command_sql c (w_clock w (w_tick w)) (w_db w) = Inr ((), w_db w')"
    using assms by (simp add: command_Insert_def exec_stmt_Inr)
  then have "find_by xr_id (xr_id c) (db_commands (w_db w)) = None"
    by (simp add: insert_command_sql_def find_by_None split: if_splits)
  then show ?thesis by (simp add: insert_command_rows [OF i] find_by_append)
qed

lemma command_Insert_Inl:
  assumes "fst (command_Insert c w) = Inl e" "w_fault w = (\<lambda>_. NoFault)"
  shows "w_db (snd (command_Insert c w)) = w_db w"
  using assms by (auto simp: command_Insert_def exec_stmt_NoFault wrap_err_def split: sum.splits prod.splits)

text \<open>What \<open>Issue\<close> reports is what happened. No error: the command is stored as pending with the
  request's data, and exactly one message, that command, went to the stream registered for the
  host. An error with an ID: it is stored all the same and nothing was sent. An error without an
  ID: nothing was sent and, without a fault of the database, nothing was stored.\<close>

lemma Issue_result:
  assumes "Issue marshal req s = ((k, e), s')" "w_ulid (s_world s) (w_tick (s_world s) + 2) \<noteq> []"
  shows "(e = None \<longrightarrow> k \<noteq> [] \<and> (\<exists>st p. adapter_Get (s_registry s) (iq_HostID req) = Some st \<and> iq_Command req = Known p
            \<and> s_sent s' = s_sent s @ [(st, CommandRequest (build_request k req p))]))
    \<and> (e \<noteq> None \<longrightarrow> s_sent s' = s_sent s)
    \<and> (k \<noteq> [] \<longrightarrow> (\<exists>r p. find_by xr_id k (db_commands (w_db (s_world s'))) = Some r \<and> xr_host_id r = iq_HostID req
            \<and> xr_status r = ''pending'' \<and> xr_tier r = iq_Tier req \<and> xr_reason r = iq_Reason req
            \<and> xr_issued_by r = iq_IssuedBy req \<and> iq_Command req = Known p
            \<and> marshal (build_request k req p) = Inr (xr_command_json r)))
    \<and> (k = [] \<and> w_fault (s_world s) = (\<lambda>_. NoFault) \<longrightarrow> w_db (s_world s') = w_db (s_world s))"
  using assms(1)
proof (cases rule: Issue_cases)
  case early
  then show ?thesis by simp
next
  case (store c x)
  then show ?thesis using command_Insert_Inl [of c x] by auto
next
  case (push p j s4 x)
  have pr: "s_registry s' = s_registry s4" "k = cq_Id (build_request k req p)"
    using push_command_result [OF push(9)] by simp_all
  have k: "k \<noteq> []" using push(10) assms(2) by (simp add: numeral_2_eq_2)
  have "s_world s' = s_world s4"
    using push(9) push_command_world [of "iq_HostID req" "build_request k req p" s4] by simp
  then have stored: "\<exists>r. find_by xr_id k (db_commands (w_db (s_world s'))) = Some r \<and> xr_host_id r = iq_HostID req
    \<and> xr_status r = ''pending'' \<and> xr_tier r = iq_Tier req \<and> xr_command_json r = j
    \<and> xr_reason r = iq_Reason req \<and> xr_issued_by r = iq_IssuedBy req"
    using command_Insert_stored [OF push(3)] by (simp add: pending_row_def) blast
  have "marshal (build_request k req p) = Inr j"
    using push(2) by (simp add: build_request_def)
  then show ?thesis
    using stored push(1,5,6) k push_command_result [OF push(9)] by auto
qed

text \<open>What goes out for a command that was given an ID: the command, if its host is registered and the Send
  succeeds, and nothing otherwise.\<close>

definition pushed :: "issue_request \<Rightarrow> string \<Rightarrow> command_payload \<Rightarrow> server \<Rightarrow> (stream_id \<times> server_message) list" where
  "pushed req k p s =
     (case adapter_Get (s_registry s) (iq_HostID req) of
        None \<Rightarrow> []
      | Some st \<Rightarrow> if s_send_error s (s_sends s) = None then [(st, CommandRequest (build_request k req p))] else [])"

lemma Issue_pushed:
  assumes "Issue marshal req s = ((k, e), s')" "k \<noteq> []" "iq_Command req = Known p"
  shows "s_sent s' = s_sent s @ pushed req k p s"
  using assms(1)
proof (cases rule: Issue_cases)
  case (push q j s4 x)
  then have "q = p" using assms(3) by simp
  with push push_command_result [OF push(9)] show ?thesis
    by (cases "adapter_Get (s_registry s) (iq_HostID req)") (auto simp: pushed_def)
qed (use assms(2) in simp_all)

text \<open>A command over the host's limit is refused before anything happens: no ID, nothing stored,
  nothing sent, and the buckets stay as they are.\<close>

theorem Issue_rate_limited:
  assumes "s_limiter s (iq_HostID req) = Some b" "hb_count b \<ge> 60" "w_clock (s_world s) (w_tick (s_world s)) \<le> hb_reset b"
  shows "Issue marshal req s =
     (([], Some (Wrapped ''command broker'' limit_error)), s\<lparr>s_world := tick (s_world s)\<rparr>)"
  using assms
  by (simp add: Issue_def on_store_def go_now_def Allow_def maxCommandsPerWindow_def)

text \<open>A result is recorded by its command ID alone: whoever sends it, it completes the command of
  whatever host has that ID, and a command already completed is completed again, so that the
  first result is lost.\<close>

theorem HandleResult_any_command:
  assumes "w_fault w (w_tick w) = NoFault" "in_i32 (cs_ExitCode r)"
    "find_by xr_id (cs_CommandId r) (db_commands (w_db w)) = Some x"
  shows "\<exists>x'. find_by xr_id (cs_CommandId r) (db_commands (w_db (HandleResult r w))) = Some x'
     \<and> xr_host_id x' = xr_host_id x \<and> xr_stdout x' = Some (cs_Stdout r) \<and> xr_exit_code x' = Some (cs_ExitCode r)
     \<and> xr_status x' = (if cs_Error r \<noteq> [] then ''failed'' else ''completed'')"
proof -
  let ?st = "if cs_Error r \<noteq> [] then ''failed'' else ''completed''"
  let ?f = "\<lambda>x. x\<lparr>xr_completed_at := Some (w_clock w (w_tick w)), xr_exit_code := Some (cs_ExitCode r),
      xr_stdout := Some (cs_Stdout r), xr_stderr := Some (cs_Stderr r), xr_stdout_truncated := cs_StdoutTruncated r,
      xr_stderr_truncated := cs_StderrTruncated r, xr_duration_ms := Some (cs_DurationMs r),
      xr_error := nullif_empty (cs_Error r), xr_status := ?st\<rparr>"
  have "db_commands (w_db (HandleResult r w)) =
      update_where (\<lambda>x. xr_id x = cs_CommandId r) ?f (db_commands (w_db w))"
    using assms(1,2)
    by (simp add: HandleResult_def command_Complete_def Let_def exec_stmt_NoFault complete_command_sql_def complete_status_def)
  moreover have "find_by xr_id (cs_CommandId r) (update_where (\<lambda>x. xr_id x = cs_CommandId r) ?f (db_commands (w_db w)))
      = map_option (\<lambda>x. if xr_id x = cs_CommandId r then ?f x else x) (Some x)"
    unfolding assms(3) [symmetric] by (rule find_by_update_where) simp
  moreover have "xr_id x = cs_CommandId r" using assms(3) by (blast dest: find_by_SomeD)
  ultimately show ?thesis by simp
qed

subsection \<open>Concrete commands\<close>

definition demo_server :: "command_row list \<Rightarrow> server" where
  "demo_server cs = \<lparr>s_world = calm_world (empty_db\<lparr>db_hosts := [plain_host ''H1''], db_commands := cs\<rparr>),
     s_registry = [(''H1'', 7)], s_limiter = NewRateLimiter, s_sent = [], s_sends = 0, s_send_error = (\<lambda>_. None)\<rparr>"

definition demo_issue_request :: issue_request where
  "demo_issue_request = \<lparr>iq_HostID = ''H1'', iq_Tier = 1, iq_Reason = ''check'', iq_IssuedBy = ''ops'', iq_Timeout = 30,
     iq_Command = Known (DiagnosticCommand 1 None)\<rparr>"

lemma demo_issue_run:
  "\<exists>k s'. Issue (\<lambda>_. Inr (JObj [])) demo_issue_request (demo_server []) = ((k, None), s')"
  by (simp add: Issue_def demo_server_def demo_issue_request_def on_store_def calm_simps Allow_def NewRateLimiter_def
      command_Insert_def insert_command_sql_def pending_row_def in_i32_def empty_db_def host_exists_def
      plain_host_def wrap_err_def push_command_def adapter_Get_def registry_GetSender_def stream_Send_def)

theorem Issue_rate_limited_witness:
  "\<exists>s'. Issue (\<lambda>_. Inr (JObj [])) demo_issue_request
       ((demo_server [])\<lparr>s_limiter := [''H1'' \<mapsto> \<lparr>hb_count = 60, hb_reset = 9\<rparr>]\<rparr>)
     = (([], Some (Wrapped ''command broker'' limit_error)), s') \<and> s_sent s' = []"
  using Issue_rate_limited [of "(demo_server [])\<lparr>s_limiter := [''H1'' \<mapsto> \<lparr>hb_count = 60, hb_reset = 9\<rparr>]\<rparr>"
      demo_issue_request "\<lparr>hb_count = 60, hb_reset = 9\<rparr>" "\<lambda>_. Inr (JObj [])"]
  by (simp add: demo_server_def demo_issue_request_def calm_simps)

definition demo_result :: command_result where
  "demo_result = \<lparr>cs_CommandId = ''C1'', cs_ExitCode = 0, cs_Stdout = ''forged'', cs_Stderr = [],
     cs_StdoutTruncated = False, cs_StderrTruncated = False, cs_DurationMs = 1, cs_Error = []\<rparr>"

theorem HandleResult_any_command_witness:
  "\<exists>x'. find_by xr_id ''C1'' (db_commands (w_db (HandleResult demo_result
        (calm_world (empty_db\<lparr>db_commands := [sample_command\<lparr>xr_status := ''completed'', xr_stdout := Some ''real''\<rparr>]\<rparr>))))) = Some x'
     \<and> xr_host_id x' = ''H1'' \<and> xr_stdout x' = Some ''forged''"
proof -
  let ?x = "sample_command\<lparr>xr_status := ''completed'', xr_stdout := Some ''real''\<rparr>"
  let ?w = "calm_world (empty_db\<lparr>db_commands := [?x]\<rparr>)"
  have "\<exists>x'. find_by xr_id (cs_CommandId demo_result) (db_commands (w_db (HandleResult demo_result ?w))) = Some x'
     \<and> xr_host_id x' = xr_host_id ?x \<and> xr_stdout x' = Some (cs_Stdout demo_result)
     \<and> xr_exit_code x' = Some (cs_ExitCode demo_result)
     \<and> xr_status x' = (if cs_Error demo_result \<noteq> [] then ''failed'' else ''completed'')"
    by (rule HandleResult_any_command) (simp_all add: calm_simps demo_result_def sample_command_def in_i32_def)
  moreover have "cs_CommandId demo_result = ''C1''" "cs_Stdout demo_result = ''forged''" "xr_host_id ?x = ''H1''"
    by (simp_all add: demo_result_def sample_command_def)
  ultimately show ?thesis by auto
qed

end
