(* ===== verification/JsonBody.thy ===== *)
theory JsonBody
  imports World "HOL-Library.AList"
begin

text \<open>
  The request bodies of the REST API (\<open>internal/api/response.go\<close>) and how
  \<open>json.NewDecoder(r.Body).Decode\<close> fills them in. A body is the first JSON value of the text,
  numbers written as integers apart from the others; what is no JSON is \<open>None\<close> where a body is
  decoded. The decoder matches a member to a field by the folded name, sets fields in the order of the
  members, decodes a repeated member into what the field already holds, takes \<open>null\<close> for a
  scalar as nothing, and fails as a whole when some member has a value of the wrong kind.
\<close>

datatype body =
    BNull
  | BBool bool
  | BInt int
  | BReal string
  | BStr string
  | BArr "body list"
  | BObj "(string \<times> body) list"

text \<open>\<open>foldName\<close>: letters in upper case; two letters outside ASCII fold to ASCII, the long s
  (C5 BF) and the Kelvin sign (E2 84 AA).\<close>

definition upper_char :: "char \<Rightarrow> char" where
  "upper_char c = (let n = of_char c in if (97::nat) \<le> n \<and> n \<le> 122 then char_of (n - 32) else c)"

fun fold_name :: "string \<Rightarrow> string" where
  "fold_name (c # d # e # cs) =
     (if c = CHR 0xC5 \<and> d = CHR 0xBF then CHR ''S'' # fold_name (e # cs)
      else if c = CHR 0xE2 \<and> d = CHR 0x84 \<and> e = CHR 0xAA then CHR ''K'' # fold_name cs
      else upper_char c # fold_name (d # e # cs))"
| "fold_name [c, d] =
     (if c = CHR 0xC5 \<and> d = CHR 0xBF then ''S'' else [upper_char c, upper_char d])"
| "fold_name [c] = [upper_char c]"
| "fold_name [] = []"

definition is_field :: "string \<Rightarrow> string \<Rightarrow> bool" where
  "is_field name key \<longleftrightarrow> fold_name key = fold_name name"

fun decode_members :: "(string \<Rightarrow> body \<Rightarrow> 'a \<Rightarrow> 'a option) \<Rightarrow> (string \<times> body) list \<Rightarrow> 'a \<Rightarrow> 'a option" where
  "decode_members field [] r = Some r"
| "decode_members field ((k, v) # ms) r =
     (case field k v r of None \<Rightarrow> None | Some r' \<Rightarrow> decode_members field ms r')"

fun decode_struct :: "(string \<Rightarrow> body \<Rightarrow> 'a \<Rightarrow> 'a option) \<Rightarrow> body \<Rightarrow> 'a \<Rightarrow> 'a option" where
  "decode_struct field BNull r = Some r"
| "decode_struct field (BObj ms) r = decode_members field ms r"
| "decode_struct field _ r = None"

fun decode_ptr :: "(string \<Rightarrow> body \<Rightarrow> 'a \<Rightarrow> 'a option) \<Rightarrow> 'a \<Rightarrow> body \<Rightarrow> 'a option \<Rightarrow> 'a option option" where
  "decode_ptr field zero BNull p = Some None"
| "decode_ptr field zero (BObj ms) p =
     map_option Some (decode_members field ms (case p of None \<Rightarrow> zero | Some r \<Rightarrow> r))"
| "decode_ptr field zero _ p = None"

fun decode_string :: "body \<Rightarrow> string \<Rightarrow> string option" where
  "decode_string (BStr s) old = Some s"
| "decode_string BNull old = Some old"
| "decode_string _ old = None"

fun decode_int :: "(int \<Rightarrow> bool) \<Rightarrow> body \<Rightarrow> int \<Rightarrow> int option" where
  "decode_int in_range (BInt i) old = (if in_range i then Some i else None)"
| "decode_int in_range BNull old = Some old"
| "decode_int in_range _ old = None"

fun decode_map_members :: "(string \<times> body) list \<Rightarrow> (string \<times> string) list \<Rightarrow> (string \<times> string) list option" where
  "decode_map_members [] m = Some m"
| "decode_map_members ((k, v) # ms) m =
     (case decode_string v [] of None \<Rightarrow> None | Some s \<Rightarrow> decode_map_members ms (AList.update k s m))"

fun decode_map :: "body \<Rightarrow> (string \<times> string) list option \<Rightarrow> (string \<times> string) list option option" where
  "decode_map BNull m = Some None"
| "decode_map (BObj ms) m = map_option Some (decode_map_members ms (case m of None \<Rightarrow> [] | Some l \<Rightarrow> l))"
| "decode_map _ m = None"

text \<open>A slice: its elements, and what the array under it still holds past its length, which a
  \<open>null\<close> element of a repeated member brings back.\<close>

record slice_of_strings =
  sl_elems :: "string list"
  sl_stale :: "string list"

fun decode_elems :: "body list \<Rightarrow> string list \<Rightarrow> string list option" where
  "decode_elems [] slots = Some []"
| "decode_elems (v # vs) slots =
     (case decode_string v (case slots of [] \<Rightarrow> [] | s # _ \<Rightarrow> s) of
        None \<Rightarrow> None
      | Some s \<Rightarrow> map_option ((#) s) (decode_elems vs (tl slots)))"

fun decode_slice :: "body \<Rightarrow> slice_of_strings option \<Rightarrow> slice_of_strings option option" where
  "decode_slice BNull p = Some None"
| "decode_slice (BArr []) p = Some (Some \<lparr>sl_elems = [], sl_stale = []\<rparr>)"
| "decode_slice (BArr vs) p =
     (let slots = (case p of None \<Rightarrow> [] | Some s \<Rightarrow> sl_elems s @ sl_stale s)
      in map_option (\<lambda>xs. Some \<lparr>sl_elems = xs, sl_stale = drop (length xs) slots\<rparr>) (decode_elems vs slots))"
| "decode_slice _ p = None"

subsection \<open>The two request structs\<close>

record IssueTokenRequest =
  it_Label :: string
  it_TTLSeconds :: int

definition token_field :: "string \<Rightarrow> body \<Rightarrow> IssueTokenRequest \<Rightarrow> IssueTokenRequest option" where
  "token_field k v r =
     (if is_field ''label'' k then map_option (\<lambda>s. r\<lparr>it_Label := s\<rparr>) (decode_string v (it_Label r))
      else if is_field ''ttl_seconds'' k
      then map_option (\<lambda>i. r\<lparr>it_TTLSeconds := i\<rparr>) (decode_int in_i64 v (it_TTLSeconds r))
      else Some r)"

definition decode_token_request :: "body option \<Rightarrow> IssueTokenRequest option" where
  "decode_token_request b =
     (case b of None \<Rightarrow> None | Some v \<Rightarrow> decode_struct token_field v \<lparr>it_Label = [], it_TTLSeconds = 0\<rparr>)"

record DiagnosticCommandJSON =
  dj_Check :: string
  dj_Params :: "(string \<times> string) list option"

record ShellCommandJSON =
  sj_Binary :: string
  sj_Args :: "slice_of_strings option"

record IssueCommandRequest =
  ic_HostID :: string
  ic_Tier :: int
  ic_Reason :: string
  ic_IssuedBy :: string
  ic_TimeoutSeconds :: int
  ic_Diagnostic :: "DiagnosticCommandJSON option"
  ic_Shell :: "ShellCommandJSON option"

definition diagnostic_field :: "string \<Rightarrow> body \<Rightarrow> DiagnosticCommandJSON \<Rightarrow> DiagnosticCommandJSON option" where
  "diagnostic_field k v r =
     (if is_field ''check'' k then map_option (\<lambda>s. r\<lparr>dj_Check := s\<rparr>) (decode_string v (dj_Check r))
      else if is_field ''params'' k then map_option (\<lambda>m. r\<lparr>dj_Params := m\<rparr>) (decode_map v (dj_Params r))
      else Some r)"

definition shell_field :: "string \<Rightarrow> body \<Rightarrow> ShellCommandJSON \<Rightarrow> ShellCommandJSON option" where
  "shell_field k v r =
     (if is_field ''binary'' k then map_option (\<lambda>s. r\<lparr>sj_Binary := s\<rparr>) (decode_string v (sj_Binary r))
      else if is_field ''args'' k then map_option (\<lambda>a. r\<lparr>sj_Args := a\<rparr>) (decode_slice v (sj_Args r))
      else Some r)"

definition command_field :: "string \<Rightarrow> body \<Rightarrow> IssueCommandRequest \<Rightarrow> IssueCommandRequest option" where
  "command_field k v r =
     (if is_field ''host_id'' k then map_option (\<lambda>s. r\<lparr>ic_HostID := s\<rparr>) (decode_string v (ic_HostID r))
      else if is_field ''tier'' k then map_option (\<lambda>i. r\<lparr>ic_Tier := i\<rparr>) (decode_int in_i64 v (ic_Tier r))
      else if is_field ''reason'' k then map_option (\<lambda>s. r\<lparr>ic_Reason := s\<rparr>) (decode_string v (ic_Reason r))
      else if is_field ''issued_by'' k then map_option (\<lambda>s. r\<lparr>ic_IssuedBy := s\<rparr>) (decode_string v (ic_IssuedBy r))
      else if is_field ''timeout_seconds'' k
      then map_option (\<lambda>i. r\<lparr>ic_TimeoutSeconds := i\<rparr>) (decode_int in_i32 v (ic_TimeoutSeconds r))
      else if is_field ''diagnostic'' k
      then map_option (\<lambda>d. r\<lparr>ic_Diagnostic := d\<rparr>)
             (decode_ptr diagnostic_field \<lparr>dj_Check = [], dj_Params = None\<rparr> v (ic_Diagnostic r))
      else if is_field ''shell'' k
      then map_option (\<lambda>d. r\<lparr>ic_Shell := d\<rparr>)
             (decode_ptr shell_field \<lparr>sj_Binary = [], sj_Args = None\<rparr> v (ic_Shell r))
      else Some r)"

definition decode_command_request :: "body option \<Rightarrow> IssueCommandRequest option" where
  "decode_command_request b =
     (case b of None \<Rightarrow> None
      | Some v \<Rightarrow> decode_struct command_field v \<lparr>ic_HostID = [], ic_Tier = 0, ic_Reason = [], ic_IssuedBy = [],
          ic_TimeoutSeconds = 0, ic_Diagnostic = None, ic_Shell = None\<rparr>)"

fun_cases decode_intE: "decode_int P v old = Some i"

text \<open>What is decoded is in the range of its Go type.\<close>

lemma decode_members_keeps:
  assumes "\<And>k v r r'. field k v r = Some r' \<Longrightarrow> I r \<Longrightarrow> I r'"
  shows "decode_members field ms r = Some r' \<Longrightarrow> I r \<Longrightarrow> I r'"
proof (induction ms arbitrary: r)
  case (Cons kv ms)
  obtain k v where [simp]: "kv = (k, v)" by (cases kv)
  from Cons.prems obtain r1 where "field k v r = Some r1" "decode_members field ms r1 = Some r'"
    by (auto split: option.splits)
  with Cons.IH Cons.prems(2) assms show ?case by blast
qed simp

lemma decode_struct_keeps:
  assumes "\<And>k v r r'. field k v r = Some r' \<Longrightarrow> I r \<Longrightarrow> I r'"
    and "decode_struct field v r = Some r'" "I r"
  shows "I r'"
proof (cases v)
  case (BObj ms)
  with assms(2) have "decode_members field ms r = Some r'" by simp
  from decode_members_keeps [of field I, OF assms(1) this assms(3)] show ?thesis .
qed (use assms in auto)

lemma decode_int_range: "decode_int P v old = Some i \<Longrightarrow> P old \<Longrightarrow> P i"
  by (auto elim!: decode_intE split: if_splits)

lemma decode_token_range:
  assumes "decode_token_request b = Some r"
  shows "in_i64 (it_TTLSeconds r)"
proof -
  obtain v where v: "decode_struct token_field v \<lparr>it_Label = [], it_TTLSeconds = 0\<rparr> = Some r"
    using assms by (auto simp: decode_token_request_def split: option.splits)
  have step: "in_i64 (it_TTLSeconds r2)" if "token_field k x r1 = Some r2" "in_i64 (it_TTLSeconds r1)" for k x r1 r2
    using that by (auto simp: token_field_def dest: decode_int_range split: if_splits)
  show ?thesis
    by (rule decode_struct_keeps [of token_field "\<lambda>r. in_i64 (it_TTLSeconds r)", OF step v]) (auto simp: in_i64_def)
qed

lemma decode_command_range:
  assumes "decode_command_request b = Some r"
  shows "in_i64 (ic_Tier r) \<and> in_i32 (ic_TimeoutSeconds r)"
proof -
  let ?I = "\<lambda>r. in_i64 (ic_Tier r) \<and> in_i32 (ic_TimeoutSeconds r)"
  obtain v where v: "decode_struct command_field v \<lparr>ic_HostID = [], ic_Tier = 0, ic_Reason = [], ic_IssuedBy = [],
      ic_TimeoutSeconds = 0, ic_Diagnostic = None, ic_Shell = None\<rparr> = Some r"
    using assms by (auto simp: decode_command_request_def split: option.splits)
  have step: "?I r2" if "command_field k x r1 = Some r2" "?I r1" for k x r1 r2
    using that by (auto simp: command_field_def dest: decode_int_range split: if_splits)
  show ?thesis
    by (rule decode_struct_keeps [of command_field ?I, OF step v]) (auto simp: in_i64_def in_i32_def)
qed

end
