(* ===== verification/Rfc3339.thy ===== *)
theory Rfc3339
  imports Prelude
begin

text \<open>
  \<open>time.Parse(time.RFC3339, s)\<close>, which \<open>internal/api/handler.go\<close> calls on the
  parameter \<open>since\<close>: the general parser of Go's package \<open>time\<close> on the layout
  \<open>2006-01-02T15:04:05Z07:00\<close>. It is more lenient than the standard: the hour may have one digit,
  the seconds any number of fractional digits after a dot or a comma (the tenth and later are
  dropped), the offset may be 24 hours or 60 minutes.
\<close>

definition two_digits :: "string \<Rightarrow> (nat \<times> string) option" where
  "two_digits s =
     (case s of
        a # b # r \<Rightarrow>
          (case (char_digit a, char_digit b) of (Some x, Some y) \<Rightarrow> Some (10 * x + y, r) | _ \<Rightarrow> None)
      | _ \<Rightarrow> None)"

text \<open>\<open>getnum\<close> for the hour: two digits, or one.\<close>

definition hour_digits :: "string \<Rightarrow> (nat \<times> string) option" where
  "hour_digits s =
     (case s of
        [] \<Rightarrow> None
      | a # r \<Rightarrow>
          (case char_digit a of
             None \<Rightarrow> None
           | Some x \<Rightarrow>
               (case r of
                  [] \<Rightarrow> Some (x, [])
                | b # r' \<Rightarrow> (case char_digit b of None \<Rightarrow> Some (x, r) | Some y \<Rightarrow> Some (10 * x + y, r')))))"

fun expect :: "char \<Rightarrow> string \<Rightarrow> string option" where
  "expect c [] = None"
| "expect c (d # r) = (if c = d then Some r else None)"

definition year_digits :: "string \<Rightarrow> (nat \<times> string) option" where
  "year_digits s =
     (case two_digits s of None \<Rightarrow> None
      | Some (h, r) \<Rightarrow> (case two_digits r of None \<Rightarrow> None | Some (l, r') \<Rightarrow> Some (100 * h + l, r')))"

definition in_bounds :: "nat \<Rightarrow> nat \<Rightarrow> (nat \<times> string) option \<Rightarrow> (nat \<times> string) option" where
  "in_bounds lo hi p = (case p of None \<Rightarrow> None | Some (n, r) \<Rightarrow> if lo \<le> n \<and> n \<le> hi then Some (n, r) else None)"

subsection \<open>The civil calendar\<close>

definition is_leap :: "int \<Rightarrow> bool" where
  "is_leap y \<longleftrightarrow> y mod 4 = 0 \<and> (y mod 100 \<noteq> 0 \<or> y mod 400 = 0)"

definition month_lengths :: "int \<Rightarrow> nat list" where
  "month_lengths y = [31, if is_leap y then 29 else 28, 31, 30, 31, 30, 31, 31, 30, 31, 30, 31]"

text \<open>Days from 1970-01-01: those of the years before (477 leap years up to 1969), of the months before, of the month.\<close>

definition unix_days :: "int \<Rightarrow> nat \<Rightarrow> nat \<Rightarrow> int" where
  "unix_days y m d =
     365 * (y - 1970) + ((y - 1) div 4 - (y - 1) div 100 + (y - 1) div 400 - 477)
       + int (sum_list (take (m - 1) (month_lengths y))) + int d - 1"

subsection \<open>The parser\<close>

text \<open>The fraction of a second: its nanoseconds, and what is left.\<close>

fun digits_value :: "int \<Rightarrow> string \<Rightarrow> int" where
  "digits_value acc [] = acc"
| "digits_value acc (c # cs) =
     digits_value (10 * acc + (case char_digit c of None \<Rightarrow> 0 | Some d \<Rightarrow> int d)) cs"

definition fraction :: "string \<Rightarrow> int \<times> string" where
  "fraction s =
     (case s of
        c # d # r \<Rightarrow>
          if (c = CHR ''.'' \<or> c = CHR '','') \<and> char_digit d \<noteq> None
          then (let ds = takeWhile (\<lambda>x. char_digit x \<noteq> None) (d # r);
                    used = take 9 ds
                in (digits_value 0 used * 10 ^ (9 - length used),
                    dropWhile (\<lambda>x. char_digit x \<noteq> None) (d # r)))
          else (0, s)
      | _ \<Rightarrow> (0, s))"

text \<open>The zone: its offset in seconds. Nothing may follow it.\<close>

definition zone :: "string \<Rightarrow> int option" where
  "zone s =
     (case s of
        [] \<Rightarrow> None
      | c # r \<Rightarrow>
          if c = CHR ''Z'' then (if r = [] then Some 0 else None)
          else if length s \<noteq> 6 then None
          else (case in_bounds 0 24 (two_digits r) of
                  None \<Rightarrow> None
                | Some (h, r1) \<Rightarrow>
                    (case expect (CHR '':'') r1 of
                       None \<Rightarrow> None
                     | Some r2 \<Rightarrow>
                         (case in_bounds 0 60 (two_digits r2) of
                            None \<Rightarrow> None
                          | Some (m, r3) \<Rightarrow>
                              let off = (int h * 60 + int m) * 60
                              in if c = CHR ''+'' then Some off else if c = CHR ''-'' then Some (- off) else None))))"

definition parse_date :: "string \<Rightarrow> ((int \<times> nat \<times> nat) \<times> string) option" where
  "parse_date s =
     (case year_digits s of None \<Rightarrow> None
      | Some (y, r1) \<Rightarrow>
     (case expect (CHR ''-'') r1 of None \<Rightarrow> None
      | Some r2 \<Rightarrow>
     (case in_bounds 1 12 (two_digits r2) of None \<Rightarrow> None
      | Some (m, r3) \<Rightarrow>
     (case expect (CHR ''-'') r3 of None \<Rightarrow> None
      | Some r4 \<Rightarrow>
     (case in_bounds 1 (month_lengths (int y) ! (m - 1)) (two_digits r4) of None \<Rightarrow> None
      | Some (d, r5) \<Rightarrow> Some ((int y, m, d), r5))))))"

definition parse_clock :: "string \<Rightarrow> ((nat \<times> nat \<times> nat) \<times> string) option" where
  "parse_clock s =
     (case in_bounds 0 23 (hour_digits s) of None \<Rightarrow> None
      | Some (h, r1) \<Rightarrow>
     (case expect (CHR '':'') r1 of None \<Rightarrow> None
      | Some r2 \<Rightarrow>
     (case in_bounds 0 59 (two_digits r2) of None \<Rightarrow> None
      | Some (m, r3) \<Rightarrow>
     (case expect (CHR '':'') r3 of None \<Rightarrow> None
      | Some r4 \<Rightarrow>
     (case in_bounds 0 59 (two_digits r4) of None \<Rightarrow> None
      | Some (sec, r5) \<Rightarrow> Some ((h, m, sec), r5))))))"

definition parse_rfc3339 :: "string \<Rightarrow> instant option" where
  "parse_rfc3339 s =
     (case parse_date s of None \<Rightarrow> None
      | Some ((y, m, d), r1) \<Rightarrow>
     (case expect (CHR ''T'') r1 of None \<Rightarrow> None
      | Some r2 \<Rightarrow>
     (case parse_clock r2 of None \<Rightarrow> None
      | Some ((h, mi, sec), r3) \<Rightarrow>
     (case fraction r3 of
        (ns, r4) \<Rightarrow>
     (case zone r4 of None \<Rightarrow> None
      | Some off \<Rightarrow>
          Some ((unix_days y m d * 86400 + (int h * 3600 + int mi * 60 + int sec) - off) * time_Second + ns))))))"

lemma unix_days_samples:
  "unix_days 1970 1 1 = 0" "unix_days 2000 3 1 = 11017" "unix_days 2024 2 29 = 19782" "unix_days 1969 12 31 = -1"
  by (simp_all add: unix_days_def month_lengths_def is_leap_def)

text \<open>The days of the calendar are numbered one after the other: the first of a month follows the last
  of the month before, and the first of January the last of December.\<close>

lemma unix_days_next_day: "unix_days y m (Suc d) = unix_days y m d + 1"
  by (simp add: unix_days_def)

lemma unix_days_next_month:
  assumes "1 \<le> m" "m < 12"
  shows "unix_days y (Suc m) 1 = unix_days y m (month_lengths y ! (m - 1)) + 1"
proof -
  obtain k where k: "m = Suc k" using assms(1) by (cases m) auto
  have "length (month_lengths y) = 12" by (simp add: month_lengths_def)
  then have "take m (month_lengths y) = take k (month_lengths y) @ [month_lengths y ! k]"
    using assms(2) k by (simp add: take_Suc_conv_app_nth)
  then show ?thesis by (simp add: unix_days_def k)
qed

lemma div_pred:
  fixes y n :: int
  assumes "0 < n"
  shows "(y - 1) div n = y div n - (if y mod n = 0 then 1 else 0)"
proof (cases "y mod n = 0")
  case True
  have "y - 1 = n * (y div n - 1) + (n - 1)"
    using True mult_div_mod_eq [of n y] by (simp add: right_diff_distrib)
  then show ?thesis using assms True by (simp add: int_div_pos_eq [of "y - 1" n "y div n - 1" "n - 1"])
next
  case False
  have "0 < y mod n" "y mod n < n" using False assms pos_mod_sign [of n y] pos_mod_bound [of n y] by linarith+
  moreover have "y - 1 = n * (y div n) + (y mod n - 1)" using mult_div_mod_eq [of n y] by simp
  ultimately show ?thesis using False by (simp add: int_div_pos_eq [of "y - 1" n "y div n" "y mod n - 1"])
qed

lemma sum_eleven: "int (sum_list (take 11 (month_lengths y))) = 334 + (if is_leap y then 1 else 0)"
  by (simp add: month_lengths_def eval_nat_numeral)

lemma unix_days_next_year: "unix_days (y + 1) 1 1 = unix_days y 12 31 + 1"
proof -
  have m: "y mod 100 = 0 \<Longrightarrow> y mod 4 = 0" "y mod 400 = 0 \<Longrightarrow> y mod 100 = 0"
    using mod_mod_cancel [of 4 100 y] mod_mod_cancel [of 100 400 y] by auto
  have "unix_days (y + 1) 1 1 = 365 * (y + 1 - 1970) + (y div 4 - y div 100 + y div 400 - 477)"
    by (simp add: unix_days_def)
  moreover have "unix_days y 12 31 = 365 * (y - 1970) + ((y - 1) div 4 - (y - 1) div 100 + (y - 1) div 400 - 477)
      + (334 + (if is_leap y then 1 else 0)) + 30"
    unfolding unix_days_def by (simp add: sum_eleven)
  ultimately show ?thesis
    unfolding div_pred [of 4 y, simplified] div_pred [of 100 y, simplified] div_pred [of 400 y, simplified] is_leap_def
    using m by (simp split: if_splits)
qed

end
