(* ===== verification/Api.thy ===== *)
theory Api
  imports Enrollment Broker GoQuote JsonBody Rfc3339
begin

text \<open>
  \<open>internal/api\<close>: the REST API. A request is its method, the segments of its escaped URL path, the
  values of its \<open>Authorization\<close> header and of each query parameter, its body, and the address it
  comes from; a response is a status and the value given to \<open>writeJSON\<close> (how \<open>encoding/json\<close> prints it is left out).
  \<open>http.ServeMux\<close> is modelled for the patterns the source registers, with its redirects (whose
  status depends on the release of Go and is a field of \<open>api_env\<close>); the method CONNECT, which
  ServeMux treats apart, is not. Each handler is a function on the server.
\<close>

subsection \<open>Requests, responses, and what the handler is configured with\<close>

record api_request =
  aq_Method :: string
  aq_Path :: "string list"
  aq_Authorization :: "string list"
  aq_Query :: "string \<Rightarrow> string list"
  aq_Body :: "body option"
  aq_RemoteAddr :: string

text \<open>\<open>Header.Get\<close> and \<open>Values.Get\<close>: the first value, or the empty string.\<close>

fun first_value :: "string list \<Rightarrow> string" where
  "first_value [] = []"
| "first_value (v # _) = v"

record HostResponse =
  hp_ID :: string
  hp_Hostname :: string
  hp_OS :: string
  hp_OSVersion :: string
  hp_Kernel :: string
  hp_Arch :: string
  hp_CPUCores :: int
  hp_MemoryBytes :: int
  hp_MachineID :: "string option"
  hp_IPAddresses :: "string list"
  hp_Labels :: "(string \<times> string) list"
  hp_FirstSeenAt :: instant
  hp_LastHeartbeatAt :: instant
  hp_Status :: string
  hp_AgentVersion :: string
  hp_OrgID :: string

record TokenResponse =
  tp_ID :: string
  tp_Label :: "string option"
  tp_OrgID :: string
  tp_CreatedAt :: instant
  tp_ExpiresAt :: instant
  tp_UsedAt :: "instant option"
  tp_UsedByHostID :: "string option"
  tp_RevokedAt :: "instant option"

record IssueTokenResponse =
  ip_ID :: string
  ip_Token :: string
  ip_Label :: string
  ip_ExpiresAt :: instant

record CommandResponse =
  cp_ID :: string
  cp_HostID :: string
  cp_Status :: string
  cp_Tier :: int
  cp_Reason :: string
  cp_IssuedBy :: string
  cp_IssuedAt :: instant
  cp_CompletedAt :: "instant option"
  cp_ExitCode :: "int option"
  cp_Stdout :: "string option"
  cp_Stderr :: "string option"
  cp_StdoutTruncated :: bool
  cp_StderrTruncated :: bool
  cp_DurationMs :: "int option"
  cp_Error :: "string option"

record SecurityEventResponse =
  sp_ID :: int
  sp_HostID :: string
  sp_OccurredAt :: instant
  sp_Type :: string
  sp_Source :: string
  sp_Data :: json
  sp_Raw :: string

datatype api_body =
    NoContent
  | PlainText string
  | ErrorBody string
  | HealthBody
  | HostsBody "HostResponse list" nat nat
  | HostBody HostResponse
  | TokensBody "TokenResponse list" nat nat
  | TokenIssued IssueTokenResponse
  | CommandAccepted string
  | CommandBody CommandResponse
  | CommandsBody "CommandResponse list" nat
  | EventsBody "SecurityEventResponse list" nat

record api_response =
  rs_Status :: int
  rs_Body :: api_body

definition writeJSON :: "int \<Rightarrow> api_body \<Rightarrow> api_response" where
  "writeJSON status v = \<lparr>rs_Status = status, rs_Body = v\<rparr>"

definition writeError :: "int \<Rightarrow> string \<Rightarrow> api_response" where
  "writeError status msg = writeJSON status (ErrorBody msg)"

abbreviation internal_error :: api_response where
  "internal_error \<equiv> writeError 500 ''internal server error''"

record api_env =
  ah_apiKey :: string
  ah_orgID :: string
  ah_Sum256 :: "string \<Rightarrow> bytes"
  ah_marshal :: "command_request \<Rightarrow> string + json"
  ah_enum :: "string \<Rightarrow> int"
  ah_is_print :: "nat \<Rightarrow> bool"
  ah_redirect :: int

subsection \<open>internal/api/response.go: the conversions\<close>

definition zero_time :: instant where "zero_time = - 62135596800 * time_Second"

definition toHostResponse :: "host \<Rightarrow> HostResponse" where
  "toHostResponse h =
     \<lparr>hp_ID = h_ID h, hp_Hostname = h_Hostname h, hp_OS = h_OS h,
      hp_OSVersion = (case h_OSVersion h of None \<Rightarrow> [] | Some v \<Rightarrow> v),
      hp_Kernel = (case h_Kernel h of None \<Rightarrow> [] | Some v \<Rightarrow> v), hp_Arch = h_Arch h,
      hp_CPUCores = (case h_CPUCores h of None \<Rightarrow> 0 | Some v \<Rightarrow> v),
      hp_MemoryBytes = (case h_MemoryBytes h of None \<Rightarrow> 0 | Some v \<Rightarrow> v), hp_MachineID = h_MachineID h,
      hp_IPAddresses = (case h_IPAddresses h of None \<Rightarrow> [] | Some v \<Rightarrow> v),
      hp_Labels = (case h_Labels h of None \<Rightarrow> [] | Some v \<Rightarrow> v), hp_FirstSeenAt = h_FirstSeenAt h,
      hp_LastHeartbeatAt = (case h_LastHeartbeatAt h of None \<Rightarrow> zero_time | Some v \<Rightarrow> v),
      hp_Status = h_Status h, hp_AgentVersion = (case h_AgentVersion h of None \<Rightarrow> [] | Some v \<Rightarrow> v),
      hp_OrgID = h_OrgID h\<rparr>"

definition toTokenResponse :: "token_row \<Rightarrow> TokenResponse" where
  "toTokenResponse t =
     \<lparr>tp_ID = tr_id t, tp_Label = tr_label t, tp_OrgID = tr_org_id t, tp_CreatedAt = tr_created_at t,
      tp_ExpiresAt = tr_expires_at t, tp_UsedAt = tr_used_at t, tp_UsedByHostID = tr_used_by_host_id t,
      tp_RevokedAt = tr_revoked_at t\<rparr>"

definition toCommandResponse :: "command_row \<Rightarrow> CommandResponse" where
  "toCommandResponse c =
     \<lparr>cp_ID = xr_id c, cp_HostID = xr_host_id c, cp_Status = xr_status c, cp_Tier = xr_tier c,
      cp_Reason = xr_reason c, cp_IssuedBy = xr_issued_by c, cp_IssuedAt = xr_issued_at c,
      cp_CompletedAt = xr_completed_at c, cp_ExitCode = xr_exit_code c, cp_Stdout = xr_stdout c,
      cp_Stderr = xr_stderr c, cp_StdoutTruncated = xr_stdout_truncated c,
      cp_StderrTruncated = xr_stderr_truncated c, cp_DurationMs = xr_duration_ms c, cp_Error = xr_error c\<rparr>"

text \<open>A stored event's data is never SQL NULL, so the default of the source for nil data is never taken.\<close>

definition toSecurityEventResponse :: "event_row \<Rightarrow> SecurityEventResponse" where
  "toSecurityEventResponse ev =
     \<lparr>sp_ID = er_id ev, sp_HostID = er_host_id ev, sp_OccurredAt = er_occurred_at ev, sp_Type = er_type ev,
      sp_Source = er_source ev, sp_Data = er_data ev, sp_Raw = er_raw ev\<rparr>"

definition diagnosticCheckMap :: "api_env \<Rightarrow> string \<Rightarrow> int option" where
  "diagnosticCheckMap A =
     map_of [(''DISK_USAGE'', ah_enum A ''DiagnosticCheck_DIAGNOSTIC_CHECK_DISK_USAGE''),
       (''TOP_PROCESSES'', ah_enum A ''DiagnosticCheck_DIAGNOSTIC_CHECK_TOP_PROCESSES''),
       (''RECENT_AUTH_EVENTS'', ah_enum A ''DiagnosticCheck_DIAGNOSTIC_CHECK_RECENT_AUTH_EVENTS''),
       (''JOURNALCTL_FOR_UNIT'', ah_enum A ''DiagnosticCheck_DIAGNOSTIC_CHECK_JOURNALCTL_FOR_UNIT''),
       (''READ_CONFIG_FILE'', ah_enum A ''DiagnosticCheck_DIAGNOSTIC_CHECK_READ_CONFIG_FILE'')]"

subsection \<open>internal/api/handler.go: hosts and tokens\<close>

definition handleHealthz :: "api_request \<Rightarrow> server \<Rightarrow> api_response \<times> server" where
  "handleHealthz r s = (writeJSON 200 HealthBody, s)"

definition handleListHosts :: "api_env \<Rightarrow> api_request \<Rightarrow> server \<Rightarrow> api_response \<times> server" where
  "handleListHosts A r s =
     (case on_store (host_List (ah_orgID A)) s of
        (Inl e, s1) \<Rightarrow> (internal_error, s1)
      | (Inr hs, s1) \<Rightarrow> (let resp = map toHostResponse hs in (writeJSON 200 (HostsBody resp (length resp) (length resp)), s1)))"

definition handleGetHost :: "api_env \<Rightarrow> string \<Rightarrow> api_request \<Rightarrow> server \<Rightarrow> api_response \<times> server" where
  "handleGetHost A k r s =
     (case on_store (host_GetByID k) s of
        (Inl e, s1) \<Rightarrow>
          (if is_no_rows e then writeError 404 (''host '' @ go_quote (ah_is_print A) k @ '' not found'')
           else internal_error, s1)
      | (Inr h, s1) \<Rightarrow> (writeJSON 200 (HostBody (toHostResponse h)), s1))"

definition contains_csv :: "string \<Rightarrow> string \<Rightarrow> bool" where
  "contains_csv csv target \<longleftrightarrow> (\<exists>v \<in> set (split_on (CHR '','') csv). trim_space v = target)"

definition handleListTokens :: "api_env \<Rightarrow> api_request \<Rightarrow> server \<Rightarrow> api_response \<times> server" where
  "handleListTokens A r s =
     (let inc = first_value (aq_Query r ''include'')
      in case on_store (token_List (ah_orgID A) (contains_csv inc ''expired'') (contains_csv inc ''revoked'')) s of
           (Inl e, s1) \<Rightarrow> (internal_error, s1)
         | (Inr ts, s1) \<Rightarrow>
             (let resp = map toTokenResponse ts in (writeJSON 200 (TokensBody resp (length resp) (length resp)), s1)))"

definition defaultTokenTTL :: duration where "defaultTokenTTL = 15 * time_Minute"
definition maxTokenTTL :: duration where "maxTokenTTL = 24 * time_Hour"

text \<open>The lifetime a request asks for: the product is one of \<open>int64\<close>, and wraps.\<close>

definition requested_ttl :: "int \<Rightarrow> duration" where
  "requested_ttl secs = (if secs > 0 then wrap64 (secs * time_Second) else defaultTokenTTL)"

definition new_token_row :: "api_env \<Rightarrow> token \<Rightarrow> string \<Rightarrow> instant \<Rightarrow> instant \<Rightarrow> token_row" where
  "new_token_row A tok label created expires =
     \<lparr>tr_id = tok_ID tok, tr_token_hash = hex_bytes (tok_Hash tok), tr_label = Some label, tr_org_id = ah_orgID A,
      tr_created_by = None, tr_created_at = created, tr_expires_at = expires, tr_used_at = None,
      tr_used_by_host_id = None, tr_revoked_at = None\<rparr>"

definition handleIssueToken :: "api_env \<Rightarrow> api_request \<Rightarrow> server \<Rightarrow> api_response \<times> server" where
  "handleIssueToken A r s =
     (case decode_token_request (aq_Body r) of
        None \<Rightarrow> (writeError 400 ''invalid JSON body'', s)
      | Some req \<Rightarrow>
          (if it_Label req = [] then (writeError 400 ''label is required'', s)
           else if requested_ttl (it_TTLSeconds req) > maxTokenTTL
           then (writeError 400 (''ttl_seconds exceeds maximum ('' @ itoa (maxTokenTTL div time_Second) @ '')''), s)
           else (case on_store (Generate (ah_Sum256 A)) s of
                   (Inl e, s1) \<Rightarrow> (internal_error, s1)
                 | (Inr tok, s1) \<Rightarrow>
                     (let (now, s2) = on_store go_now s1;
                          expiresAt = now + requested_ttl (it_TTLSeconds req);
                          (created, s3) = on_store go_now s2
                      in case on_store (token_Insert (new_token_row A tok (it_Label req) created expiresAt)) s3 of
                           (Inl e, s4) \<Rightarrow> (internal_error, s4)
                         | (Inr _, s4) \<Rightarrow>
                             (writeJSON 201 (TokenIssued \<lparr>ip_ID = tok_ID tok, ip_Token = tok_Plain tok,
                                ip_Label = it_Label req, ip_ExpiresAt = expiresAt\<rparr>), s4)))))"

definition handleRevokeToken :: "api_env \<Rightarrow> string \<Rightarrow> api_request \<Rightarrow> server \<Rightarrow> api_response \<times> server" where
  "handleRevokeToken A k r s =
     (case on_store (token_Revoke k) s of
        (Inl e, s1) \<Rightarrow>
          (if is_no_rows e then writeError 404 (''token '' @ go_quote (ah_is_print A) k @ '' not found'')
           else internal_error, s1)
      | (Inr _, s1) \<Rightarrow> (\<lparr>rs_Status = 204, rs_Body = NoContent\<rparr>, s1))"

subsection \<open>Commands and security events\<close>

definition check_tier :: "api_env \<Rightarrow> int \<Rightarrow> int option" where
  "check_tier A t =
     (if t = 0 then Some (ah_enum A ''CommandTier_COMMAND_TIER_0_SAFE'')
      else if t = 1 then Some (ah_enum A ''CommandTier_COMMAND_TIER_1_VALIDATED'')
      else None)"

definition check_command :: "api_env \<Rightarrow> IssueCommandRequest \<Rightarrow> string + command_payload" where
  "check_command A req =
     (case ic_Diagnostic req of
        Some d \<Rightarrow>
          (case diagnosticCheckMap A (dj_Check d) of
             None \<Rightarrow> Inl (''unknown diagnostic check '' @ go_quote (ah_is_print A) (dj_Check d))
           | Some check \<Rightarrow>
               Inr (DiagnosticCommand check (case dj_Params d of Some (p # ps) \<Rightarrow> Some (p # ps) | _ \<Rightarrow> None)))
      | None \<Rightarrow>
          (case ic_Shell req of
             Some sh \<Rightarrow>
               if sj_Binary sh = [] then Inl ''shell.binary is required''
               else Inr (ShellCommand (sj_Binary sh) (map_option sl_elems (sj_Args sh)))
           | None \<Rightarrow> Inl ''one of diagnostic or shell must be specified''))"

text \<open>The checks of a command request, in their order, up to the call of the broker.\<close>

definition check_command_request :: "api_env \<Rightarrow> body option \<Rightarrow> string + issue_request" where
  "check_command_request A b =
     (case decode_command_request b of
        None \<Rightarrow> Inl ''invalid JSON body''
      | Some req \<Rightarrow>
          if ic_HostID req = [] then Inl ''host_id is required''
          else if ic_Reason req = [] then Inl ''reason is required''
          else (case check_tier A (ic_Tier req) of
                  None \<Rightarrow> Inl (''unsupported tier '' @ itoa (ic_Tier req))
                | Some tier \<Rightarrow>
                    (case check_command A req of
                       Inl m \<Rightarrow> Inl m
                     | Inr cmd \<Rightarrow>
                         Inr \<lparr>iq_HostID = ic_HostID req, iq_Tier = tier, iq_Reason = ic_Reason req,
                              iq_IssuedBy = ic_IssuedBy req, iq_Timeout = ic_TimeoutSeconds req,
                              iq_Command = Known cmd\<rparr>)))"

definition handleIssueCommand :: "api_env \<Rightarrow> api_request \<Rightarrow> server \<Rightarrow> api_response \<times> server" where
  "handleIssueCommand A r s =
     (case check_command_request A (aq_Body r) of
        Inl m \<Rightarrow> (writeError 400 m, s)
      | Inr req \<Rightarrow>
          (case Issue (ah_marshal A) req s of
             ((k, Some e), s1) \<Rightarrow>
               if k \<noteq> [] then (writeJSON 202 (CommandAccepted k), s1) else (writeError 500 (error_text e), s1)
           | ((k, None), s1) \<Rightarrow> (writeJSON 202 (CommandAccepted k), s1)))"

definition handleGetCommand :: "api_env \<Rightarrow> string \<Rightarrow> api_request \<Rightarrow> server \<Rightarrow> api_response \<times> server" where
  "handleGetCommand A k r s =
     (case on_store (command_Get k) s of
        (Inl e, s1) \<Rightarrow>
          (if is_no_rows e then writeError 404 (''command '' @ go_quote (ah_is_print A) k @ '' not found'')
           else internal_error, s1)
      | (Inr c, s1) \<Rightarrow> (writeJSON 200 (CommandBody (toCommandResponse c)), s1))"

text \<open>A \<open>limit\<close> parameter: \<open>None\<close> when it is not a positive integer.\<close>

definition parse_limit :: "int \<Rightarrow> int \<Rightarrow> string \<Rightarrow> int option" where
  "parse_limit defaultLimit maxLimit limitStr =
     (if limitStr = [] then Some defaultLimit
      else (case atoi limitStr of
              None \<Rightarrow> None
            | Some n \<Rightarrow> if n \<le> 0 then None else if n > maxLimit then Some maxLimit else Some n))"

definition handleListCommands :: "api_env \<Rightarrow> api_request \<Rightarrow> server \<Rightarrow> api_response \<times> server" where
  "handleListCommands A r s =
     (let hostID = first_value (aq_Query r ''host_id'')
      in if hostID = [] then (writeError 400 ''host_id is required'', s)
         else (case parse_limit 20 100 (first_value (aq_Query r ''limit'')) of
                 None \<Rightarrow> (writeError 400 ''limit must be a positive integer'', s)
               | Some limit \<Rightarrow>
                   (case on_store (command_ListByHost hostID limit) s of
                      (Inl e, s1) \<Rightarrow> (internal_error, s1)
                    | (Inr cs, s1) \<Rightarrow>
                        (let resp = map toCommandResponse cs in (writeJSON 200 (CommandsBody resp (length resp)), s1)))))"

definition handleListSecurityEvents :: "api_env \<Rightarrow> api_request \<Rightarrow> server \<Rightarrow> api_response \<times> server" where
  "handleListSecurityEvents A r s =
     (let hostID = first_value (aq_Query r ''host_id'');
          (now, s1) = on_store go_now s;
          sinceStr = first_value (aq_Query r ''since'')
      in case (if sinceStr = [] then Some (now - 24 * time_Hour) else parse_rfc3339 sinceStr) of
           None \<Rightarrow> (writeError 400 ''since must be an ISO8601/RFC3339 timestamp'', s1)
         | Some since \<Rightarrow>
             (case parse_limit 100 1000 (first_value (aq_Query r ''limit'')) of
                None \<Rightarrow> (writeError 400 ''limit must be a positive integer'', s1)
              | Some limit \<Rightarrow>
                  (case on_store (if hostID \<noteq> [] then event_List hostID since limit else event_ListAll since limit) s1 of
                     (Inl e, s2) \<Rightarrow> (internal_error, s2)
                   | (Inr es, s2) \<Rightarrow>
                       (let resp = map toSecurityEventResponse es in (writeJSON 200 (EventsBody resp (length resp)), s2)))))"

end
