(* ===== verification/ApiServer.thy ===== *)
theory ApiServer
  imports Api
begin

text \<open>
  \<open>Handler.Routes\<close> of \<open>internal/api/handler.go\<close> and \<open>internal/api/middleware.go\<close>:
  which handler a request reaches, and the bearer token every path under \<open>/v1/\<close> is behind. Then
  what the API answers and does.
\<close>

subsection \<open>http.ServeMux on the registered patterns\<close>

definition hex_value :: "char \<Rightarrow> nat option" where
  "hex_value c =
     (let n = of_char c
      in if (48::nat) \<le> n \<and> n \<le> 57 then Some (n - 48)
         else if 65 \<le> n \<and> n \<le> 70 then Some (n - 55)
         else if 97 \<le> n \<and> n \<le> 102 then Some (n - 87) else None)"

text \<open>\<open>pathUnescape\<close> of a segment; the path of a parsed URL has no broken escape.\<close>

fun unescape :: "string \<Rightarrow> string" where
  "unescape (c # a # b # s) =
     (if c = CHR ''%''
      then (case (hex_value a, hex_value b) of
              (Some x, Some y) \<Rightarrow> char_of (16 * x + y) # unescape s
            | _ \<Rightarrow> c # unescape (a # b # s))
      else c # unescape (a # b # s))"
| "unescape (c # s) = c # unescape s"
| "unescape [] = []"

datatype segment = Lit string | Wild

text \<open>A wildcard takes one segment, but not the empty one after a trailing slash.\<close>

fun match_segments :: "segment list \<Rightarrow> string list \<Rightarrow> string list option" where
  "match_segments [] [] = Some []"
| "match_segments (Lit l # ps) (s # ss) = (if unescape s = l then match_segments ps ss else None)"
| "match_segments (Wild # ps) (s # ss) =
     (if s = [] then None else map_option ((#) (unescape s)) (match_segments ps ss))"
| "match_segments _ _ = None"

datatype v1_handler =
    ListHosts | GetHost | ListTokens | IssueToken | RevokeToken | IssueCommand | ListCommands | GetCommand
  | ListSecurityEvents

definition v1_patterns :: "(string \<times> segment list \<times> v1_handler) list" where
  "v1_patterns =
     [(''GET'', [Lit ''v1'', Lit ''hosts''], ListHosts),
      (''GET'', [Lit ''v1'', Lit ''hosts'', Wild], GetHost),
      (''GET'', [Lit ''v1'', Lit ''tokens''], ListTokens),
      (''POST'', [Lit ''v1'', Lit ''tokens''], IssueToken),
      (''DELETE'', [Lit ''v1'', Lit ''tokens'', Wild], RevokeToken),
      (''POST'', [Lit ''v1'', Lit ''commands''], IssueCommand),
      (''GET'', [Lit ''v1'', Lit ''commands''], ListCommands),
      (''GET'', [Lit ''v1'', Lit ''commands'', Wild], GetCommand),
      (''GET'', [Lit ''v1'', Lit ''security-events''], ListSecurityEvents)]"

text \<open>A pattern with GET also takes HEAD. No two patterns with a method match the same path.\<close>

definition method_matches :: "string \<Rightarrow> string \<Rightarrow> bool" where
  "method_matches pat m \<longleftrightarrow> pat = m \<or> (pat = ''GET'' \<and> m = ''HEAD'')"

datatype 'h routed = Found 'h "string list" | MethodNotAllowed | NotFound

fun find_route :: "string \<Rightarrow> string list \<Rightarrow> (string \<times> segment list \<times> 'h) list \<Rightarrow> 'h routed" where
  "find_route m path [] = NotFound"
| "find_route m path ((pat, segs, h) # ps) =
     (case match_segments segs path of
        None \<Rightarrow> find_route m path ps
      | Some vs \<Rightarrow>
          if method_matches pat m then Found h vs
          else (case find_route m path ps of Found g us \<Rightarrow> Found g us | _ \<Rightarrow> MethodNotAllowed))"

definition not_found :: api_response where
  "not_found = \<lparr>rs_Status = 404, rs_Body = PlainText ''404 page not found''\<rparr>"

definition method_not_allowed :: api_response where
  "method_not_allowed = \<lparr>rs_Status = 405, rs_Body = PlainText ''Method Not Allowed''\<rparr>"

definition run_v1 :: "api_env \<Rightarrow> v1_handler \<Rightarrow> string \<Rightarrow> api_request \<Rightarrow> server \<Rightarrow> api_response \<times> server" where
  "run_v1 A h k =
     (case h of
        ListHosts \<Rightarrow> handleListHosts A
      | GetHost \<Rightarrow> handleGetHost A k
      | ListTokens \<Rightarrow> handleListTokens A
      | IssueToken \<Rightarrow> handleIssueToken A
      | RevokeToken \<Rightarrow> handleRevokeToken A k
      | IssueCommand \<Rightarrow> handleIssueCommand A
      | ListCommands \<Rightarrow> handleListCommands A
      | GetCommand \<Rightarrow> handleGetCommand A k
      | ListSecurityEvents \<Rightarrow> handleListSecurityEvents A)"

definition serve_v1 :: "api_env \<Rightarrow> api_request \<Rightarrow> server \<Rightarrow> api_response \<times> server" where
  "serve_v1 A r s =
     (case find_route (aq_Method r) (aq_Path r) v1_patterns of
        Found h vs \<Rightarrow> run_v1 A h (first_value vs) r s
      | MethodNotAllowed \<Rightarrow> (method_not_allowed, s)
      | NotFound \<Rightarrow> (not_found, s))"

subsection \<open>internal/api/middleware.go\<close>

text \<open>What the middleware logs. The path is the decoded one.\<close>

datatype access_entry =
    UnauthorizedRequest (ae_method: string) (ae_path: string) (ae_remote_addr: string) (ae_has_token: bool)
  | HttpRequest (ae_method: string) (ae_path: string) (ae_status: int) (ae_duration_ms: int) (ae_remote_addr: string)

type_synonym handler = "api_request \<Rightarrow> server \<Rightarrow> api_response \<times> server"
type_synonym logged_handler = "api_request \<Rightarrow> server \<Rightarrow> (api_response \<times> access_entry list) \<times> server"

definition url_path :: "string list \<Rightarrow> string" where
  "url_path segs = concat (map (\<lambda>s. CHR ''/'' # unescape s) segs)"

definition bearerAuth :: "string \<Rightarrow> handler \<Rightarrow> logged_handler" where
  "bearerAuth apiKey nxt r s =
     (let auth = first_value (aq_Authorization r);
          refused = ((writeError 401 ''unauthorized'',
                      [UnauthorizedRequest (aq_Method r) (url_path (aq_Path r)) (aq_RemoteAddr r) (auth \<noteq> [])]), s)
      in case cut_prefix auth ''Bearer '' of
           None \<Rightarrow> refused
         | Some tok \<Rightarrow> if tok \<noteq> apiKey then refused else (case nxt r s of (resp, s') \<Rightarrow> ((resp, []), s')))"

text \<open>The wrapper that remembers the status. Of several calls of \<open>WriteHeader\<close>, the wrapped writer sends
  the first and the wrapper remembers the last; every handler makes exactly one.\<close>

record responseWriter =
  rw_ResponseWriter :: "int option"
  rw_status :: int

definition http_WriteHeader :: "int \<Rightarrow> int option \<Rightarrow> int option" where
  "http_WriteHeader st sent = (case sent of None \<Rightarrow> Some st | Some x \<Rightarrow> Some x)"

definition WriteHeader :: "int \<Rightarrow> responseWriter \<Rightarrow> responseWriter" where
  "WriteHeader st rw = rw\<lparr>rw_status := st, rw_ResponseWriter := http_WriteHeader st (rw_ResponseWriter rw)\<rparr>"

definition Milliseconds :: "duration \<Rightarrow> int" where
  "Milliseconds d = (if d < 0 then - ((- d) div 1000000) else d div 1000000)"

text \<open>The times of the start and the end are given; the response is what the wrapped writer has sent.\<close>

definition requestLogger :: "instant \<times> instant \<Rightarrow> logged_handler \<Rightarrow> logged_handler" where
  "requestLogger tm nxt r s =
     (case nxt r s of
        ((resp, es), s') \<Rightarrow>
          let rw = WriteHeader (rs_Status resp) \<lparr>rw_ResponseWriter = None, rw_status = 200\<rparr>
          in ((resp\<lparr>rs_Status := (case rw_ResponseWriter rw of Some st \<Rightarrow> st | None \<Rightarrow> 200)\<rparr>,
               es @ [HttpRequest (aq_Method r) (url_path (aq_Path r)) (rw_status rw)
                       (Milliseconds (snd tm - fst tm)) (aq_RemoteAddr r)]), s'))"

text \<open>The outer mux: \<open>/healthz\<close>, and the tree \<open>/v1/\<close>. A path with an empty segment inside, or with
  a dot segment, is redirected to its clean form, and \<open>/v1\<close> to \<open>/v1/\<close>.\<close>

definition clean_path :: "string list \<Rightarrow> bool" where
  "clean_path p \<longleftrightarrow> [] \<notin> set (butlast p) \<and> ''.'' \<notin> set p \<and> ''..'' \<notin> set p"

definition in_v1 :: "string list \<Rightarrow> bool" where
  "in_v1 p \<longleftrightarrow> (case p of s # _ # _ \<Rightarrow> unescape s = ''v1'' | _ \<Rightarrow> False)"

definition Routes :: "api_env \<Rightarrow> instant \<times> instant \<Rightarrow> logged_handler" where
  "Routes A tm r s =
     (if \<not> clean_path (aq_Path r) \<or> map unescape (aq_Path r) = [''v1'']
      then ((\<lparr>rs_Status = ah_redirect A, rs_Body = PlainText []\<rparr>, []), s)
      else if in_v1 (aq_Path r) then requestLogger tm (bearerAuth (ah_apiKey A) (serve_v1 A)) r s
      else (case find_route (aq_Method r) (aq_Path r) [(''GET'', [Lit ''healthz''], ())] of
              Found _ _ \<Rightarrow> (case handleHealthz r s of (resp, s') \<Rightarrow> ((resp, []), s'))
            | MethodNotAllowed \<Rightarrow> ((method_not_allowed, []), s)
            | NotFound \<Rightarrow> ((not_found, []), s)))"

subsection \<open>Authentication\<close>

definition has_key :: "api_env \<Rightarrow> api_request \<Rightarrow> bool" where
  "has_key A r \<longleftrightarrow> first_value (aq_Authorization r) = ''Bearer '' @ ah_apiKey A"

definition unauthorized_entry :: "api_request \<Rightarrow> access_entry" where
  "unauthorized_entry r =
     UnauthorizedRequest (aq_Method r) (url_path (aq_Path r)) (aq_RemoteAddr r) (first_value (aq_Authorization r) \<noteq> [])"

lemma bearerAuth_cases:
  "bearerAuth (ah_apiKey A) nxt r s =
     (if has_key A r then ((fst (nxt r s), []), snd (nxt r s))
      else ((writeError 401 ''unauthorized'', [unauthorized_entry r]), s))"
proof (cases "cut_prefix (first_value (aq_Authorization r)) ''Bearer ''")
  case None
  have "\<not> has_key A r"
  proof
    assume "has_key A r"
    then have "cut_prefix (first_value (aq_Authorization r)) ''Bearer '' = Some (ah_apiKey A)"
      by (simp only: has_key_def cut_prefix_Some)
    with None show False by simp
  qed
  with None show ?thesis by (simp add: bearerAuth_def unauthorized_entry_def)
next
  case (Some t)
  then have "first_value (aq_Authorization r) = ''Bearer '' @ t" by (simp only: cut_prefix_Some)
  with Some show ?thesis by (simp add: bearerAuth_def has_key_def unauthorized_entry_def split_def Let_def)
qed

lemma requestLogger_simps [simp]:
  "fst (fst (requestLogger tm nxt r s)) = fst (fst (nxt r s))"
  "snd (requestLogger tm nxt r s) = snd (nxt r s)"
  "snd (fst (requestLogger tm nxt r s)) =
     snd (fst (nxt r s)) @ [HttpRequest (aq_Method r) (url_path (aq_Path r)) (rs_Status (fst (fst (nxt r s))))
       (Milliseconds (snd tm - fst tm)) (aq_RemoteAddr r)]"
  by (simp_all add: requestLogger_def split_def Let_def WriteHeader_def http_WriteHeader_def)

lemma Routes_v1:
  "in_v1 (aq_Path r) \<Longrightarrow> clean_path (aq_Path r) \<Longrightarrow>
   Routes A tm r s = requestLogger tm (bearerAuth (ah_apiKey A) (serve_v1 A)) r s"
  by (auto simp: Routes_def in_v1_def split: list.splits)

text \<open>C17: Without the API key, in a bearer Authorization header, no request changes anything or is shown
  anything: a path under /v1/ is answered 401 (or redirected to its clean form), and what is outside
  tells only that the server is up. With the key, every clean path under /v1/ gets to its handler.\<close>

theorem Routes_authenticated:
  "(\<not> has_key A r \<longrightarrow> snd (Routes A tm r s) = s \<and>
      (case rs_Body (fst (fst (Routes A tm r s))) of
         PlainText _ \<Rightarrow> True | ErrorBody m \<Rightarrow> m = ''unauthorized'' | HealthBody \<Rightarrow> True | _ \<Rightarrow> False) \<and>
      (in_v1 (aq_Path r) \<longrightarrow> rs_Status (fst (fst (Routes A tm r s))) \<in> {401, ah_redirect A}))
   \<and> (has_key A r \<and> in_v1 (aq_Path r) \<and> clean_path (aq_Path r) \<longrightarrow>
        (fst (fst (Routes A tm r s)), snd (Routes A tm r s)) = serve_v1 A r s)"
proof (intro conjI impI)
  assume nk: "\<not> has_key A r"
  show "snd (Routes A tm r s) = s"
    using nk by (auto simp: Routes_def bearerAuth_cases handleHealthz_def split: routed.splits)
  show "case rs_Body (fst (fst (Routes A tm r s))) of
      PlainText _ \<Rightarrow> True | ErrorBody m \<Rightarrow> m = ''unauthorized'' | HealthBody \<Rightarrow> True | _ \<Rightarrow> False"
    using nk by (auto simp: Routes_def bearerAuth_cases handleHealthz_def writeError_def writeJSON_def not_found_def
        method_not_allowed_def split: routed.splits)
  show "rs_Status (fst (fst (Routes A tm r s))) \<in> {401, ah_redirect A}" if "in_v1 (aq_Path r)"
    using nk that by (auto simp: Routes_def bearerAuth_cases writeError_def writeJSON_def)
qed (simp add: Routes_v1 bearerAuth_cases)

subsection \<open>The access log\<close>

text \<open>No handler looks at the Authorization header.\<close>

lemma serve_v1_authorization [simp]: "serve_v1 A (r\<lparr>aq_Authorization := x\<rparr>) s = serve_v1 A r s"
  by (simp add: serve_v1_def run_v1_def handleListHosts_def handleGetHost_def handleListTokens_def
      handleIssueToken_def handleRevokeToken_def handleIssueCommand_def handleListCommands_def handleGetCommand_def
      handleListSecurityEvents_def Let_def cong: option.case_cong prod.case_cong
      split: routed.splits v1_handler.splits)

text \<open>The contract of a handler behind the middleware: it does not look at the Authorization header. What it
  is wrapped in then depends on the header only through its being there and being right.\<close>

locale blind_handler =
  fixes nxt :: handler
  assumes blind: "nxt (r\<lparr>aq_Authorization := x\<rparr>) s = nxt r s"
begin

lemma auth_blind:
  assumes "has_key A (r\<lparr>aq_Authorization := x\<rparr>) = has_key A r"
    "first_value x = [] \<longleftrightarrow> first_value (aq_Authorization r) = []"
  shows "bearerAuth (ah_apiKey A) nxt (r\<lparr>aq_Authorization := x\<rparr>) s = bearerAuth (ah_apiKey A) nxt r s"
proof -
  have "unauthorized_entry (r\<lparr>aq_Authorization := x\<rparr>) = unauthorized_entry r"
    using assms(2) by (simp add: unauthorized_entry_def)
  then show ?thesis using assms(1) by (simp add: bearerAuth_cases blind)
qed

lemma logger_blind:
  assumes "has_key A (r\<lparr>aq_Authorization := x\<rparr>) = has_key A r"
    "first_value x = [] \<longleftrightarrow> first_value (aq_Authorization r) = []"
  shows "requestLogger tm (bearerAuth (ah_apiKey A) nxt) (r\<lparr>aq_Authorization := x\<rparr>) s =
    requestLogger tm (bearerAuth (ah_apiKey A) nxt) r s"
  by (simp add: requestLogger_def auth_blind [OF assms])

end

interpretation v1: blind_handler "serve_v1 A" for A
  by unfold_locales (rule serve_v1_authorization)

lemma Routes_authorization:
  assumes "has_key A (r\<lparr>aq_Authorization := x\<rparr>) = has_key A r"
    "first_value x = [] \<longleftrightarrow> first_value (aq_Authorization r) = []"
  shows "Routes A tm (r\<lparr>aq_Authorization := x\<rparr>) s = Routes A tm r s"
  using v1.logger_blind [OF assms] by (auto simp: Routes_def handleHealthz_def split: routed.splits)

text \<open>Every request for a clean path under /v1/ leaves exactly one access record, with the status that the
  client gets, after a record of the refusal if it was refused; nothing else is logged by the
  middleware. What the client sees, the effect and the records depend on the Authorization header only
  through whether it is there and whether it is the right key: its value gets into no record.\<close>

theorem requests_logged:
  assumes "has_key A (r\<lparr>aq_Authorization := x\<rparr>) = has_key A r"
    "first_value x = [] \<longleftrightarrow> first_value (aq_Authorization r) = []"
  shows "Routes A tm (r\<lparr>aq_Authorization := x\<rparr>) s = Routes A tm r s
    \<and> snd (fst (Routes A tm r s)) =
        (if in_v1 (aq_Path r) \<and> clean_path (aq_Path r)
         then (if has_key A r then []
               else [UnauthorizedRequest (aq_Method r) (url_path (aq_Path r)) (aq_RemoteAddr r)
                       (first_value (aq_Authorization r) \<noteq> [])])
              @ [HttpRequest (aq_Method r) (url_path (aq_Path r)) (rs_Status (fst (fst (Routes A tm r s))))
                   (Milliseconds (snd tm - fst tm)) (aq_RemoteAddr r)]
         else [])"
proof (cases "in_v1 (aq_Path r) \<and> clean_path (aq_Path r)")
  case True
  then show ?thesis
    using Routes_authorization [OF assms] by (simp add: Routes_v1 bearerAuth_cases unauthorized_entry_def)
next
  case False
  then show ?thesis
    using Routes_authorization [OF assms] by (auto simp: Routes_def handleHealthz_def split: routed.splits)
qed

definition demo_api :: api_env where
  "demo_api = \<lparr>ah_apiKey = ''k3y'', ah_orgID = ''default'', ah_Sum256 = (\<lambda>_. [1, 2]), ah_marshal = (\<lambda>_. Inr (JObj [])),
     ah_enum = (\<lambda>_. 1), ah_is_print = (\<lambda>_. True), ah_redirect = 301\<rparr>"

definition demo_post :: "string list \<Rightarrow> body \<Rightarrow> api_request" where
  "demo_post path b = \<lparr>aq_Method = ''POST'', aq_Path = path, aq_Authorization = [''Bearer k3y''], aq_Query = (\<lambda>_. []),
     aq_Body = Some b, aq_RemoteAddr = ''10.0.0.9:5000''\<rparr>"

definition demo_times :: "instant \<times> instant" where
  "demo_times = (5000000000, 5003500000)"

theorem Routes_authenticated_witness:
  "(fst (fst (Routes demo_api demo_times (demo_post [''v1'', ''tokens''] BNull) (demo_server []))),
    snd (Routes demo_api demo_times (demo_post [''v1'', ''tokens''] BNull) (demo_server [])))
     = serve_v1 demo_api (demo_post [''v1'', ''tokens''] BNull) (demo_server [])
   \<and> snd (Routes demo_api demo_times ((demo_post [''v1'', ''tokens''] BNull)\<lparr>aq_Authorization := []\<rparr>) (demo_server []))
       = demo_server []"
proof -
  let ?r = "demo_post [''v1'', ''tokens''] BNull"
  have "has_key demo_api ?r" "in_v1 (aq_Path ?r)" "clean_path (aq_Path ?r)"
    by (simp_all add: has_key_def demo_api_def demo_post_def in_v1_def clean_path_def)
  then have "(fst (fst (Routes demo_api demo_times ?r (demo_server []))), snd (Routes demo_api demo_times ?r (demo_server [])))
     = serve_v1 demo_api ?r (demo_server [])"
    using Routes_authenticated [of demo_api ?r demo_times "demo_server []"] by blast
  moreover have "\<not> has_key demo_api (?r\<lparr>aq_Authorization := []\<rparr>)"
    by (simp add: has_key_def demo_api_def demo_post_def)
  ultimately show ?thesis
    using Routes_authenticated [of demo_api "?r\<lparr>aq_Authorization := []\<rparr>" demo_times "demo_server []"] by blast
qed

theorem requests_logged_witness:
  "snd (fst (Routes demo_api demo_times ((demo_post [''v1'', ''x%20y''] BNull)\<lparr>aq_Authorization := [''Bearer guess'']\<rparr>) (demo_server [])))
     = [UnauthorizedRequest ''POST'' ''/v1/x y'' ''10.0.0.9:5000'' True, HttpRequest ''POST'' ''/v1/x y'' 401 3 ''10.0.0.9:5000'']"
proof -
  let ?r = "(demo_post [''v1'', ''x%20y''] BNull)\<lparr>aq_Authorization := [''Bearer guess'']\<rparr>"
  have nk: "\<not> has_key demo_api ?r" "\<not> has_key demo_api (?r\<lparr>aq_Authorization := [''wrong'']\<rparr>)"
    by (simp_all add: has_key_def demo_api_def demo_post_def)
  have path: "in_v1 (aq_Path ?r)" "clean_path (aq_Path ?r)" "url_path (aq_Path ?r) = ''/v1/x y''"
    by (simp_all add: demo_post_def in_v1_def clean_path_def url_path_def hex_value_def Let_def char_of_def bit_Suc_0_iff)
  have "rs_Status (fst (fst (Routes demo_api demo_times ?r (demo_server [])))) = 401"
    using nk path by (simp add: Routes_v1 bearerAuth_cases writeError_def writeJSON_def)
  moreover have "snd (fst (Routes demo_api demo_times ?r (demo_server []))) =
      (if in_v1 (aq_Path ?r) \<and> clean_path (aq_Path ?r)
       then (if has_key demo_api ?r then []
             else [UnauthorizedRequest (aq_Method ?r) (url_path (aq_Path ?r)) (aq_RemoteAddr ?r)
                     (first_value (aq_Authorization ?r) \<noteq> [])])
            @ [HttpRequest (aq_Method ?r) (url_path (aq_Path ?r)) (rs_Status (fst (fst (Routes demo_api demo_times ?r (demo_server [])))))
                 (Milliseconds (snd demo_times - fst demo_times)) (aq_RemoteAddr ?r)]
       else [])"
    by (rule requests_logged [THEN conjunct2, of demo_api "[''wrong'']" ?r]) (use nk in simp_all)
  ultimately show ?thesis using nk path by (simp add: demo_times_def Milliseconds_def demo_post_def)
qed

end
