(* ===== verification/ApiBehaviour.thy ===== *)
theory ApiBehaviour
  imports ApiServer
begin

text \<open>
  What the handlers of the REST API answer and do, on every branch: the tokens they issue, the commands
  they accept, the pages they return, and what they answer when something is missing.
\<close>

subsection \<open>Issuing a token\<close>

text \<open>The row a request for a token leaves, given what the clock and the generator said.\<close>

lemma handleIssueToken_created:
  assumes "handleIssueToken A r s = (resp, s')" "rs_Status resp = 201"
  obtains req tok now created row where
    "decode_token_request (aq_Body r) = Some req" "it_Label req \<noteq> []"
    "requested_ttl (it_TTLSeconds req) \<le> maxTokenTTL"
    "fst (Generate (ah_Sum256 A) (s_world s)) = Inr tok"
    "now = w_clock (s_world s) (w_tick (snd (Generate (ah_Sum256 A) (s_world s))))"
    "rs_Body resp = TokenIssued \<lparr>ip_ID = tok_ID tok, ip_Token = tok_Plain tok, ip_Label = it_Label req,
        ip_ExpiresAt = now + requested_ttl (it_TTLSeconds req)\<rparr>"
    "row = (new_token_row A tok (it_Label req) created (now + requested_ttl (it_TTLSeconds req)))"
    "tok_ID tok \<notin> tr_id ` set (db_tokens (w_db (s_world s)))"
    "w_db (s_world s') = (w_db (s_world s))\<lparr>db_tokens := db_tokens (w_db (s_world s)) @ [row]\<rparr>"
proof -
  obtain req where req: "decode_token_request (aq_Body r) = Some req" "it_Label req \<noteq> []"
    "requested_ttl (it_TTLSeconds req) \<le> maxTokenTTL"
    using assms by (auto simp: handleIssueToken_def writeError_def writeJSON_def split: option.splits if_splits)
  let ?w = "s_world s"
  obtain g w1 where g: "Generate (ah_Sum256 A) ?w = (g, w1)" by (metis surj_pair)
  have w1: "w_db w1 = w_db ?w" "w_clock w1 = w_clock ?w"
    using g by (auto simp: Generate_def rand_read_def go_now_def new_ulid_def Let_def split: if_splits)
  show ?thesis
  proof (cases g)
    case (Inl e)
    with assms req g show ?thesis
      by (auto simp: handleIssueToken_def on_store_def writeError_def writeJSON_def)
  next
    case (Inr tok)
    let ?now = "w_clock w1 (w_tick w1)" and ?c = "w_clock w1 (Suc (w_tick w1))"
    let ?n = "new_token_row A tok (it_Label req) ?c (?now + requested_ttl (it_TTLSeconds req))"
    obtain i w4 where i: "token_Insert ?n (tick (tick w1)) = (i, w4)" by (metis surj_pair)
    have run: "handleIssueToken A r s =
        (case i of Inl e \<Rightarrow> (internal_error, s\<lparr>s_world := w4\<rparr>)
         | Inr _ \<Rightarrow> (writeJSON 201 (TokenIssued \<lparr>ip_ID = tok_ID tok, ip_Token = tok_Plain tok, ip_Label = it_Label req,
              ip_ExpiresAt = ?now + requested_ttl (it_TTLSeconds req)\<rparr>), s\<lparr>s_world := w4\<rparr>))"
      using req g Inr i by (auto simp: handleIssueToken_def on_store_def go_now_def Let_def split: sum.splits)
    then obtain t where t: "i = Inr t"
      using assms by (cases i) (auto simp: writeError_def writeJSON_def)
    note ins = token_Insert_row [OF i [unfolded t]]
    show ?thesis
    proof (rule that [OF req])
      show "fst (Generate (ah_Sum256 A) ?w) = Inr tok" using g Inr by simp
      show "?now = w_clock ?w (w_tick (snd (Generate (ah_Sum256 A) ?w)))" using g w1(2) by simp
      show "rs_Body resp = TokenIssued \<lparr>ip_ID = tok_ID tok, ip_Token = tok_Plain tok, ip_Label = it_Label req,
          ip_ExpiresAt = ?now + requested_ttl (it_TTLSeconds req)\<rparr>"
        using run assms(1) t by (auto simp: writeJSON_def)
      show "tok_ID tok \<notin> tr_id ` set (db_tokens (w_db ?w))" using ins w1(1) by (simp add: new_token_row_def)
      show "new_token_row A tok (it_Label req) t (?now + requested_ttl (it_TTLSeconds req)) =
          new_token_row A tok (it_Label req) t (?now + requested_ttl (it_TTLSeconds req))" ..
      show "w_db (s_world s') = (w_db ?w)\<lparr>db_tokens := db_tokens (w_db ?w) @
          [new_token_row A tok (it_Label req) t (?now + requested_ttl (it_TTLSeconds req))]\<rparr>"
        using ins run assms(1) t w1(1) by (auto simp: new_token_row_def)
    qed
  qed
qed

text \<open>A request for a token that is answered 201 has stored exactly one new, unused token of the
  configured organisation: the answer gives its ID, its text, which is well-formed and of which only
  the hash is stored, and its expiry, which is at most 24 hours away.\<close>

theorem handleIssueToken_stores:
  assumes "handleIssueToken A r s = (resp, s')" "rs_Status resp = 201"
  shows "\<exists>ip row now. rs_Body resp = TokenIssued ip \<and>
      w_db (s_world s') = (w_db (s_world s))\<lparr>db_tokens := db_tokens (w_db (s_world s)) @ [row]\<rparr> \<and>
      tr_id row = ip_ID ip \<and> ip_ID ip \<notin> tr_id ` set (db_tokens (w_db (s_world s))) \<and>
      tr_token_hash row = HashHex (ah_Sum256 A) (ip_Token ip) \<and> ParseAndValidate (ip_Token ip) = None \<and>
      tr_org_id row = ah_orgID A \<and> tr_label row = Some (ip_Label ip) \<and> ip_Label ip \<noteq> [] \<and>
      tr_used_at row = None \<and> tr_revoked_at row = None \<and> tr_expires_at row = ip_ExpiresAt ip \<and>
      now = w_clock (s_world s) (w_tick (snd (Generate (ah_Sum256 A) (s_world s)))) \<and>
      ip_ExpiresAt ip \<le> now + 24 * time_Hour"
proof -
  from assms obtain req tok now created row where h: "decode_token_request (aq_Body r) = Some req" "it_Label req \<noteq> []"
    "requested_ttl (it_TTLSeconds req) \<le> maxTokenTTL"
    "fst (Generate (ah_Sum256 A) (s_world s)) = Inr tok"
    "now = w_clock (s_world s) (w_tick (snd (Generate (ah_Sum256 A) (s_world s))))"
    "rs_Body resp = TokenIssued \<lparr>ip_ID = tok_ID tok, ip_Token = tok_Plain tok, ip_Label = it_Label req,
        ip_ExpiresAt = now + requested_ttl (it_TTLSeconds req)\<rparr>"
    "row = new_token_row A tok (it_Label req) created (now + requested_ttl (it_TTLSeconds req))"
    "tok_ID tok \<notin> tr_id ` set (db_tokens (w_db (s_world s)))"
    "w_db (s_world s') = (w_db (s_world s))\<lparr>db_tokens := db_tokens (w_db (s_world s)) @ [row]\<rparr>"
    by (rule handleIssueToken_created)
  have "Generate (ah_Sum256 A) (s_world s) = (Inr tok, snd (Generate (ah_Sum256 A) (s_world s)))"
    using h(4) by (metis prod.collapse)
  from Generate_result [OF this] have "ParseAndValidate (tok_Plain tok) = None"
    "hex_bytes (tok_Hash tok) = HashHex (ah_Sum256 A) (tok_Plain tok)" by blast+
  with h show ?thesis
    by (intro exI [where x="\<lparr>ip_ID = tok_ID tok, ip_Token = tok_Plain tok, ip_Label = it_Label req,
        ip_ExpiresAt = now + requested_ttl (it_TTLSeconds req)\<rparr>"] exI [where x=row] exI [where x=now])
       (simp add: new_token_row_def maxTokenTTL_def)
qed

text \<open>A request that passes the checks succeeds, when the generator and the database do.\<close>

lemma handleIssueToken_succeeds:
  assumes "decode_token_request (aq_Body r) = Some req" "it_Label req \<noteq> []"
    "requested_ttl (it_TTLSeconds req) \<le> maxTokenTTL"
    "\<not> w_rand_fails (s_world s) (w_tick (s_world s))" "w_fault (s_world s) = (\<lambda>_. NoFault)"
    "w_ulid (s_world s) (w_tick (s_world s) + 2) \<notin> tr_id ` set (db_tokens (w_db (s_world s)))"
  shows "rs_Status (fst (handleIssueToken A r s)) = 201"
  using assms
  by (simp add: handleIssueToken_def on_store_def Generate_def rand_read_def go_now_def new_ulid_def Let_def
      token_Insert_def exec_stmt_NoFault insert_token_sql_def new_token_row_def wrap_err_def writeJSON_def eval_nat_numeral)

lemma requested_ttl_wraps: "requested_ttl 9223372037 = - 9223372036709551616"
  by (simp add: requested_ttl_def wrap64_eq time_units)

text \<open>C40: The product of \<open>ttl_seconds\<close> and a second wraps: a request for 9223372037 seconds, far over
  the maximum of 24 hours, is not refused but answered 201, with a token that expired before it was
  issued.\<close>

theorem handleIssueToken_wraps:
  assumes "decode_token_request (aq_Body r) = Some req" "it_Label req \<noteq> []" "it_TTLSeconds req = 9223372037"
    "\<not> w_rand_fails (s_world s) (w_tick (s_world s))" "w_fault (s_world s) = (\<lambda>_. NoFault)"
    "w_ulid (s_world s) (w_tick (s_world s) + 2) \<notin> tr_id ` set (db_tokens (w_db (s_world s)))"
  shows "\<exists>resp s' ip. handleIssueToken A r s = (resp, s') \<and> rs_Status resp = 201 \<and> rs_Body resp = TokenIssued ip \<and>
    ip_ExpiresAt ip < w_clock (s_world s) (w_tick (snd (Generate (ah_Sum256 A) (s_world s)))) - 292 * 365 * 24 * time_Hour"
proof -
  obtain resp s' where run: "handleIssueToken A r s = (resp, s')" by (metis surj_pair)
  have "requested_ttl (it_TTLSeconds req) \<le> maxTokenTTL"
    by (simp add: assms(3) requested_ttl_wraps maxTokenTTL_def time_units)
  then have ok: "rs_Status resp = 201"
    using handleIssueToken_succeeds [OF assms(1,2) _ assms(4-6)] run by (metis fst_conv)
  from run ok obtain req' tok now created row where h: "decode_token_request (aq_Body r) = Some req'" "it_Label req' \<noteq> []"
    "requested_ttl (it_TTLSeconds req') \<le> maxTokenTTL"
    "fst (Generate (ah_Sum256 A) (s_world s)) = Inr tok"
    "now = w_clock (s_world s) (w_tick (snd (Generate (ah_Sum256 A) (s_world s))))"
    "rs_Body resp = TokenIssued \<lparr>ip_ID = tok_ID tok, ip_Token = tok_Plain tok, ip_Label = it_Label req',
        ip_ExpiresAt = now + requested_ttl (it_TTLSeconds req')\<rparr>"
    "row = new_token_row A tok (it_Label req') created (now + requested_ttl (it_TTLSeconds req'))"
    "tok_ID tok \<notin> tr_id ` set (db_tokens (w_db (s_world s)))"
    "w_db (s_world s') = (w_db (s_world s))\<lparr>db_tokens := db_tokens (w_db (s_world s)) @ [row]\<rparr>"
    by (rule handleIssueToken_created)
  have "it_TTLSeconds req' = 9223372037" using h(1) assms(1,3) by simp
  then have "now + requested_ttl (it_TTLSeconds req') < now - 292 * 365 * 24 * time_Hour"
    by (simp add: requested_ttl_wraps time_units)
  with run ok h(5,6) show ?thesis by auto
qed

subsection \<open>Pages\<close>

lemma parse_limit_range:
  assumes "parse_limit d m l = Some n" "0 < d" "d \<le> m"
  shows "1 \<le> n \<and> n \<le> m"
  using assms by (auto simp: parse_limit_def split: if_splits option.splits)

lemma command_ListByHost_page:
  assumes "command_ListByHost h limit w = (Inr cs, w')"
  shows "newest_of xr_issued_at (nat limit) (filter_mset (\<lambda>c. xr_host_id c = h) (mset (db_commands (w_db w)))) cs
    \<and> w_db w' = w_db w"
proof -
  have q: "exec_query (list_by_host_sql h limit) w = (Inr cs, w')"
    using assms by (simp add: command_ListByHost_def)
  then have "w_db w' = w_db w" by (rule exec_query_dbD)
  moreover have "newest_of xr_issued_at (nat limit) (filter_mset (\<lambda>c. xr_host_id c = h) (mset (db_commands (w_db w)))) cs"
    using exec_query_Inr [OF q] newest_of_newest
    by (fastforce simp: list_by_host_sql_def simp flip: mset_filter split: if_splits)
  ultimately show ?thesis by simp
qed

text \<open>A page of commands holds only commands of the host asked for, the newest ones first and none
  newer left out, as many as the limit admits: the 20 of the default, or the limit asked for, never
  more than 100. A limit that is no positive integer is refused.\<close>

theorem handleListCommands_page:
  assumes "handleListCommands A r s = (resp, s')" "rs_Status resp = 200"
  shows "\<exists>cs limit. parse_limit 20 100 (first_value (aq_Query r ''limit'')) = Some limit \<and> 1 \<le> limit \<and> limit \<le> 100
    \<and> rs_Body resp = CommandsBody (map toCommandResponse cs) (length cs)
    \<and> newest_of xr_issued_at (nat limit)
        (filter_mset (\<lambda>c. xr_host_id c = first_value (aq_Query r ''host_id'')) (mset (db_commands (w_db (s_world s))))) cs
    \<and> w_db (s_world s') = w_db (s_world s)"
proof -
  let ?h = "first_value (aq_Query r ''host_id'')"
  obtain limit where l: "parse_limit 20 100 (first_value (aq_Query r ''limit'')) = Some limit" and h: "?h \<noteq> []"
    using assms
    by (auto simp: handleListCommands_def Let_def writeError_def writeJSON_def split: if_splits option.splits)
  obtain x w' where x: "command_ListByHost ?h limit (s_world s) = (x, w')" by (metis surj_pair)
  with assms l h obtain cs where cs: "x = Inr cs" "rs_Body resp = CommandsBody (map toCommandResponse cs) (length cs)"
    "s_world s' = w'"
    by (cases x) (auto simp: handleListCommands_def on_store_def writeError_def writeJSON_def Let_def)
  with x have "command_ListByHost ?h limit (s_world s) = (Inr cs, w')" by simp
  from command_ListByHost_page [OF this] cs l parse_limit_range [OF l] show ?thesis by auto
qed

subsection \<open>Issuing a command\<close>

text \<open>What an accepted command request asks for, read from its decoded body.\<close>

definition asks_for :: "api_env \<Rightarrow> IssueCommandRequest \<Rightarrow> command_payload \<Rightarrow> bool" where
  "asks_for A b p \<longleftrightarrow>
     (\<forall>d. ic_Diagnostic b = Some d \<longrightarrow> (\<exists>chk. diagnosticCheckMap A (dj_Check d) = Some chk
        \<and> p = DiagnosticCommand chk (if dj_Params d = Some [] then None else dj_Params d)))
   \<and> (ic_Diagnostic b = None \<longrightarrow> (\<exists>sh. ic_Shell b = Some sh \<and> sj_Binary sh \<noteq> []
        \<and> p = ShellCommand (sj_Binary sh) (map_option sl_elems (sj_Args sh))))"

lemma check_command_asks: "check_command A b = Inr p \<Longrightarrow> asks_for A b p"
  by (auto simp: check_command_def asks_for_def split: option.splits if_splits list.splits)

lemma check_command_request_asks:
  assumes "check_command_request A bd = Inr req"
  shows "\<exists>b p. decode_command_request bd = Some b \<and> ic_HostID b \<noteq> [] \<and> ic_Reason b \<noteq> [] \<and> ic_Tier b \<in> {0, 1}
    \<and> asks_for A b p \<and> req = \<lparr>iq_HostID = ic_HostID b,
        iq_Tier = ah_enum A (if ic_Tier b = 0 then ''CommandTier_COMMAND_TIER_0_SAFE'' else ''CommandTier_COMMAND_TIER_1_VALIDATED''),
        iq_Reason = ic_Reason b, iq_IssuedBy = ic_IssuedBy b, iq_Timeout = ic_TimeoutSeconds b, iq_Command = Known p\<rparr>"
proof -
  obtain b p t where b: "decode_command_request bd = Some b" "ic_HostID b \<noteq> []" "ic_Reason b \<noteq> []"
    "check_tier A (ic_Tier b) = Some t" "check_command A b = Inr p"
    "req = \<lparr>iq_HostID = ic_HostID b, iq_Tier = t, iq_Reason = ic_Reason b, iq_IssuedBy = ic_IssuedBy b,
       iq_Timeout = ic_TimeoutSeconds b, iq_Command = Known p\<rparr>"
    using assms by (auto simp: check_command_request_def split: option.splits sum.splits if_splits)
  then show ?thesis
    using check_command_asks [OF b(5)]
    by (intro exI [of _ b] exI [of _ p]) (auto simp: check_tier_def split: if_splits)
qed

text \<open>C23: What the answer to a command request means. 400: a check failed, and nothing was touched, not even
  the rate limiter. 202: the body asks for a diagnostic or shell command of a known tier, for a host and
  with a reason, and the command with the ID of the answer is stored as pending for its host, with
  the tier, reason, issuer and the encoded message; and exactly one message, with this ID and the tier,
  reason, issuer, timeout and command of the body, was sent to the stream registered for the host when
  there is one and the Send succeeds, and nothing otherwise: the answer does not tell which. 500:
  nothing was sent and, without a fault of the database, nothing stored. There is no other answer.\<close>

theorem handleIssueCommand_answers:
  assumes "handleIssueCommand A r s = (resp, s')" "w_ulid (s_world s) (w_tick (s_world s) + 2) \<noteq> []"
  shows "(\<exists>m. check_command_request A (aq_Body r) = Inl m \<and> resp = writeError 400 m \<and> s' = s)
    \<or> (\<exists>b p k q x. decode_command_request (aq_Body r) = Some b \<and> asks_for A b p \<and> ic_HostID b \<noteq> [] \<and> ic_Reason b \<noteq> []
         \<and> ic_Tier b \<in> {0, 1} \<and> resp = writeJSON 202 (CommandAccepted k) \<and> k \<noteq> []
         \<and> q = \<lparr>cq_Id = k, cq_Tier = ah_enum A (if ic_Tier b = 0 then ''CommandTier_COMMAND_TIER_0_SAFE''
                   else ''CommandTier_COMMAND_TIER_1_VALIDATED''),
                 cq_Reason = ic_Reason b, cq_IssuedBy = ic_IssuedBy b, cq_TimeoutSeconds = ic_TimeoutSeconds b, cq_Command = p\<rparr>
         \<and> find_by xr_id k (db_commands (w_db (s_world s'))) = Some x \<and> xr_host_id x = ic_HostID b
         \<and> xr_status x = ''pending'' \<and> xr_tier x = cq_Tier q \<and> xr_reason x = ic_Reason b
         \<and> xr_issued_by x = ic_IssuedBy b \<and> ah_marshal A q = Inr (xr_command_json x)
         \<and> s_sent s' = s_sent s @
             (case adapter_Get (s_registry s) (ic_HostID b) of
                None \<Rightarrow> []
              | Some st \<Rightarrow> if s_send_error s (s_sends s) = None then [(st, CommandRequest q)] else []))
    \<or> (\<exists>req t. check_command_request A (aq_Body r) = Inr req \<and> resp = writeError 500 t \<and> s_sent s' = s_sent s
         \<and> (w_fault (s_world s) = (\<lambda>_. NoFault) \<longrightarrow> w_db (s_world s') = w_db (s_world s)))"
proof (cases "check_command_request A (aq_Body r)")
  case (Inl m)
  with assms(1) show ?thesis by (simp add: handleIssueCommand_def)
next
  case (Inr req)
  obtain k e s1 where i: "Issue (ah_marshal A) req s = ((k, e), s1)" by (metis surj_pair)
  note out = Issue_result [OF i assms(2)]
  show ?thesis
  proof (cases "k = []")
    case True
    with out obtain er where "e = Some er" by blast
    with True assms(1) Inr i out show ?thesis by (auto simp: handleIssueCommand_def)
  next
    case False
    then have resp: "resp = writeJSON 202 (CommandAccepted k)" "s' = s1"
      using assms(1) Inr i by (auto simp: handleIssueCommand_def split: option.splits)
    obtain x p where x: "find_by xr_id k (db_commands (w_db (s_world s1))) = Some x" "xr_host_id x = iq_HostID req"
      "xr_status x = ''pending''" "xr_tier x = iq_Tier req" "xr_reason x = iq_Reason req" "xr_issued_by x = iq_IssuedBy req"
      and p: "iq_Command req = Known p" "ah_marshal A (build_request k req p) = Inr (xr_command_json x)"
      using out False by blast
    note sent = Issue_pushed [OF i False p(1)]
    obtain b p' where b: "decode_command_request (aq_Body r) = Some b" "ic_HostID b \<noteq> []" "ic_Reason b \<noteq> []"
      "ic_Tier b \<in> {0, 1}" "asks_for A b p'" and req: "req = \<lparr>iq_HostID = ic_HostID b,
        iq_Tier = ah_enum A (if ic_Tier b = 0 then ''CommandTier_COMMAND_TIER_0_SAFE'' else ''CommandTier_COMMAND_TIER_1_VALIDATED''),
        iq_Reason = ic_Reason b, iq_IssuedBy = ic_IssuedBy b, iq_Timeout = ic_TimeoutSeconds b, iq_Command = Known p'\<rparr>"
      using check_command_request_asks [OF Inr] by blast
    have [simp]: "p' = p" using p(1) by (simp add: req)
    let ?q = "\<lparr>cq_Id = k, cq_Tier = iq_Tier req, cq_Reason = ic_Reason b, cq_IssuedBy = ic_IssuedBy b,
        cq_TimeoutSeconds = ic_TimeoutSeconds b, cq_Command = p\<rparr>"
    have q: "build_request k req p = ?q" and host: "iq_HostID req = ic_HostID b"
      and tier: "iq_Tier req = ah_enum A (if ic_Tier b = 0 then ''CommandTier_COMMAND_TIER_0_SAFE''
                   else ''CommandTier_COMMAND_TIER_1_VALIDATED'')"
      by (simp_all add: build_request_def req)
    have "xr_reason x = ic_Reason b" "xr_issued_by x = ic_IssuedBy b" using x by (simp_all add: req)
    with b False x p(2) sent tier show ?thesis
      unfolding pushed_def q host resp
      by (intro disjI2 [OF disjI1] exI [of _ b] exI [of _ p] exI [of _ k] exI [of _ ?q] exI [of _ x] conjI)
        (assumption | simp)+
  qed
qed

text \<open>Revoking a token over the API: 204 for a token not yet revoked, which then has the time of
  revocation in its row; 404 and no change for one that does not exist or was revoked before.\<close>

theorem handleRevokeToken_answers:
  assumes "w_fault (s_world s) (w_tick (s_world s)) = NoFault" "distinct (map tr_id (db_tokens (w_db (s_world s))))"
    "handleRevokeToken A k r s = (resp, s')"
  shows "case find_by tr_id k (db_tokens (w_db (s_world s))) of
      None \<Rightarrow> rs_Status resp = 404 \<and> w_db (s_world s') = w_db (s_world s)
    | Some x \<Rightarrow>
        if tr_revoked_at x \<noteq> None then rs_Status resp = 404 \<and> w_db (s_world s') = w_db (s_world s)
        else rs_Status resp = 204 \<and> find_by tr_id k (db_tokens (w_db (s_world s'))) =
               Some (x\<lparr>tr_revoked_at := Some (w_clock (s_world s) (w_tick (s_world s)))\<rparr>)"
proof -
  let ?d = "w_db (s_world s)" and ?t = "w_clock (s_world s) (w_tick (s_world s))"
  let ?hit = "\<lambda>x. tr_id x = k \<and> tr_revoked_at x = None" and ?f = "\<lambda>x. x\<lparr>tr_revoked_at := Some ?t\<rparr>"
  have run: "handleRevokeToken A k r s =
      (if filter ?hit (db_tokens ?d) = []
       then (writeError 404 (''token '' @ go_quote (ah_is_print A) k @ '' not found''), s\<lparr>s_world := (tick (s_world s))\<lparr>w_db :=
              ?d\<lparr>db_tokens := update_where ?hit ?f (db_tokens ?d)\<rparr>\<rparr>\<rparr>)
       else (\<lparr>rs_Status = 204, rs_Body = NoContent\<rparr>, s\<lparr>s_world := (tick (s_world s))\<lparr>w_db :=
              ?d\<lparr>db_tokens := update_where ?hit ?f (db_tokens ?d)\<rparr>\<rparr>\<rparr>))"
    using assms(1)
    by (simp add: handleRevokeToken_def on_store_def token_Revoke_def exec_stmt_NoFault revoke_token_sql_def Let_def)
  have upd: "find_by tr_id k (update_where ?hit ?f (db_tokens ?d)) =
      map_option (\<lambda>x. if ?hit x then ?f x else x) (find_by tr_id k (db_tokens ?d))"
    by (rule find_by_update_where) simp
  have none: "filter ?hit (db_tokens ?d) = [] \<Longrightarrow> update_where ?hit ?f (db_tokens ?d) = db_tokens ?d"
    by (auto simp: update_where_def filter_empty_conv intro: map_idI)
  show ?thesis
  proof (cases "find_by tr_id k (db_tokens ?d)")
    case None
    then have "filter ?hit (db_tokens ?d) = []" by (auto simp: find_by_None filter_empty_conv)
    with run assms(3) none None show ?thesis by (auto simp: writeError_def writeJSON_def)
  next
    case (Some x)
    then have x: "x \<in> set (db_tokens ?d)" "tr_id x = k" by (blast dest: find_by_SomeD)+
    show ?thesis
    proof (cases "tr_revoked_at x = None")
      case True
      with x have "filter ?hit (db_tokens ?d) \<noteq> []" by (auto simp: filter_empty_conv)
      with run assms(3) upd Some True x show ?thesis by (auto simp: update_where_def)
    next
      case False
      have "y = x" if "y \<in> set (db_tokens ?d)" "tr_id y = k" for y
        using that x assms(2) by (auto simp: distinct_map inj_on_def)
      with False have "filter ?hit (db_tokens ?d) = []" by (auto simp: filter_empty_conv)
      with run assms(3) none Some False show ?thesis by (auto simp: writeError_def writeJSON_def)
    qed
  qed
qed

subsection \<open>Concrete requests\<close>

lemma demo_fields:
  "is_field ''label'' ''label''" "\<not> is_field ''label'' ''TTL_Seconds''" "is_field ''ttl_seconds'' ''TTL_Seconds''"
  by code_simp+

lemma demo_decode:
  "decode_token_request (Some (BObj [(''label'', BStr ''web''), (''TTL_Seconds'', BInt t)])) =
     (if in_i64 t then Some \<lparr>it_Label = ''web'', it_TTLSeconds = t\<rparr> else None)"
  by (simp add: decode_token_request_def token_field_def demo_fields)

definition demo_token_post :: "int \<Rightarrow> api_request" where
  "demo_token_post t = demo_post [''v1'', ''tokens''] (BObj [(''label'', BStr ''web''), (''TTL_Seconds'', BInt t)])"

lemma demo_token_decodes:
  "in_i64 t \<Longrightarrow> decode_token_request (aq_Body (demo_token_post t)) = Some \<lparr>it_Label = ''web'', it_TTLSeconds = t\<rparr>"
  by (simp add: demo_token_post_def demo_post_def demo_decode)

lemma demo_server_works:
  "\<not> w_rand_fails (s_world (demo_server cs)) (w_tick (s_world (demo_server cs)))"
  "w_fault (s_world (demo_server cs)) = (\<lambda>_. NoFault)"
  "w_ulid (s_world (demo_server cs)) (w_tick (s_world (demo_server cs)) + 2) \<notin> tr_id ` set (db_tokens (w_db (s_world (demo_server cs))))"
  by (simp_all add: demo_server_def calm_simps empty_db_def)

theorem handleIssueToken_stores_witness:
  "\<exists>resp s' ip row. handleIssueToken demo_api (demo_token_post 60) (demo_server []) = (resp, s') \<and>
     rs_Body resp = TokenIssued ip \<and> db_tokens (w_db (s_world s')) = [row] \<and>
     tr_token_hash row = HashHex (ah_Sum256 demo_api) (ip_Token ip)"
proof -
  obtain resp s' where run: "handleIssueToken demo_api (demo_token_post 60) (demo_server []) = (resp, s')" by (metis surj_pair)
  have "requested_ttl 60 \<le> maxTokenTTL" by (simp add: requested_ttl_def wrap64_eq maxTokenTTL_def time_units)
  then have "rs_Status (fst (handleIssueToken demo_api (demo_token_post 60) (demo_server []))) = 201"
    by (intro handleIssueToken_succeeds [OF demo_token_decodes]) (simp_all add: in_i64_def demo_server_works demo_server_works(3) [simplified])
  then have "rs_Status resp = 201" by (simp add: run)
  from handleIssueToken_stores [OF run this] obtain ip row where
    "rs_Body resp = TokenIssued ip" "tr_token_hash row = HashHex (ah_Sum256 demo_api) (ip_Token ip)"
    "w_db (s_world s') = (w_db (s_world (demo_server [])))\<lparr>db_tokens := db_tokens (w_db (s_world (demo_server []))) @ [row]\<rparr>"
    by blast
  with run show ?thesis by (simp add: demo_server_def calm_simps empty_db_def)
qed

theorem handleIssueToken_wraps_witness:
  "\<exists>resp s' ip. handleIssueToken demo_api (demo_token_post 9223372037) (demo_server []) = (resp, s') \<and>
     rs_Status resp = 201 \<and> rs_Body resp = TokenIssued ip \<and> ip_ExpiresAt ip < 0"
proof -
  have "in_i64 9223372037" by (simp add: in_i64_def)
  from handleIssueToken_wraps [OF demo_token_decodes [OF this], of "demo_server []" demo_api]
  obtain resp s' ip where "handleIssueToken demo_api (demo_token_post 9223372037) (demo_server []) = (resp, s')"
    "rs_Status resp = 201" "rs_Body resp = TokenIssued ip"
    "ip_ExpiresAt ip < w_clock (s_world (demo_server [])) (w_tick (snd (Generate (ah_Sum256 demo_api) (s_world (demo_server []))))) - 292 * 365 * 24 * time_Hour"
    using demo_server_works by auto
  then show ?thesis
    by (auto simp: demo_server_def calm_simps time_units Generate_def Let_def)
qed

definition demo_get :: "string list \<Rightarrow> (string \<Rightarrow> string list) \<Rightarrow> api_request" where
  "demo_get path q = \<lparr>aq_Method = ''GET'', aq_Path = path, aq_Authorization = [''Bearer k3y''], aq_Query = q, aq_Body = None,
     aq_RemoteAddr = ''10.0.0.9:5000''\<rparr>"

theorem handleListCommands_page_witness:
  "\<exists>resp s' cs. handleListCommands demo_api (demo_get [''v1'', ''commands''] ((\<lambda>_. [])(''host_id'' := [''H1''], ''limit'' := [''500''])))
       (demo_server [sample_command]) = (resp, s')
     \<and> rs_Body resp = CommandsBody (map toCommandResponse cs) (length cs) \<and> length cs \<le> 100"
proof -
  let ?r = "demo_get [''v1'', ''commands''] ((\<lambda>_. [])(''host_id'' := [''H1''], ''limit'' := [''500'']))"
  obtain resp s' where run: "handleListCommands demo_api ?r (demo_server [sample_command]) = (resp, s')" by (metis surj_pair)
  have "parse_limit 20 100 ''500'' = Some 100"
    by (simp add: parse_limit_def atoi_def parse_unsigned_def char_digit_def in_i64_def)
  then have "rs_Status resp = 200"
    using run by (auto simp: handleListCommands_def demo_get_def Let_def on_store_def command_ListByHost_def
        demo_server_def calm_simps list_by_host_sql_def wrap_rows_def writeJSON_def)
  from handleListCommands_page [OF run this] obtain cs limit where
    "limit \<le> 100" "1 \<le> limit" "rs_Body resp = CommandsBody (map toCommandResponse cs) (length cs)"
    "newest_of xr_issued_at (nat limit) (filter_mset (\<lambda>c. xr_host_id c = first_value (aq_Query ?r ''host_id''))
        (mset (db_commands (w_db (s_world (demo_server [sample_command])))))) cs" by blast
  moreover from this have "length cs \<le> 100" by (simp add: newest_of_def)
  ultimately show ?thesis using run by blast
qed

definition demo_command_post :: api_request where
  "demo_command_post = demo_post [''v1'', ''commands'']
     (BObj [(''host_id'', BStr ''H1''), (''reason'', BStr ''check''), (''shell'', BObj [(''binary'', BStr ''ls'')])])"

lemma command_fields:
  "is_field ''host_id'' ''host_id''" "\<not> is_field ''host_id'' ''reason''" "\<not> is_field ''tier'' ''reason''"
  "is_field ''reason'' ''reason''" "\<not> is_field ''host_id'' ''shell''" "\<not> is_field ''tier'' ''shell''"
  "\<not> is_field ''reason'' ''shell''" "\<not> is_field ''issued_by'' ''shell''" "\<not> is_field ''timeout_seconds'' ''shell''"
  "\<not> is_field ''diagnostic'' ''shell''" "is_field ''shell'' ''shell''" "is_field ''binary'' ''binary''"
  by code_simp+

lemma demo_command_checks:
  "\<exists>req. check_command_request demo_api (aq_Body demo_command_post) = Inr req \<and> iq_HostID req = ''H1''
     \<and> iq_Command req = Known (ShellCommand ''ls'' None) \<and> in_i32 (iq_Tier req)"
  by (simp add: check_command_request_def decode_command_request_def command_field_def shell_field_def command_fields
      demo_command_post_def demo_post_def check_tier_def check_command_def demo_api_def in_i32_def)

lemma demo_command_accepted:
  obtains k s' where "handleIssueCommand demo_api demo_command_post (demo_server []) = (writeJSON 202 (CommandAccepted k), s')"
proof -
  obtain req where req: "check_command_request demo_api (aq_Body demo_command_post) = Inr req" "iq_HostID req = ''H1''"
    "iq_Command req = Known (ShellCommand ''ls'' None)" "in_i32 (iq_Tier req)" using demo_command_checks by blast
  have "ah_marshal demo_api = (\<lambda>_. Inr (JObj []))" by (simp add: demo_api_def)
  then have "\<exists>k s1. Issue (ah_marshal demo_api) req (demo_server []) = ((k, None), s1)"
    using req(2-4)
    by (simp add: Issue_def demo_server_def on_store_def calm_simps Allow_def NewRateLimiter_def command_Insert_def
        insert_command_sql_def pending_row_def empty_db_def host_exists_def plain_host_def wrap_err_def
        push_command_def adapter_Get_def registry_GetSender_def stream_Send_def)
  then obtain k s1 where "Issue (ah_marshal demo_api) req (demo_server []) = ((k, None), s1)" by blast
  with req(1) show ?thesis by (intro that [of k s1]) (simp add: handleIssueCommand_def)
qed

lemma demo_server_ulid: "w_ulid (s_world (demo_server [])) (w_tick (s_world (demo_server [])) + 2) \<noteq> []"
  by (simp add: demo_server_def calm_simps)

theorem handleIssueCommand_answers_witness:
  "\<exists>s' k x. handleIssueCommand demo_api demo_command_post (demo_server []) = (writeJSON 202 (CommandAccepted k), s')
     \<and> find_by xr_id k (db_commands (w_db (s_world s'))) = Some x \<and> xr_host_id x = ''H1''"
proof -
  obtain req where req: "check_command_request demo_api (aq_Body demo_command_post) = Inr req" "iq_HostID req = ''H1''"
    using demo_command_checks by blast
  obtain k s' where run: "handleIssueCommand demo_api demo_command_post (demo_server []) = (writeJSON 202 (CommandAccepted k), s')"
    by (rule demo_command_accepted)
  obtain b where b: "decode_command_request (aq_Body demo_command_post) = Some b" "ic_HostID b = ''H1''"
    using check_command_request_asks [OF req(1)] req(2) by auto
  from handleIssueCommand_answers [OF run demo_server_ulid] req(1) b
  obtain x where "find_by xr_id k (db_commands (w_db (s_world s'))) = Some x" "xr_host_id x = ''H1''"
    by (auto simp: writeError_def writeJSON_def)
  with run show ?thesis by blast
qed

definition token_server :: server where
  "token_server = (demo_server [])\<lparr>s_world := calm_world (empty_db\<lparr>db_tokens := [sample_token]\<rparr>)\<rparr>"

theorem handleRevokeToken_answers_witness:
  "\<exists>resp s'. handleRevokeToken demo_api ''T1'' (demo_get [''v1'', ''tokens'', ''T1''] (\<lambda>_. [])) token_server = (resp, s')
     \<and> rs_Status resp = 204
     \<and> find_by tr_id ''T1'' (db_tokens (w_db (s_world s'))) = Some (sample_token\<lparr>tr_revoked_at := Some 0\<rparr>)"
proof -
  obtain resp s' where run: "handleRevokeToken demo_api ''T1'' (demo_get [''v1'', ''tokens'', ''T1''] (\<lambda>_. [])) token_server = (resp, s')"
    by (metis surj_pair)
  have w: "s_world token_server = calm_at 0 (empty_db\<lparr>db_tokens := [sample_token]\<rparr>)"
    by (simp add: token_server_def calm_simps)
  have "w_fault (s_world token_server) (w_tick (s_world token_server)) = NoFault"
    "distinct (map tr_id (db_tokens (w_db (s_world token_server))))" by (simp_all add: w)
  from handleRevokeToken_answers [OF this run] have "rs_Status resp = 204
     \<and> find_by tr_id ''T1'' (db_tokens (w_db (s_world s'))) = Some (sample_token\<lparr>tr_revoked_at := Some 0\<rparr>)"
    unfolding w by (simp add: sample_token_def)
  with run show ?thesis by blast
qed

subsection \<open>From the API to the enrollment\<close>

text \<open>C22: The text of the token in a 201 answer is what an agent enrolls with: presented before its expiry,
  with no fault, while no usable row has the same hash, it authenticates, as the token of the answer's
  ID in the configured organisation; presented at or after its expiry it does not.\<close>

theorem issued_token_authenticates:
  assumes "handleIssueToken A r s = (resp, s')" "rs_Status resp = 201" "rs_Body resp = TokenIssued ip"
    "c_Sum256 c = ah_Sum256 A" "w_db w = w_db (s_world s')" "w_fault w (w_tick w) = NoFault"
    "\<forall>x \<in> set (db_tokens (w_db (s_world s))). tr_token_hash x = HashHex (c_Sum256 c) (ip_Token ip) \<longrightarrow> \<not> token_usable (w_clock w (w_tick w)) x"
  shows "fst (authenticate c False [] (ip_Token ip) w) =
     (if w_clock w (w_tick w) < ip_ExpiresAt ip then Inr (ip_ID ip, ah_orgID A)
      else Inl (Status Unauthenticated ''invalid, expired, or already-used enrollment token''))"
proof -
  from assms(1,2) obtain req tok now created row where h: "decode_token_request (aq_Body r) = Some req" "it_Label req \<noteq> []"
    "requested_ttl (it_TTLSeconds req) \<le> maxTokenTTL"
    "fst (Generate (ah_Sum256 A) (s_world s)) = Inr tok"
    "now = w_clock (s_world s) (w_tick (snd (Generate (ah_Sum256 A) (s_world s))))"
    "rs_Body resp = TokenIssued \<lparr>ip_ID = tok_ID tok, ip_Token = tok_Plain tok, ip_Label = it_Label req,
        ip_ExpiresAt = now + requested_ttl (it_TTLSeconds req)\<rparr>"
    "row = new_token_row A tok (it_Label req) created (now + requested_ttl (it_TTLSeconds req))"
    "tok_ID tok \<notin> tr_id ` set (db_tokens (w_db (s_world s)))"
    "w_db (s_world s') = (w_db (s_world s))\<lparr>db_tokens := db_tokens (w_db (s_world s)) @ [row]\<rparr>"
    by (rule handleIssueToken_created)
  have "Generate (ah_Sum256 A) (s_world s) = (Inr tok, snd (Generate (ah_Sum256 A) (s_world s)))"
    using h(4) by (metis prod.collapse)
  from Generate_result [OF this] have tok: "ParseAndValidate (tok_Plain tok) = None"
    "hex_bytes (tok_Hash tok) = HashHex (c_Sum256 c) (tok_Plain tok)" using assms(4) by auto
  have ip: "ip_Token ip = tok_Plain tok" "ip_ID ip = tok_ID tok" "ip_ExpiresAt ip = now + requested_ttl (it_TTLSeconds req)"
    using assms(3) h(6) by auto
  let ?t = "w_clock w (w_tick w)" and ?h = "HashHex (c_Sum256 c) (ip_Token ip)"
  have "filter (\<lambda>x. tr_token_hash x = ?h \<and> token_usable ?t x) (db_tokens (w_db w)) =
      (if ?t < ip_ExpiresAt ip then [row] else [])"
    using assms(5,7) h(7,9) tok(2) ip by (auto simp: filter_empty_conv token_usable_def new_token_row_def)
  then show ?thesis
    using tok(1) ip assms(6) h(7)
    by (simp add: authenticate_def exec_stmt_NoFault claim_token_sql_def Let_def new_token_row_def split: if_splits)
qed

theorem issued_token_authenticates_witness:
  "\<exists>resp s' ip. handleIssueToken demo_api (demo_token_post 60) (demo_server []) = (resp, s') \<and>
     rs_Body resp = TokenIssued ip \<and>
     fst (authenticate ((demo_crypto [])\<lparr>c_Sum256 := \<lambda>_. [1, 2]\<rparr>) False [] (ip_Token ip) (s_world s')) = Inr (ip_ID ip, ''default'')"
proof -
  obtain resp s' where run: "handleIssueToken demo_api (demo_token_post 60) (demo_server []) = (resp, s')" by (metis surj_pair)
  have "requested_ttl 60 \<le> maxTokenTTL" by (simp add: requested_ttl_def wrap64_eq maxTokenTTL_def time_units)
  then have "rs_Status (fst (handleIssueToken demo_api (demo_token_post 60) (demo_server []))) = 201"
    by (intro handleIssueToken_succeeds [OF demo_token_decodes]) (simp_all add: in_i64_def demo_server_works demo_server_works(3) [simplified])
  then have st: "rs_Status resp = 201" by (simp add: run)
  have "\<exists>ip d. rs_Body resp = TokenIssued ip \<and> s_world s' = calm_at (Suc (Suc (Suc (Suc (Suc (Suc 0)))))) d \<and> ip_ExpiresAt ip > 10000"
    using run demo_token_decodes [of 60]
    by (auto simp: handleIssueToken_def demo_server_def on_store_def calm_simps Generate_def Let_def token_Insert_def
        insert_token_sql_def wrap_err_def writeJSON_def in_i64_def requested_ttl_def wrap64_eq maxTokenTTL_def time_units
        empty_db_def)
  then obtain ip d where ip: "rs_Body resp = TokenIssued ip" "s_world s' = calm_at (Suc (Suc (Suc (Suc (Suc (Suc 0)))))) d" "ip_ExpiresAt ip > 10000"
    by blast
  have "c_Sum256 ((demo_crypto [])\<lparr>c_Sum256 := \<lambda>_. [1, 2]\<rparr>) = ah_Sum256 demo_api" by (simp add: demo_api_def)
  from issued_token_authenticates [OF run st ip(1) this refl]
  have "fst (authenticate ((demo_crypto [])\<lparr>c_Sum256 := \<lambda>_. [1, 2]\<rparr>) False [] (ip_Token ip) (s_world s')) = Inr (ip_ID ip, ah_orgID demo_api)"
    using ip by (simp add: demo_server_def calm_simps empty_db_def)
  with run ip(1) show ?thesis by (simp add: demo_api_def)
qed

end
