(* ===== verification/Flags.thy ===== *)
theory Flags
  imports Prelude
begin

text \<open>
  Go's package \<open>flag\<close> as \<open>cmd/praetor-server\<close> uses it: \<open>FlagSet.Parse\<close> with
  \<open>flag.ExitOnError\<close> on flags that are texts, booleans or durations, with
  \<open>strconv.ParseBool\<close> and \<open>time.ParseDuration\<close>. Parsing stops at the first argument that is
  no flag; what follows is left as positional, flags included. The product of a fraction of a
  duration and its unit, which Go computes in \<open>float64\<close>, is the parameter \<open>frac\<close>.
\<close>

datatype flag_value = FString string | FBool bool | FDuration duration

type_synonym flag_values = "(string \<times> flag_value) list"

datatype flag_result = Parsed flag_values "string list" | FlagExit int

definition parse_bool :: "string \<Rightarrow> bool option" where
  "parse_bool s =
     (if s \<in> {''1'', ''t'', ''T'', ''TRUE'', ''true'', ''True''} then Some True
      else if s \<in> {''0'', ''f'', ''F'', ''FALSE'', ''false'', ''False''} then Some False
      else None)"

subsection \<open>time.ParseDuration\<close>

definition is_digit :: "char \<Rightarrow> bool" where
  "is_digit c \<longleftrightarrow> char_digit c \<noteq> None"

definition digit_int :: "char \<Rightarrow> int" where
  "digit_int c = (case char_digit c of None \<Rightarrow> 0 | Some d \<Rightarrow> int d)"

fun leading_int :: "int \<Rightarrow> string \<Rightarrow> (int \<times> string) option" where
  "leading_int x [] = Some (x, [])"
| "leading_int x (c # s) =
     (if \<not> is_digit c then Some (x, c # s)
      else if x > 2 ^ 63 div 10 then None
      else (let y = x * 10 + digit_int c in if y > 2 ^ 63 then None else leading_int y s))"

text \<open>The digits of a fraction: their value, their number as far as it counts, and what is left.\<close>

fun leading_fraction :: "bool \<Rightarrow> int \<Rightarrow> nat \<Rightarrow> string \<Rightarrow> int \<times> nat \<times> string" where
  "leading_fraction over x k [] = (x, k, [])"
| "leading_fraction over x k (c # s) =
     (if \<not> is_digit c then (x, k, c # s)
      else if over then leading_fraction True x k s
      else if x > (2 ^ 63 - 1) div 10 then leading_fraction True x k s
      else (let y = x * 10 + digit_int c
            in if y > 2 ^ 63 then leading_fraction True x k s else leading_fraction False y (Suc k) s))"

definition unit_of :: "string \<Rightarrow> int option" where
  "unit_of u =
     (if u = ''ns'' then Some 1
      else if u \<in> {''us'', [CHR 0xC2, CHR 0xB5, CHR ''s''], [CHR 0xCE, CHR 0xBC, CHR ''s'']} then Some 1000
      else if u = ''ms'' then Some time_Millisecond
      else if u = ''s'' then Some time_Second
      else if u = ''m'' then Some time_Minute
      else if u = ''h'' then Some time_Hour
      else None)"

definition duration_term :: "(int \<Rightarrow> nat \<Rightarrow> int \<Rightarrow> int) \<Rightarrow> string \<Rightarrow> (int \<times> string) option" where
  "duration_term frac s =
     (case leading_int 0 s of
        None \<Rightarrow> None
      | Some (v, s1) \<Rightarrow>
          (let (f, k, s2, post) =
                 (case s1 of
                    c # r \<Rightarrow>
                      if c = CHR ''.''
                      then (case leading_fraction False 0 0 r of (f, k, r') \<Rightarrow> (f, k, r', length r' \<noteq> length r))
                      else (0, 0, s1, False)
                  | [] \<Rightarrow> (0, 0, s1, False));
               u = takeWhile (\<lambda>c. c \<noteq> CHR ''.'' \<and> \<not> is_digit c) s2
           in if length s1 = length s \<and> \<not> post then None
              else (case unit_of u of
                      None \<Rightarrow> None
                    | Some unit \<Rightarrow>
                        if v > 2 ^ 63 div unit then None
                        else (let w = v * unit + (if f > 0 then frac f k unit else 0)
                              in if w > 2 ^ 63 then None else Some (w, drop (length u) s2)))))"

text \<open>The loop over the terms: each takes at least one character, so the length of the text is fuel enough.\<close>

fun duration_terms :: "(int \<Rightarrow> nat \<Rightarrow> int \<Rightarrow> int) \<Rightarrow> nat \<Rightarrow> int \<Rightarrow> string \<Rightarrow> int option" where
  "duration_terms frac n d [] = Some d"
| "duration_terms frac 0 d (c # s) = None"
| "duration_terms frac (Suc n) d (c # s) =
     (case duration_term frac (c # s) of
        None \<Rightarrow> None
      | Some (v, r) \<Rightarrow> if d + v > 2 ^ 63 then None else duration_terms frac n (d + v) r)"

definition parse_duration :: "(int \<Rightarrow> nat \<Rightarrow> int \<Rightarrow> int) \<Rightarrow> string \<Rightarrow> duration option" where
  "parse_duration frac s =
     (let neg = (case s of c # _ \<Rightarrow> c = CHR ''-'' | [] \<Rightarrow> False);
          b = (case s of c # r \<Rightarrow> if c = CHR ''-'' \<or> c = CHR ''+'' then r else s | [] \<Rightarrow> s)
      in if b = ''0'' then Some 0
         else if b = [] then None
         else (case duration_terms frac (length b) 0 b of
                 None \<Rightarrow> None
               | Some d \<Rightarrow> if neg then Some (- d) else if d > 2 ^ 63 - 1 then None else Some d))"

lemma leading_int_length: "leading_int x s = Some (y, r) \<Longrightarrow> length r \<le> length s"
  by (induction x s rule: leading_int.induct) (auto simp: Let_def split: if_splits)

lemma leading_fraction_length: "leading_fraction ov x k s = (f, n, r) \<Longrightarrow> length r \<le> length s"
  by (induction ov x k s rule: leading_fraction.induct) (auto simp: Let_def split: if_splits)

lemma unit_of_nonempty: "unit_of u = Some v \<Longrightarrow> u \<noteq> []"
  by (auto simp: unit_of_def)

text \<open>A term is never empty, so the fuel of the loop never runs out before the text does.\<close>

lemma duration_term_shorter:
  assumes "duration_term frac s = Some (v, r)"
  shows "length r < length s"
proof -
  obtain x s1 where i: "leading_int 0 s = Some (x, s1)"
    using assms by (auto simp: duration_term_def split: option.splits)
  define q where "q = (case s1 of c # r \<Rightarrow> if c = CHR ''.''
        then (case leading_fraction False 0 0 r of (f, k, r') \<Rightarrow> (f, k, r', length r' \<noteq> length r)) else (0, 0, s1, False)
      | [] \<Rightarrow> (0, 0, s1, False))"
  obtain f k s2 post where p: "q = (f, k, s2, post)" by (cases q)
  have "length s2 \<le> length s1"
  proof (cases s1)
    case (Cons c r)
    show ?thesis
    proof (cases "c = CHR ''.''")
      case True
      obtain f' k' r' where lf: "leading_fraction False 0 0 r = (f', k', r')" by (metis prod_cases3)
      then have "s2 = r'" using p Cons True by (simp add: q_def)
      then show ?thesis using leading_fraction_length [OF lf] Cons by simp
    next
      case False
      then show ?thesis using p Cons by (simp add: q_def)
    qed
  qed (use p in \<open>simp add: q_def\<close>)
  moreover define u where "u = takeWhile (\<lambda>c. c \<noteq> CHR ''.'' \<and> \<not> is_digit c) s2"
  have "u \<noteq> [] \<and> r = drop (length u) s2"
    using assms [unfolded duration_term_def i option.case prod.case, folded q_def, unfolded p Let_def prod.case, folded u_def] unit_of_nonempty [of u]
    by (auto split: if_splits option.splits)
  moreover have "u \<noteq> [] \<Longrightarrow> s2 \<noteq> []" by (auto simp: u_def)
  ultimately have "length r < length s2 \<and> length s2 \<le> length s1" by auto
  then show ?thesis using leading_int_length [OF i] by simp
qed

lemma duration_fuel:
  "length s \<le> n \<Longrightarrow> length s \<le> m \<Longrightarrow> duration_terms frac n d s = duration_terms frac m d s"
proof (induction n arbitrary: m d s)
  case 0
  then show ?case by simp
next
  case (Suc n)
  show ?case
  proof (cases s)
    case (Cons c cs)
    then obtain m' where m: "m = Suc m'" using Suc.prems(2) by (cases m) auto
    have "duration_terms frac n (d + v) r = duration_terms frac m' (d + v) r" if "duration_term frac s = Some (v, r)" for v r
      using duration_term_shorter [OF that] Suc.prems m by (intro Suc.IH) auto
    with Cons m show ?thesis by (auto split: option.splits)
  qed simp
qed

subsection \<open>FlagSet.Parse\<close>

definition set_flag :: "(int \<Rightarrow> nat \<Rightarrow> int \<Rightarrow> int) \<Rightarrow> flag_value \<Rightarrow> string \<Rightarrow> flag_value option" where
  "set_flag frac old v =
     (case old of
        FString _ \<Rightarrow> Some (FString v)
      | FBool _ \<Rightarrow> map_option FBool (parse_bool v)
      | FDuration _ \<Rightarrow> map_option FDuration (parse_duration frac v))"

text \<open>The name and the value of \<open>name=value\<close>; the equals sign is not looked for in first place.\<close>

definition split_value :: "string \<Rightarrow> string \<times> string option" where
  "split_value s =
     (let k = length (takeWhile (\<lambda>c. c \<noteq> CHR ''='') (tl s)) + 1
      in if k < length s then (take k s, Some (drop (k + 1) s)) else (s, None))"

definition update_flag :: "string \<Rightarrow> flag_value \<Rightarrow> flag_values \<Rightarrow> flag_values" where
  "update_flag n v fs = map (\<lambda>(m, x). (m, if m = n then v else x)) fs"

function parse_flags :: "(int \<Rightarrow> nat \<Rightarrow> int \<Rightarrow> int) \<Rightarrow> flag_values \<Rightarrow> string list \<Rightarrow> flag_result" where
  "parse_flags frac fs [] = Parsed fs []"
| "parse_flags frac fs (a # as) =
     (if length a < 2 \<or> hd a \<noteq> CHR ''-'' then Parsed fs (a # as)
      else if a = ''--'' then Parsed fs as
      else (let body = (if a ! 1 = CHR ''-'' then drop 2 a else drop 1 a)
            in if body = [] \<or> hd body = CHR ''-'' \<or> hd body = CHR ''='' then FlagExit 2
               else (case split_value body of
                       (name, v) \<Rightarrow>
                         (case map_of fs name of
                            None \<Rightarrow> FlagExit (if name = ''help'' \<or> name = ''h'' then 0 else 2)
                          | Some old \<Rightarrow>
                              (case (v, old) of
                                 (None, FBool _) \<Rightarrow> parse_flags frac (update_flag name (FBool True) fs) as
                               | (Some t, _) \<Rightarrow>
                                   (case set_flag frac old t of
                                      None \<Rightarrow> FlagExit 2
                                    | Some x \<Rightarrow> parse_flags frac (update_flag name x fs) as)
                               | (None, _) \<Rightarrow>
                                   (case as of
                                      [] \<Rightarrow> FlagExit 2
                                    | t # bs \<Rightarrow>
                                        (case set_flag frac old t of
                                           None \<Rightarrow> FlagExit 2
                                         | Some x \<Rightarrow> parse_flags frac (update_flag name x fs) bs)))))))"
  by pat_completeness auto
termination
  by (relation "measure (\<lambda>(frac, fs, as). length as)") auto

text \<open>Reading a flag back.\<close>

definition flag_string :: "flag_values \<Rightarrow> string \<Rightarrow> string" where
  "flag_string fs n = (case map_of fs n of Some (FString s) \<Rightarrow> s | _ \<Rightarrow> [])"

definition flag_bool :: "flag_values \<Rightarrow> string \<Rightarrow> bool" where
  "flag_bool fs n = (case map_of fs n of Some (FBool b) \<Rightarrow> b | _ \<Rightarrow> False)"

definition flag_duration :: "flag_values \<Rightarrow> string \<Rightarrow> duration" where
  "flag_duration fs n = (case map_of fs n of Some (FDuration d) \<Rightarrow> d | _ \<Rightarrow> 0)"

lemma parse_flags_positional:
  "a = [] \<or> hd a \<noteq> CHR ''-'' \<Longrightarrow> parse_flags frac fs (a # as) = Parsed fs (a # as)"
  by auto

declare parse_flags.simps(2) [simp del]

end
