(* ===== verification/Config.thy ===== *)
theory Config
  imports World
begin

text \<open>
  \<open>internal/config/config.go\<close>: the configuration file. Opening a file gives its contents or an error
  (\<open>open_file\<close>), and the YAML library, strict about unknown keys, decodes the contents into the
  struct or refuses them (\<open>decode\<close>); both are parameters.
\<close>

record Config =
  cfg_GRPCListen :: string
  cfg_HTTPListen :: string
  cfg_PostgresDSN :: string
  cfg_VictoriaMetricsURL :: string
  cfg_LokiURL :: string
  cfg_DataDir :: string
  cfg_GRPCServerDNSNames :: "string list"
  cfg_APIKey :: string
  cfg_OrgID :: string
  cfg_AlertWebhookURL :: string

definition or_default :: "'a list \<Rightarrow> 'a list \<Rightarrow> 'a list" where
  "or_default x d = (if x = [] then d else x)"

definition apply_defaults :: "Config \<Rightarrow> Config" where
  "apply_defaults c =
     c\<lparr>cfg_GRPCListen := or_default (cfg_GRPCListen c) '':8443'',
       cfg_HTTPListen := or_default (cfg_HTTPListen c) '':8080'',
       cfg_DataDir := or_default (cfg_DataDir c) ''./tmp/data'',
       cfg_GRPCServerDNSNames := or_default (cfg_GRPCServerDNSNames c) [''localhost''],
       cfg_OrgID := or_default (cfg_OrgID c) ''default''\<rparr>"

definition missing_field :: "Config \<Rightarrow> string option" where
  "missing_field c =
     (if cfg_APIKey c = [] then Some ''config: api_key is required''
      else if cfg_PostgresDSN c = [] then Some ''config: postgres_dsn is required''
      else if cfg_VictoriaMetricsURL c = [] then Some ''config: victoriametrics_url is required''
      else if cfg_LokiURL c = [] then Some ''config: loki_url is required''
      else None)"

definition Load ::
  "(string \<Rightarrow> string + 'f) \<Rightarrow> ('f \<Rightarrow> string + Config) \<Rightarrow> string \<Rightarrow> go_error + Config" where
  "Load open_file decode path =
     (case open_file path of
        Inl e \<Rightarrow> Inl (Wrapped (''config: open '' @ path) (ErrorText e))
      | Inr f \<Rightarrow>
          (case decode f of
             Inl e \<Rightarrow> Inl (Wrapped (''config: decode '' @ path) (ErrorText e))
           | Inr cfg \<Rightarrow>
               (let c = apply_defaults cfg
                in case missing_field c of Some m \<Rightarrow> Inl (ErrorText m) | None \<Rightarrow> Inr c)))"

lemma or_default_nonempty: "d \<noteq> [] \<Longrightarrow> or_default x d \<noteq> []" "d \<noteq> [] \<Longrightarrow> [] \<noteq> or_default x d" "x \<noteq> [] \<Longrightarrow> or_default x d = x" "or_default [] d = d"
  by (simp_all add: or_default_def)

lemma missing_field_iff:
  "missing_field c = None \<longleftrightarrow>
     cfg_APIKey c \<noteq> [] \<and> cfg_PostgresDSN c \<noteq> [] \<and> cfg_VictoriaMetricsURL c \<noteq> [] \<and> cfg_LokiURL c \<noteq> []"
  by (simp add: missing_field_def)

text \<open>\<open>Load\<close> returns a configuration exactly when the file opens and decodes and its four required
  settings are not empty. In the result every setting but the webhook is non-empty: what the file gives
  is as given, and the rest has its default. In particular the API key is never empty.\<close>

theorem Load_result:
  "case Load open_file decode path of
     Inl e \<Rightarrow> (\<forall>f cfg. open_file path = Inr f \<longrightarrow> decode f = Inr cfg \<longrightarrow>
        [] \<in> {cfg_APIKey cfg, cfg_PostgresDSN cfg, cfg_VictoriaMetricsURL cfg, cfg_LokiURL cfg})
   | Inr c \<Rightarrow> (\<exists>f cfg. open_file path = Inr f \<and> decode f = Inr cfg \<and> c = apply_defaults cfg
        \<and> cfg_APIKey c = cfg_APIKey cfg \<and> cfg_AlertWebhookURL c = cfg_AlertWebhookURL cfg
        \<and> (cfg_OrgID cfg \<noteq> [] \<longrightarrow> cfg_OrgID c = cfg_OrgID cfg) \<and> (cfg_OrgID cfg = [] \<longrightarrow> cfg_OrgID c = ''default''))
        \<and> [] \<notin> {cfg_APIKey c, cfg_PostgresDSN c, cfg_VictoriaMetricsURL c, cfg_LokiURL c, cfg_GRPCListen c,
             cfg_HTTPListen c, cfg_DataDir c, cfg_OrgID c}
        \<and> cfg_GRPCServerDNSNames c \<noteq> []"
proof (cases "open_file path")
  case (Inr f)
  show ?thesis
  proof (cases "decode f")
    case (Inr cfg)
    show ?thesis
    proof (cases "missing_field (apply_defaults cfg)")
      case None
      then have req: "cfg_APIKey cfg \<noteq> []" "cfg_PostgresDSN cfg \<noteq> []" "cfg_VictoriaMetricsURL cfg \<noteq> []"
        "cfg_LokiURL cfg \<noteq> []" unfolding missing_field_iff by (simp_all add: apply_defaults_def)
      have "Load open_file decode path = Inr (apply_defaults cfg)"
        using \<open>open_file path = Inr f\<close> Inr None by (simp add: Load_def Let_def)
      then show ?thesis
        using \<open>open_file path = Inr f\<close> Inr req by (auto simp: apply_defaults_def or_default_nonempty)
    next
      case (Some m)
      then have "\<not> missing_field (apply_defaults cfg) = None" by simp
      then have "[] \<in> {cfg_APIKey cfg, cfg_PostgresDSN cfg, cfg_VictoriaMetricsURL cfg, cfg_LokiURL cfg}"
        unfolding missing_field_iff by (auto simp: apply_defaults_def)
      with \<open>open_file path = Inr f\<close> Inr Some show ?thesis by (simp add: Load_def Let_def)
    qed
  qed (simp add: Load_def Inr)
qed (simp add: Load_def)

definition demo_config :: Config where
  "demo_config = \<lparr>cfg_GRPCListen = [], cfg_HTTPListen = [], cfg_PostgresDSN = ''postgres://db'',
     cfg_VictoriaMetricsURL = ''http://vm'', cfg_LokiURL = ''http://loki'', cfg_DataDir = [],
     cfg_GRPCServerDNSNames = [], cfg_APIKey = ''k3y'', cfg_OrgID = [], cfg_AlertWebhookURL = []\<rparr>"

theorem Load_result_witness:
  "\<exists>c. Load (\<lambda>p. Inr ()) (\<lambda>_. Inr demo_config) ''server.yaml'' = Inr c \<and> cfg_OrgID c = ''default'' \<and> cfg_APIKey c \<noteq> []"
proof -
  have "\<exists>c. Load (\<lambda>p. Inr ()) (\<lambda>_. Inr demo_config) ''server.yaml'' = Inr c"
    by (simp add: Load_def missing_field_def apply_defaults_def demo_config_def)
  then obtain c where "Load (\<lambda>p. Inr ()) (\<lambda>_. Inr demo_config) ''server.yaml'' = Inr c" by blast
  moreover from this Load_result [where open_file="\<lambda>p. Inr ()" and decode="\<lambda>_. Inr demo_config" and path="''server.yaml''"]
  have "cfg_OrgID c = ''default'' \<and> cfg_APIKey c \<noteq> []" by (auto simp: demo_config_def apply_defaults_def or_default_def)
  ultimately show ?thesis by blast
qed

end
