(* ===== verification/Cli.thy ===== *)
theory Cli
  imports Flags Config Token TokenStore ConfigStore CA
begin

text \<open>
  \<open>cmd/praetor-server\<close>: the subcommands \<open>token\<close>, \<open>config\<close> and \<open>migrate\<close>, and which of them
  runs, with \<open>internal/db/db.go\<close>. A run of a command ends with what it
  printed, as values (a line of the log is its message followed by its error), and its exit status.
  The Postgres driver, the YAML decoder, the file system of
  the configuration file and the migration tool are fields of \<open>cli_env\<close>.
\<close>

record 'f cli_env =
  cl_open :: "string \<Rightarrow> string + 'f"
  cl_decode :: "'f \<Rightarrow> string + Config"
  cl_pg_parse :: "string \<Rightarrow> string option"
  cl_pg_new :: "string \<Rightarrow> string option"
  cl_pg_ping :: "string \<Rightarrow> string option"
  cl_dialect :: "string option"
  cl_goose :: "string \<Rightarrow> world \<Rightarrow> string option \<times> world"
  cl_frac :: "int \<Rightarrow> nat \<Rightarrow> int \<Rightarrow> int"
  cl_Sum256 :: "string \<Rightarrow> bytes"
  cl_rows_read :: nat
  cl_is_print :: "nat \<Rightarrow> bool"

subsection \<open>internal/db/db.go\<close>

definition db_Connect :: "'f cli_env \<Rightarrow> string \<Rightarrow> go_error option" where
  "db_Connect E dsn =
     (case cl_pg_parse E dsn of
        Some e \<Rightarrow> Some (Wrapped ''db: parse config'' (ErrorText e))
      | None \<Rightarrow>
          (case cl_pg_new E dsn of
             Some e \<Rightarrow> Some (Wrapped ''db: connect'' (ErrorText e))
           | None \<Rightarrow>
               (case cl_pg_ping E dsn of
                  Some e \<Rightarrow> Some (Wrapped ''db: ping'' (ErrorText e))
                | None \<Rightarrow> None)))"

definition db_Migrate :: "'f cli_env \<Rightarrow> world \<Rightarrow> go_error option \<times> world" where
  "db_Migrate E w =
     (case cl_dialect E of
        Some e \<Rightarrow> (Some (Wrapped ''db: migrate set dialect'' (ErrorText e)), w)
      | None \<Rightarrow>
          (case cl_goose E ''up'' w of
             (Some e, w1) \<Rightarrow> (Some (Wrapped ''db: migrate up'' (ErrorText e)), w1)
           | (None, w1) \<Rightarrow> (None, w1)))"

subsection \<open>What a command prints\<close>

record token_line =
  tl_id :: string
  tl_label :: string
  tl_created :: instant
  tl_expires :: instant
  tl_status :: string

datatype cli_output =
    Stderr string
  | TokenPrinted string string instant duration string
  | TokenTable "token_line list"
  | TokenRevoked string
  | ConfigUpdated string string int
  | ConfigShown config_row
  | MigrationComplete string
  | NotInteger string
  | UnknownDirection string

type_synonym cli_end = "cli_output list \<times> int"

definition exit1 :: "string \<Rightarrow> cli_end" where
  "exit1 m = ([Stderr m], 1)"

text \<open>Loading the configuration and connecting, as every command does; the two error texts differ.\<close>

definition with_pool ::
  "'f cli_env \<Rightarrow> string \<Rightarrow> string \<Rightarrow> string \<Rightarrow> (world \<Rightarrow> cli_end \<times> world) \<Rightarrow> world \<Rightarrow> cli_end \<times> world" where
  "with_pool E loadErr connErr path body w =
     (case Load (cl_open E) (cl_decode E) path of
        Inl e \<Rightarrow> (exit1 (loadErr @ error_text e), w)
      | Inr cfg \<Rightarrow>
          (case db_Connect E (cfg_PostgresDSN cfg) of
             Some e \<Rightarrow> (exit1 (connErr @ error_text e), w)
           | None \<Rightarrow> body w))"

definition config_flag :: "string \<times> flag_value" where
  "config_flag = (''config'', FString ''/etc/praetor/server.yaml'')"

subsection \<open>cmd/praetor-server/token.go\<close>

definition cli_token_row :: "token \<Rightarrow> string \<Rightarrow> string \<Rightarrow> instant \<Rightarrow> instant \<Rightarrow> token_row" where
  "cli_token_row tok label org created expires =
     \<lparr>tr_id = tok_ID tok, tr_token_hash = hex_bytes (tok_Hash tok), tr_label = Some label, tr_org_id = org,
      tr_created_by = Some ''cli'', tr_created_at = created, tr_expires_at = expires, tr_used_at = None,
      tr_used_by_host_id = None, tr_revoked_at = None\<rparr>"

definition issue_token :: "'f cli_env \<Rightarrow> string \<Rightarrow> duration \<Rightarrow> string \<Rightarrow> world \<Rightarrow> cli_end \<times> world" where
  "issue_token E label ttl org w =
     (case Generate (cl_Sum256 E) w of
        (Inl e, w1) \<Rightarrow> (exit1 (''error generating token: '' @ error_text e), w1)
      | (Inr tok, w1) \<Rightarrow>
          (let (now, w2) = go_now w1; expiresAt = now + ttl; (created, w3) = go_now w2
           in case token_Insert (cli_token_row tok label org created expiresAt) w3 of
                (Inl e, w4) \<Rightarrow> (exit1 (''error inserting token: '' @ error_text e), w4)
              | (Inr _, w4) \<Rightarrow> (([TokenPrinted (tok_Plain tok) label expiresAt ttl org], 0), w4)))"

definition runTokenIssue :: "'f cli_env \<Rightarrow> string list \<Rightarrow> world \<Rightarrow> cli_end \<times> world" where
  "runTokenIssue E args w =
     (case parse_flags (cl_frac E) [config_flag, (''label'', FString []), (''ttl'', FDuration (15 * time_Minute)),
             (''org'', FString ''default'')] args of
        FlagExit n \<Rightarrow> (([], n), w)
      | Parsed fs _ \<Rightarrow>
          if flag_string fs ''label'' = [] then (exit1 ''error: --label is required'', w)
          else if flag_duration fs ''ttl'' > 24 * time_Hour then (exit1 ''error: --ttl must not exceed 24h'', w)
          else with_pool E ''error loading config: '' ''error connecting to postgres: '' (flag_string fs ''config'')
                 (issue_token E (flag_string fs ''label'') (flag_duration fs ''ttl'') (flag_string fs ''org'')) w)"

definition cli_list_sql :: "string \<Rightarrow> bool \<Rightarrow> bool \<Rightarrow> instant \<Rightarrow> db \<Rightarrow> db_error + token_row list" where
  "cli_list_sql org includeUsed includeExpired t d =
     Inr (sort_key (\<lambda>r. - tr_created_at r)
       (filter (\<lambda>r. tr_org_id r = org \<and> (\<not> includeUsed \<longrightarrow> tr_used_at r = None)
                    \<and> (\<not> includeExpired \<longrightarrow> tr_expires_at r > t) \<and> tr_revoked_at r = None) (db_tokens d)))"

text \<open>The table: one line per row; the clock is read only for a row neither revoked nor used.\<close>

definition line_of :: "token_row \<Rightarrow> string \<Rightarrow> token_line" where
  "line_of r st =
     \<lparr>tl_id = tr_id r, tl_label = (case tr_label r of None \<Rightarrow> [] | Some l \<Rightarrow> l), tl_created = tr_created_at r,
      tl_expires = tr_expires_at r, tl_status = st\<rparr>"

definition row_status :: "token_row \<Rightarrow> world \<Rightarrow> string \<times> world" where
  "row_status r w =
     (if tr_revoked_at r \<noteq> None then (''revoked'', w)
      else if tr_used_at r \<noteq> None then (''used'', w)
      else (case go_now w of (now, w') \<Rightarrow> (if tr_expires_at r < now then ''expired'' else ''active'', w')))"

fun print_rows :: "token_row list \<Rightarrow> world \<Rightarrow> token_line list \<times> world" where
  "print_rows [] w = ([], w)"
| "print_rows (r # rs) w =
     (case row_status r w of
        (st, w1) \<Rightarrow> (case print_rows rs w1 of (ls, w2) \<Rightarrow> (line_of r st # ls, w2)))"

text \<open>An error while the rows are read ends the loop and is not looked at: the rows read so far are printed.\<close>

definition list_tokens :: "'f cli_env \<Rightarrow> string \<Rightarrow> bool \<Rightarrow> bool \<Rightarrow> world \<Rightarrow> cli_end \<times> world" where
  "list_tokens E org includeUsed includeExpired w =
     (case exec_query (cli_list_sql org includeUsed includeExpired) w of
        (Inr rs, w1) \<Rightarrow> (case print_rows rs w1 of (ls, w2) \<Rightarrow> (([TokenTable ls], 0), w2))
      | (Inl e, w1) \<Rightarrow>
          if w_fault w (w_tick w) = LostBefore then (exit1 (''error querying tokens: '' @ error_text e), w1)
          else (case cli_list_sql org includeUsed includeExpired (w_clock w (w_tick w)) (w_db w) of
                  Inl _ \<Rightarrow> (([TokenTable []], 0), w1)
                | Inr rs \<Rightarrow>
                    (case print_rows (take (cl_rows_read E) rs) w1 of (ls, w2) \<Rightarrow> (([TokenTable ls], 0), w2))))"

definition runTokenList :: "'f cli_env \<Rightarrow> string list \<Rightarrow> world \<Rightarrow> cli_end \<times> world" where
  "runTokenList E args w =
     (case parse_flags (cl_frac E) [config_flag, (''org'', FString ''default''), (''include-used'', FBool False),
             (''include-expired'', FBool False)] args of
        FlagExit n \<Rightarrow> (([], n), w)
      | Parsed fs _ \<Rightarrow>
          with_pool E ''error loading config: '' ''error connecting to postgres: '' (flag_string fs ''config'')
            (list_tokens E (flag_string fs ''org'') (flag_bool fs ''include-used'') (flag_bool fs ''include-expired'')) w)"

definition runTokenRevoke :: "'f cli_env \<Rightarrow> string list \<Rightarrow> world \<Rightarrow> cli_end \<times> world" where
  "runTokenRevoke E args w =
     (case parse_flags (cl_frac E) [config_flag] args of
        FlagExit n \<Rightarrow> (([], n), w)
      | Parsed fs [] \<Rightarrow> (exit1 ''usage: praetor-server token revoke <id>'', w)
      | Parsed fs (k # _) \<Rightarrow>
          with_pool E ''error loading config: '' ''error connecting to postgres: '' (flag_string fs ''config'')
            (\<lambda>w. case token_Revoke k w of
                   (Inl e, w1) \<Rightarrow> (exit1 (''error revoking token: '' @ error_text e), w1)
                 | (Inr _, w1) \<Rightarrow> (([TokenRevoked k], 0), w1)) w)"

definition runToken :: "'f cli_env \<Rightarrow> string list \<Rightarrow> world \<Rightarrow> cli_end \<times> world" where
  "runToken E args w =
     (case args of
        [] \<Rightarrow> (exit1 ''usage: praetor-server token <issue|list|revoke>'', w)
      | c # rest \<Rightarrow>
          if c = ''issue'' then runTokenIssue E rest w
          else if c = ''list'' then runTokenList E rest w
          else if c = ''revoke'' then runTokenRevoke E rest w
          else (exit1 (''unknown token subcommand: '' @ c), w))"

subsection \<open>cmd/praetor-server/configcmd.go\<close>

text \<open>\<open>strings.SplitN(s, "=", 2)\<close>: the key and the value, when there is an equals sign.\<close>

definition split_assignment :: "string \<Rightarrow> (string \<times> string) option" where
  "split_assignment s =
     (let k = takeWhile (\<lambda>c. c \<noteq> CHR ''='') s
      in if length k < length s then Some (k, drop (length k + 1) s) else None)"

definition runConfigSet :: "'f cli_env \<Rightarrow> string list \<Rightarrow> world \<Rightarrow> cli_end \<times> world" where
  "runConfigSet E args w =
     (case parse_flags (cl_frac E) [config_flag] args of
        FlagExit n \<Rightarrow> (([], n), w)
      | Parsed fs (hostID # asg # _) \<Rightarrow>
          (case split_assignment asg of
             None \<Rightarrow> (exit1 ''error: expected key=value'', w)
           | Some (key, valueStr) \<Rightarrow>
               (case atoi valueStr of
                  None \<Rightarrow> (([NotInteger valueStr], 1), w)
                | Some v \<Rightarrow>
                    with_pool E ''error: '' ''db error: '' (flag_string fs ''config'')
                      (\<lambda>w. case config_SetField (cl_is_print E) hostID key v w of
                             (Inl e, w1) \<Rightarrow> (exit1 (''error: '' @ error_text e), w1)
                           | (Inr _, w1) \<Rightarrow> (([ConfigUpdated hostID key v], 0), w1)) w))
      | Parsed fs _ \<Rightarrow> (exit1 ''usage: praetor-server config set <host_id> <key>=<value>'', w))"

definition runConfigGet :: "'f cli_env \<Rightarrow> string list \<Rightarrow> world \<Rightarrow> cli_end \<times> world" where
  "runConfigGet E args w =
     (case parse_flags (cl_frac E) [config_flag] args of
        FlagExit n \<Rightarrow> (([], n), w)
      | Parsed fs [] \<Rightarrow> (exit1 ''usage: praetor-server config get <host_id>'', w)
      | Parsed fs (hostID # _) \<Rightarrow>
          with_pool E ''error: '' ''db error: '' (flag_string fs ''config'')
            (\<lambda>w. case config_Get hostID w of
                   (Inl e, w1) \<Rightarrow> (exit1 (''error: '' @ error_text e), w1)
                 | (Inr c, w1) \<Rightarrow> (([ConfigShown c], 0), w1)) w)"

definition runConfigCmd :: "'f cli_env \<Rightarrow> string list \<Rightarrow> world \<Rightarrow> cli_end \<times> world" where
  "runConfigCmd E args w =
     (case args of
        [] \<Rightarrow> (exit1 ''usage: praetor-server config <set|get>'', w)
      | c # rest \<Rightarrow>
          if c = ''set'' then runConfigSet E rest w
          else if c = ''get'' then runConfigGet E rest w
          else (exit1 (''unknown config subcommand: '' @ c), w))"

subsection \<open>cmd/praetor-server/migrate.go\<close>

text \<open>The loop that sorts the arguments into flags and positional ones.\<close>

fun split_args :: "string list \<Rightarrow> string list \<times> string list" where
  "split_args [] = ([], [])"
| "split_args (a # as) =
     (if a = ''--config'' \<or> a = ''-config''
      then (case as of
              [] \<Rightarrow> ([a], [])
            | v # bs \<Rightarrow> (case split_args bs of (fs, ps) \<Rightarrow> (a # v # fs, ps)))
      else if length a > 1 \<and> hd a = CHR ''-'' then (case split_args as of (fs, ps) \<Rightarrow> (a # fs, ps))
      else (case split_args as of (fs, ps) \<Rightarrow> (fs, a # ps)))"

definition run_goose :: "'f cli_env \<Rightarrow> string \<Rightarrow> world \<Rightarrow> cli_end \<times> world" where
  "run_goose E direction w =
     (case cl_dialect E of
        Some e \<Rightarrow> (exit1 (''set dialect'' @ e), w)
      | None \<Rightarrow>
          if direction \<in> {''up'', ''down'', ''status'', ''version''}
          then (case cl_goose E direction w of
                  (Some e, w1) \<Rightarrow> (exit1 (''migration failed'' @ e), w1)
                | (None, w1) \<Rightarrow> (([MigrationComplete direction], 0), w1))
          else (([UnknownDirection direction], 1), w))"

definition runMigrate :: "'f cli_env \<Rightarrow> string list \<Rightarrow> world \<Rightarrow> cli_end \<times> world" where
  "runMigrate E args w =
     (case split_args args of
        (flagArgs, posArgs) \<Rightarrow>
          (case parse_flags (cl_frac E) [config_flag] flagArgs of
             FlagExit n \<Rightarrow> (([], n), w)
           | Parsed fs _ \<Rightarrow>
               with_pool E ''failed to load config'' ''failed to connect to postgres'' (flag_string fs ''config'')
                 (run_goose E (case posArgs of [] \<Rightarrow> ''up'' | d # _ \<Rightarrow> d)) w))"

subsection \<open>cmd/praetor-server/main.go: which command runs\<close>

datatype main_action =
    Migrate "string list"
  | TokenCmd "string list"
  | ConfigCmd "string list"
  | Serve string
  | MainExit int

definition main_dispatch :: "(int \<Rightarrow> nat \<Rightarrow> int \<Rightarrow> int) \<Rightarrow> string list \<Rightarrow> main_action" where
  "main_dispatch frac args =
     (let serve = (case parse_flags frac [config_flag] args of
                     FlagExit n \<Rightarrow> MainExit n
                   | Parsed fs _ \<Rightarrow> Serve (flag_string fs ''config''))
      in case args of
           [] \<Rightarrow> serve
         | c # rest \<Rightarrow>
             if c = ''migrate'' then Migrate rest
             else if c = ''token'' then TokenCmd rest
             else if c = ''config'' then ConfigCmd rest
             else serve)"

definition run_command :: "'f cli_env \<Rightarrow> string list \<Rightarrow> world \<Rightarrow> (cli_end \<times> world) option" where
  "run_command E args w =
     (case main_dispatch (cl_frac E) args of
        Migrate rest \<Rightarrow> Some (runMigrate E rest w)
      | TokenCmd rest \<Rightarrow> Some (runToken E rest w)
      | ConfigCmd rest \<Rightarrow> Some (runConfigCmd E rest w)
      | MainExit n \<Rightarrow> Some (([], n), w)
      | Serve _ \<Rightarrow> None)"

subsection \<open>What the commands do\<close>

text \<open>Where \<open>--config\<close> may stand: \<open>migrate\<close> takes it before or after its direction, but
  \<open>config set\<close>, whose usage comment puts it last, does not look at anything after the host and the
  assignment: with the flag there the command silently works with the default configuration file.\<close>

theorem config_flag_position:
  assumes "h = [] \<or> hd h \<noteq> CHR ''-''"
  shows "runConfigSet E (h # asg # ''--config'' # p # rest) w = runConfigSet E [h, asg] w
    \<and> runMigrate E [''up'', ''--config'', p] w = runMigrate E [''--config'', p, ''up''] w"
  by (simp add: runConfigSet_def runMigrate_def parse_flags_positional [OF assms])

text \<open>A token issued on the command line.\<close>

lemma issue_token_printed:
  assumes "issue_token E label ttl org w = (([TokenPrinted plain l exp t og], st), w')"
  obtains tok now created row where
    "Generate (cl_Sum256 E) w = (Inr tok, snd (Generate (cl_Sum256 E) w))" "plain = tok_Plain tok" "l = label" "t = ttl"
    "og = org" "st = 0" "now = w_clock w (w_tick (snd (Generate (cl_Sum256 E) w)))" "exp = now + ttl"
    "row = cli_token_row tok label org created exp" "w_db w' = (w_db w)\<lparr>db_tokens := db_tokens (w_db w) @ [row]\<rparr>"
proof -
  obtain g w1 where g: "Generate (cl_Sum256 E) w = (g, w1)" by (metis surj_pair)
  have w1: "w_db w1 = w_db w" "w_clock w1 = w_clock w"
    using g by (auto simp: Generate_def rand_read_def go_now_def new_ulid_def Let_def split: if_splits)
  from assms g obtain tok where tok: "g = Inr tok" by (cases g) (auto simp: issue_token_def exit1_def)
  let ?now = "w_clock w1 (w_tick w1)"
  let ?n = "cli_token_row tok label org (w_clock w1 (Suc (w_tick w1))) (?now + ttl)"
  obtain i w4 where i: "token_Insert ?n (tick (tick w1)) = (i, w4)" by (metis surj_pair)
  from assms g tok i obtain c where c: "i = Inr c" and out: "plain = tok_Plain tok" "l = label" "t = ttl" "og = org"
    "st = 0" "exp = ?now + ttl" "w' = w4"
    by (cases i) (auto simp: issue_token_def exit1_def go_now_def Let_def)
  from token_Insert_row [OF i [unfolded c]] have "w_db w4 = (w_db w)\<lparr>db_tokens := db_tokens (w_db w) @
      [cli_token_row tok label org c (?now + ttl)]\<rparr>"
    using w1(1) by (simp add: cli_token_row_def)
  with g tok out w1(2) show ?thesis by (intro that [of tok ?now "cli_token_row tok label org c (?now + ttl)" c]) auto
qed

text \<open>When \<open>token issue\<close> prints a token, it has stored exactly one new, unused row, made by the
  command line for the organisation asked for, with the hash of that token and an expiry at most 24
  hours away.\<close>

theorem runTokenIssue_stores:
  assumes "runTokenIssue E args w = (([TokenPrinted plain label exp ttl org], st), w')"
  shows "\<exists>row now. w_db w' = (w_db w)\<lparr>db_tokens := db_tokens (w_db w) @ [row]\<rparr> \<and> st = 0
    \<and> tr_token_hash row = HashHex (cl_Sum256 E) plain \<and> ParseAndValidate plain = None
    \<and> tr_org_id row = org \<and> tr_label row = Some label \<and> label \<noteq> [] \<and> tr_created_by row = Some ''cli''
    \<and> tr_used_at row = None \<and> tr_revoked_at row = None \<and> tr_expires_at row = exp
    \<and> now = w_clock w (w_tick (snd (Generate (cl_Sum256 E) w))) \<and> exp = now + ttl \<and> ttl \<le> 24 * time_Hour"
proof -
  obtain fs rest where p: "parse_flags (cl_frac E) [config_flag, (''label'', FString []), (''ttl'', FDuration (15 * time_Minute)),
      (''org'', FString ''default'')] args = Parsed fs rest"
    using assms by (auto simp: runTokenIssue_def split: flag_result.splits)
  let ?l = "flag_string fs ''label''" and ?t = "flag_duration fs ''ttl''" and ?o = "flag_string fs ''org''"
  have l: "?l \<noteq> []" "?t \<le> 24 * time_Hour"
    using assms p by (auto simp: runTokenIssue_def exit1_def split: if_splits)
  have "issue_token E ?l ?t ?o w = (([TokenPrinted plain label exp ttl org], st), w')"
    using assms p l by (auto simp: runTokenIssue_def with_pool_def exit1_def split: sum.splits option.splits)
  then obtain tok now created row where h: "Generate (cl_Sum256 E) w = (Inr tok, snd (Generate (cl_Sum256 E) w))"
    "plain = tok_Plain tok" "label = ?l" "ttl = ?t" "org = ?o" "st = 0"
    "now = w_clock w (w_tick (snd (Generate (cl_Sum256 E) w)))" "exp = now + ?t"
    "row = cli_token_row tok ?l ?o created exp" "w_db w' = (w_db w)\<lparr>db_tokens := db_tokens (w_db w) @ [row]\<rparr>"
    by (rule issue_token_printed)
  have "ParseAndValidate plain = None" "hex_bytes (tok_Hash tok) = HashHex (cl_Sum256 E) plain"
    using Generate_result [OF h(1)] h(2) by auto
  with h l show ?thesis by (intro exI [where x=row] exI [where x=now]) (simp add: cli_token_row_def)
qed

text \<open>The lines of the table, when every row is unrevoked.\<close>

lemma row_status_unrevoked:
  "row_status r w = (st, w1) \<Longrightarrow> tr_revoked_at r = None \<Longrightarrow> st \<in> {''used'', ''expired'', ''active''} \<and> w_db w1 = w_db w"
  by (auto simp: row_status_def go_now_def split: if_splits)

lemma print_rows_lines:
  "print_rows rs w = (ls, w') \<Longrightarrow> (\<forall>r \<in> set rs. tr_revoked_at r = None) \<Longrightarrow>
     map tl_id ls = map tr_id rs \<and> w_db w' = w_db w \<and> (\<forall>l \<in> set ls. tl_status l \<noteq> ''revoked'')"
proof (induction rs arbitrary: w ls w')
  case (Cons r rs)
  obtain st w1 where st: "row_status r w = (st, w1)" by (metis surj_pair)
  obtain ms w2 where ms: "print_rows rs w1 = (ms, w2)" by (metis surj_pair)
  have "ls = line_of r st # ms" "w' = w2" using Cons.prems(1) st ms by simp_all
  moreover have "st \<in> {''used'', ''expired'', ''active''}" "w_db w1 = w_db w"
    using row_status_unrevoked [OF st] Cons.prems(2) by simp_all
  moreover have "map tl_id ms = map tr_id rs \<and> w_db w2 = w_db w1 \<and> (\<forall>l \<in> set ms. tl_status l \<noteq> ''revoked'')"
    using Cons.IH [OF ms] Cons.prems(2) by simp
  ultimately show ?case by (auto simp: line_of_def)
qed simp

text \<open>\<open>token list\<close> says nothing of a connection lost while the rows are read: it prints the rows
  read so far, none perhaps, as if they were all, and its exit status is 0. Without a fault the table
  has exactly the unrevoked tokens of the organisation that the flags ask for, the newest first; the
  status \<open>revoked\<close> that the code provides for is never printed.\<close>

theorem list_tokens_table:
  "(w_fault w (w_tick w) = LostAfter \<longrightarrow>
      (\<exists>ls w'. list_tokens E org u x w = (([TokenTable ls], 0), w') \<and> length ls \<le> cl_rows_read E))
   \<and> (w_fault w (w_tick w) = NoFault \<longrightarrow>
      (\<exists>ls w'. list_tokens E org u x w = (([TokenTable ls], 0), w') \<and> w_db w' = w_db w
         \<and> (\<forall>l \<in> set ls. tl_status l \<noteq> ''revoked'')
         \<and> map tl_id ls = map tr_id (sort_key (\<lambda>r. - tr_created_at r)
             (filter (\<lambda>r. tr_org_id r = org \<and> (\<not> u \<longrightarrow> tr_used_at r = None)
                 \<and> (\<not> x \<longrightarrow> tr_expires_at r > w_clock w (w_tick w)) \<and> tr_revoked_at r = None) (db_tokens (w_db w))))))"
proof (intro conjI impI)
  let ?rs = "sort_key (\<lambda>r. - tr_created_at r)
             (filter (\<lambda>r. tr_org_id r = org \<and> (\<not> u \<longrightarrow> tr_used_at r = None)
                 \<and> (\<not> x \<longrightarrow> tr_expires_at r > w_clock w (w_tick w)) \<and> tr_revoked_at r = None) (db_tokens (w_db w)))"
  have q: "cli_list_sql org u x (w_clock w (w_tick w)) (w_db w) = Inr ?rs" by (simp add: cli_list_sql_def)
  have un: "\<forall>r \<in> set (take n ?rs). tr_revoked_at r = None" "\<forall>r \<in> set ?rs. tr_revoked_at r = None" for n
    by (auto dest: in_set_takeD)
  have same: "(tick w)\<lparr>w_db := w_db w\<rparr> = tick w" by (simp add: tick_def)
  {
    assume f: "w_fault w (w_tick w) = LostAfter"
    obtain ls w' where p: "print_rows (take (cl_rows_read E) ?rs) (tick w) = (ls, w')" by fastforce
    have "map tl_id ls = map tr_id (take (cl_rows_read E) ?rs)"
      using print_rows_lines [OF p un(1)] by blast
    then have "length (map tl_id ls) = length (map tr_id (take (cl_rows_read E) ?rs))" by simp
    then have "length ls \<le> cl_rows_read E" by simp
    moreover have "list_tokens E org u x w = (([TokenTable ls], 0), w')"
      using f p q by (simp add: list_tokens_def exec_query_def exec_stmt_def Let_def same)
    ultimately show "\<exists>ls w'. list_tokens E org u x w = (([TokenTable ls], 0), w') \<and> length ls \<le> cl_rows_read E" by blast
  next
    assume f: "w_fault w (w_tick w) = NoFault"
    obtain ls w' where p: "print_rows ?rs (tick w) = (ls, w')" by fastforce
    have "list_tokens E org u x w = (([TokenTable ls], 0), w')"
      using f p q by (simp add: list_tokens_def exec_query_NoFault)
    then show "\<exists>ls w'. list_tokens E org u x w = (([TokenTable ls], 0), w') \<and> w_db w' = w_db w
         \<and> (\<forall>l \<in> set ls. tl_status l \<noteq> ''revoked'') \<and> map tl_id ls = map tr_id ?rs"
      using print_rows_lines [OF p un(2)] by auto
  }
qed

subsection \<open>Concrete commands\<close>

definition demo_cli :: "unit cli_env" where
  "demo_cli = \<lparr>cl_open = (\<lambda>p. if p = ''/etc/praetor/server.yaml'' then Inr () else Inl ''no such file''),
     cl_decode = (\<lambda>_. Inr demo_config), cl_pg_parse = (\<lambda>_. None), cl_pg_new = (\<lambda>_. None), cl_pg_ping = (\<lambda>_. None),
     cl_dialect = None, cl_goose = (\<lambda>_ w. (None, w)), cl_frac = (\<lambda>_ _ _. 0), cl_Sum256 = (\<lambda>_. [1, 2]),
     cl_rows_read = 1, cl_is_print = (\<lambda>_. True)\<rparr>"

lemma demo_pool [simp]: "with_pool demo_cli a b ''/etc/praetor/server.yaml'' body w = body w"
  by (simp add: with_pool_def Load_def demo_cli_def demo_config_def apply_defaults_def missing_field_def db_Connect_def)

lemma config_flag_default [simp]: "flag_string [config_flag] ''config'' = ''/etc/praetor/server.yaml''"
  by (simp add: flag_string_def config_flag_def)

text \<open>The file named last does not even exist, and the command succeeds.\<close>

theorem config_flag_position_witness:
  "\<exists>w'. runConfigSet demo_cli [''H1'', ''heartbeat_interval_seconds=10'', ''--config'', ''other.yaml'']
       (calm_world (empty_db\<lparr>db_hosts := [plain_host ''H1'']\<rparr>))
     = (([ConfigUpdated ''H1'' ''heartbeat_interval_seconds'' 10], 0), w')"
proof -
  let ?w = "calm_world (empty_db\<lparr>db_hosts := [plain_host ''H1'']\<rparr>)"
  have h: "''H1'' = [] \<or> hd ''H1'' \<noteq> CHR ''-''" by simp
  have "runConfigSet demo_cli [''H1'', ''heartbeat_interval_seconds=10'', ''--config'', ''other.yaml''] ?w
     = runConfigSet demo_cli [''H1'', ''heartbeat_interval_seconds=10''] ?w"
    using h by (rule conjunct1 [OF config_flag_position])
  moreover have "split_assignment ''heartbeat_interval_seconds=10'' = Some (''heartbeat_interval_seconds'', ''10'')"
    by (simp add: split_assignment_def)
  moreover have "atoi ''10'' = Some 10"
    by (simp add: atoi_def parse_unsigned_def char_digit_def in_i64_def)
  moreover have "\<exists>w'. config_SetField (cl_is_print demo_cli) ''H1'' ''heartbeat_interval_seconds'' 10 ?w = (Inr (), w')"
    by (simp add: config_SetField_def allowed_fields_def calm_simps set_field_sql_def host_exists_def plain_host_def
        empty_db_def wrap_err_def in_i32_def)
  ultimately show ?thesis
    by (auto simp: runConfigSet_def parse_flags_positional [OF h])
qed

theorem runTokenIssue_stores_witness:
  "\<exists>plain exp w' row. runTokenIssue demo_cli [''-label'', ''web''] (calm_world empty_db)
     = (([TokenPrinted plain ''web'' exp (15 * time_Minute) ''default''], 0), w')
     \<and> db_tokens (w_db w') = [row] \<and> tr_token_hash row = HashHex (cl_Sum256 demo_cli) plain"
proof -
  have "\<exists>plain exp w'. runTokenIssue demo_cli [''-label'', ''web''] (calm_world empty_db)
     = (([TokenPrinted plain ''web'' exp (15 * time_Minute) ''default''], 0), w')"
    by (simp add: runTokenIssue_def parse_flags.simps config_flag_def split_value_def set_flag_def update_flag_def
        flag_string_def flag_duration_def time_units)
       (simp add: issue_token_def calm_simps Generate_def Let_def token_Insert_def insert_token_sql_def cli_token_row_def
        empty_db_def wrap_err_def)
  then obtain plain exp w' where run: "runTokenIssue demo_cli [''-label'', ''web''] (calm_world empty_db)
     = (([TokenPrinted plain ''web'' exp (15 * time_Minute) ''default''], 0), w')" by blast
  from runTokenIssue_stores [OF run] obtain row where
    "w_db w' = (w_db (calm_world empty_db))\<lparr>db_tokens := db_tokens (w_db (calm_world empty_db)) @ [row]\<rparr>"
    "tr_token_hash row = HashHex (cl_Sum256 demo_cli) plain" by blast
  then have "db_tokens (w_db w') = [row]" by (simp add: calm_simps empty_db_def)
  with run \<open>tr_token_hash row = _\<close> show ?thesis by blast
qed

theorem list_tokens_table_witness:
  "\<exists>ls w'. list_tokens demo_cli ''default'' False False (calm_world (empty_db\<lparr>db_tokens := [sample_token]\<rparr>))
     = (([TokenTable ls], 0), w') \<and> map tl_id ls = [''T1'']"
proof -
  have "w_fault (calm_world (empty_db\<lparr>db_tokens := [sample_token]\<rparr>)) (w_tick (calm_world (empty_db\<lparr>db_tokens := [sample_token]\<rparr>))) = NoFault"
    by (simp add: calm_simps)
  with list_tokens_table [of "calm_world (empty_db\<lparr>db_tokens := [sample_token]\<rparr>)" demo_cli "''default''" False False]
  show ?thesis by (auto simp: calm_simps sample_token_def)
qed

end
