(* ===== verification/ConfigPush.thy ===== *)
theory ConfigPush
  imports Broker
begin

text \<open>
  \<open>internal/configpush/service.go\<close>: sending the runtime configuration of a host to its agent,
  on request and when the agent connects. An acknowledgement is only logged.
\<close>

definition to_update :: "config_row \<Rightarrow> config_update" where
  "to_update c =
     \<lparr>cu_ConfigVersion = cr_config_version c,
      cu_HeartbeatIntervalSeconds = wrap32 (cr_heartbeat_interval_seconds c),
      cu_MetricCollectionIntervalSeconds = wrap32 (cr_metric_collection_interval_seconds c),
      cu_LogSources = cr_log_sources c\<rparr>"

definition config_send :: "stream_id \<Rightarrow> config_row \<Rightarrow> server \<Rightarrow> go_error option \<times> server" where
  "config_send st c s =
     (case stream_Send st (ConfigUpdate (to_update c)) s of
        (Some e, s1) \<Rightarrow> (Some (Wrapped ''configpush: send'' e), s1)
      | (None, s1) \<Rightarrow> (None, s1))"

definition Push :: "string \<Rightarrow> server \<Rightarrow> go_error option \<times> server" where
  "Push h s =
     (case registry_Get (s_registry s) h of
        None \<Rightarrow> (None, s)
      | Some st \<Rightarrow>
          (case on_store (config_Get h) s of
             (Inl e, s1) \<Rightarrow> (Some (Wrapped ''configpush: get config'' e), s1)
           | (Inr c, s1) \<Rightarrow> config_send st c s1))"

definition SyncOnConnect :: "string \<Rightarrow> int \<Rightarrow> server \<Rightarrow> go_error option \<times> server" where
  "SyncOnConnect h agentConfigVersion s =
     (case on_store (config_Get h) s of
        (Inl e, s1) \<Rightarrow> (Some (Wrapped ''configpush: sync on connect'' e), s1)
      | (Inr c, s1) \<Rightarrow>
          if cr_config_version c \<le> agentConfigVersion then (None, s1)
          else case registry_Get (s_registry s1) h of
                 None \<Rightarrow> (None, s1)
               | Some st \<Rightarrow> config_send st c s1)"

record config_ack =
  ka_ConfigVersion :: int
  ka_Applied :: bool
  ka_Error :: string

text \<open>\<open>HandleAck\<close>: the level of the log line is all it decides.\<close>

datatype log_level = LogInfo | LogWarn

definition HandleAck :: "config_ack \<Rightarrow> log_level" where
  "HandleAck a = (if ka_Applied a then LogInfo else LogWarn)"

lemma config_send_world [simp]: "s_world (snd (config_send st c s)) = s_world s"
  by (auto simp: config_send_def stream_Send_def split: option.splits)

lemma config_Get_wdb: "config_Get h w = (r, w') \<Longrightarrow> w_db w' = w_db w"
  using config_Get_db [of h w] by simp

lemma on_store_result: "on_store m s = (r, s1) \<Longrightarrow> fst (m (s_world s)) = r \<and> s1 = s\<lparr>s_world := snd (m (s_world s))\<rparr>"
  by (auto simp: on_store_def split: prod.splits)

lemma pushes_db [simp]:
  "w_db (s_world (snd (Push h s))) = w_db (s_world s)"
  "w_db (s_world (snd (SyncOnConnect h v s))) = w_db (s_world s)"
  by (auto simp: Push_def SyncOnConnect_def split: prod.splits option.splits sum.splits dest!: on_store_result)

text \<open>What either call sends: nothing, or the configuration of the host to its registered stream.\<close>

lemma config_send_sent:
  "s_sent (snd (config_send st c s)) = s_sent s \<or> s_sent (snd (config_send st c s)) = s_sent s @ [(st, ConfigUpdate (to_update c))]"
  by (auto simp: config_send_def stream_Send_def split: option.splits)

definition config_only :: "string \<Rightarrow> server \<Rightarrow> server \<Rightarrow> bool" where
  "config_only h s s' \<longleftrightarrow> s_sent s' = s_sent s \<or>
     (\<exists>st u. registry_Get (s_registry s) h = Some st \<and> s_sent s' = s_sent s @ [(st, ConfigUpdate u)])"

lemma pushes_sent:
  "config_only h s (snd (Push h s))" "config_only h s (snd (SyncOnConnect h v s))"
proof -
  obtain r s1 where g: "on_store (config_Get h) s = (r, s1)" by (metis surj_pair)
  have s1: "s_sent s1 = s_sent s" "s_registry s1 = s_registry s" using on_store_result [OF g] by simp_all
  have sent: "config_only h s (snd (config_send st c s1))" if "registry_Get (s_registry s) h = Some st" for st c
    using that s1 config_send_sent [of st c s1] unfolding config_only_def by auto
  show "config_only h s (snd (Push h s))"
    using g sent s1 by (cases r; cases "registry_Get (s_registry s) h") (simp_all add: Push_def config_only_def [of h s s] config_only_def [of h s s1])
  show "config_only h s (snd (SyncOnConnect h v s))"
    using g sent s1 by (cases r; cases "registry_Get (s_registry s) h") (simp_all add: SyncOnConnect_def config_only_def [of h s s1])
qed

text \<open>An agent that connects knowing version \<open>v\<close> is sent the stored configuration when, and only
  when, that is newer, to the stream registered for it, with the stored intervals unchanged by
  their passage to 32 bits; a host without a stored configuration (version 0) is never sent one.\<close>

theorem SyncOnConnect_sends:
  assumes "w_fault (s_world s) (w_tick (s_world s)) = NoFault" "configs_in_range (w_db (s_world s))"
    "registry_Get (s_registry s) h = Some st" "s_send_error s (s_sends s) = None" "v \<ge> 0"
    "SyncOnConnect h v s = (e, s')"
  shows "e = None \<and> s_sent s' = s_sent s @
      (case find_by cr_host_id h (db_configs (w_db (s_world s))) of
         None \<Rightarrow> []
       | Some c \<Rightarrow> if cr_config_version c \<le> v then [] else
           [(st, ConfigUpdate \<lparr>cu_ConfigVersion = cr_config_version c,
                   cu_HeartbeatIntervalSeconds = cr_heartbeat_interval_seconds c,
                   cu_MetricCollectionIntervalSeconds = cr_metric_collection_interval_seconds c,
                   cu_LogSources = cr_log_sources c\<rparr>)])"
proof (cases "find_by cr_host_id h (db_configs (w_db (s_world s)))")
  case None
  then show ?thesis using assms(1,5,6)
    by (auto simp: SyncOnConnect_def on_store_def config_Get_NoFault default_config_def)
next
  case (Some c)
  then have "c \<in> set (db_configs (w_db (s_world s)))" by (blast dest: find_by_SomeD)
  with assms(2) have "in_i32 (cr_heartbeat_interval_seconds c)" "in_i32 (cr_metric_collection_interval_seconds c)"
    by (simp_all add: configs_in_range_def)
  then have "to_update c = \<lparr>cu_ConfigVersion = cr_config_version c,
                   cu_HeartbeatIntervalSeconds = cr_heartbeat_interval_seconds c,
                   cu_MetricCollectionIntervalSeconds = cr_metric_collection_interval_seconds c,
                   cu_LogSources = cr_log_sources c\<rparr>"
    by (simp add: to_update_def wrap32_id)
  then show ?thesis using assms(1,3,4,6) Some
    by (auto simp: SyncOnConnect_def on_store_def config_Get_NoFault config_send_def stream_Send_def)
qed

definition config_server :: server where
  "config_server = (demo_server [])\<lparr>s_world := calm_world (empty_db\<lparr>db_hosts := [plain_host ''H1''],
     db_configs := [(default_config ''H1'')\<lparr>cr_config_version := 2, cr_heartbeat_interval_seconds := 60\<rparr>]\<rparr>)\<rparr>"

theorem SyncOnConnect_sends_witness:
  "\<exists>s'. SyncOnConnect ''H1'' 0 config_server = (None, s') \<and>
     s_sent s' = [(7, ConfigUpdate \<lparr>cu_ConfigVersion = 2, cu_HeartbeatIntervalSeconds = 60,
       cu_MetricCollectionIntervalSeconds = 15, cu_LogSources = []\<rparr>)]"
proof -
  obtain e s' where run: "SyncOnConnect ''H1'' 0 config_server = (e, s')" by (metis surj_pair)
  have pre: "w_fault (s_world config_server) (w_tick (s_world config_server)) = NoFault"
    "configs_in_range (w_db (s_world config_server))" "registry_Get (s_registry config_server) ''H1'' = Some 7"
    "s_send_error config_server (s_sends config_server) = None" "(0::int) \<ge> 0"
    by (simp_all add: config_server_def demo_server_def calm_simps configs_in_range_def default_config_def
        in_i32_def registry_Get_def)
  from SyncOnConnect_sends [OF pre run] run show ?thesis
    by (simp add: config_server_def demo_server_def calm_simps default_config_def)
qed

end
