(* ===== verification/VictoriaMetrics.thy ===== *)
theory VictoriaMetrics
  imports World GoQuote
begin

text \<open>
  \<open>internal/storage/victoriametrics/writer.go\<close>: metric batches as Prometheus text, one line
  per metric, posted to the import endpoint. Parameters: the verb \<open>%g\<close> on a float
  (\<open>fmt_g\<close>, on the bits of the float), the printable code points (\<open>is_print\<close>), the order in
  which Go ranges over a map (\<open>order\<close>), the URLs \<open>http.NewRequest\<close> accepts (\<open>url_ok\<close>)
  and the answer of the server.
\<close>

subsection \<open>A POST and its answer\<close>

record http_request =
  rq_URL :: string
  rq_ContentType :: string
  rq_Body :: string

datatype http_reply = NoReply string | Reply int string

subsection \<open>Metrics\<close>

record metric =
  m_Name :: string
  m_Labels :: "(string \<times> string) list"
  m_Timestamp :: "instant option"
  m_Value :: "64 word"

definition unix_milli :: "instant \<Rightarrow> int" where
  "unix_milli t = t div time_Millisecond"

definition sanitizeMetricName :: "string \<Rightarrow> string" where
  "sanitizeMetricName name = replace_all CHR ''.'' CHR ''_'' name"

definition sanitizeLabelName :: "string \<Rightarrow> string" where
  "sanitizeLabelName name = replace_all CHR ''-'' CHR ''_'' (replace_all CHR ''.'' CHR ''_'' name)"

definition label_texts :: "(nat \<Rightarrow> bool) \<Rightarrow> string \<Rightarrow> (string \<times> string) list \<Rightarrow> string list" where
  "label_texts is_print hostID ls =
     (''host_id='' @ go_quote is_print hostID) #
     map (\<lambda>(k, v). sanitizeLabelName k @ ''='' @ go_quote is_print v) ls"

definition label_string :: "string list \<Rightarrow> string" where
  "label_string labels = (if length labels > 0 then ''{'' @ join_with '','' labels @ ''}'' else [])"

definition metric_line ::
  "(64 word \<Rightarrow> string) \<Rightarrow> (nat \<Rightarrow> bool) \<Rightarrow> ((string \<times> string) list \<Rightarrow> (string \<times> string) list)
     \<Rightarrow> string \<Rightarrow> metric \<Rightarrow> int \<Rightarrow> string" where
  "metric_line fmt_g is_print order hostID m tsMs =
     sanitizeMetricName (m_Name m) @ label_string (label_texts is_print hostID (order (m_Labels m)))
       @ '' '' @ fmt_g (m_Value m) @ '' '' @ itoa tsMs"

fun write_lines ::
  "(64 word \<Rightarrow> string) \<Rightarrow> (nat \<Rightarrow> bool) \<Rightarrow> ((string \<times> string) list \<Rightarrow> (string \<times> string) list)
     \<Rightarrow> string \<Rightarrow> metric list \<Rightarrow> world \<Rightarrow> string \<times> world" where
  "write_lines fmt_g is_print order hostID [] w = ([], w)"
| "write_lines fmt_g is_print order hostID (m # ms) w =
     (let (tsMs, w1) = (case m_Timestamp m of
                          Some ts \<Rightarrow> (unix_milli ts, w)
                        | None \<Rightarrow> (let (now, w1) = go_now w in (unix_milli now, w1)));
          (rest, w2) = write_lines fmt_g is_print order hostID ms w1
      in (metric_line fmt_g is_print order hostID m tsMs @ [CHR 0x0A] @ rest, w2))"

definition vm_New :: "string \<Rightarrow> string" where
  "vm_New baseURL = trim_right CHR ''/'' baseURL"

definition vm_Write ::
  "(64 word \<Rightarrow> string) \<Rightarrow> (nat \<Rightarrow> bool) \<Rightarrow> ((string \<times> string) list \<Rightarrow> (string \<times> string) list)
     \<Rightarrow> (string \<Rightarrow> bool) \<Rightarrow> http_reply \<Rightarrow> string \<Rightarrow> string \<Rightarrow> metric list \<Rightarrow> world
     \<Rightarrow> (go_error option \<times> http_request option) \<times> world" where
  "vm_Write fmt_g is_print order url_ok reply baseURL hostID metrics w =
     (if length metrics = 0 then ((None, None), w)
      else (let (body, w1) = write_lines fmt_g is_print order hostID metrics w;
                url = baseURL @ ''/api/v1/import/prometheus''
            in if \<not> url_ok url then ((Some (Wrapped ''vm: build request'' (ErrorText url)), None), w1)
               else (let rq = Some \<lparr>rq_URL = url, rq_ContentType = ''text/plain'', rq_Body = body\<rparr>
                     in case reply of
                          NoReply e \<Rightarrow> ((Some (Wrapped (''vm: POST '' @ url) (ErrorText e)), rq), w1)
                        | Reply status _ \<Rightarrow>
                            if status \<noteq> 204 \<and> status \<noteq> 200
                            then ((Some (ErrorText (''vm: unexpected status '' @ itoa status)), rq), w1)
                            else ((None, rq), w1))))"

subsection \<open>Lines\<close>

text \<open>The names a metric brings along without a line break.\<close>

definition names_one_line :: "metric \<Rightarrow> bool" where
  "names_one_line m \<longleftrightarrow> one_line (m_Name m) \<and> (\<forall>(k, v) \<in> set (m_Labels m). one_line k)"

lemma one_line_replace_all: "b \<noteq> CHR 0x0A \<Longrightarrow> one_line s \<Longrightarrow> one_line (replace_all a b s)"
  by (auto simp: one_line_def replace_all_def)

lemma one_line_join: "one_line sep \<Longrightarrow> \<forall>p \<in> set ps. one_line p \<Longrightarrow> one_line (join_with sep ps)"
  by (induction sep ps rule: join_with.induct) auto

lemma nat_digits_plain: "one_line (nat_digits n)"
proof (induction n rule: nat_digits.induct)
  case (1 n)
  have d: "digit_char d \<noteq> CHR 0x0A" if "d < 10" for d
    using of_char_digit_char [OF that] by (auto dest!: arg_cong [where f = "of_char :: char \<Rightarrow> nat"])
  show ?case
    by (subst nat_digits.simps) (use 1 d in auto)
qed

lemma itoa_one_line: "one_line (itoa i)"
  by (simp add: itoa_def nat_digits_plain)

lemma label_texts_one_line:
  "\<forall>(k, v) \<in> set ls. one_line k \<Longrightarrow> \<forall>t \<in> set (label_texts is_print h ls). one_line t"
  by (auto simp: label_texts_def go_quote_one_line sanitizeLabelName_def intro!: one_line_replace_all)

lemma metric_line_one_line:
  assumes "names_one_line m" "\<And>v. one_line (fmt_g v)" "\<And>ls. mset (order ls) = mset ls"
  shows "one_line (metric_line fmt_g is_print order h m ts)"
proof -
  have "set (order (m_Labels m)) = set (m_Labels m)" using assms(3) by (metis set_mset_mset)
  then have "\<forall>t \<in> set (label_texts is_print h (order (m_Labels m))). one_line t"
    using assms(1) by (intro label_texts_one_line) (auto simp: names_one_line_def)
  then have "one_line (label_string (label_texts is_print h (order (m_Labels m))))"
    by (auto simp: label_string_def intro: one_line_join)
  then show ?thesis
    using assms(1,2) by (simp add: metric_line_def names_one_line_def sanitizeMetricName_def
        one_line_replace_all itoa_one_line)
qed

lemma split_lines:
  "\<forall>l \<in> set ls. one_line l \<Longrightarrow> split_on CHR 0x0A (concat (map (\<lambda>l. l @ [CHR 0x0A]) ls)) = ls @ [[]]"
  by (induction ls) (auto simp: one_line_def split_on_append_sep)

lemma write_lines_concat:
  "\<exists>tss. length tss = length ms \<and> fst (write_lines fmt_g is_print order h ms w) =
     concat (map (\<lambda>(m, ts). metric_line fmt_g is_print order h m ts @ [CHR 0x0A]) (zip ms tss))
   \<and> (\<forall>i < length ms. \<forall>t. m_Timestamp (ms ! i) = Some t \<longrightarrow> tss ! i = unix_milli t)"
proof (induction ms arbitrary: w)
  case Nil
  then show ?case by simp
next
  case (Cons m ms)
  obtain ts w1 where t: "(case m_Timestamp m of Some ts \<Rightarrow> (unix_milli ts, w)
      | None \<Rightarrow> (let (now, w1) = go_now w in (unix_milli now, w1))) = (ts, w1)" by (metis surj_pair)
  then have ts: "\<forall>x. m_Timestamp m = Some x \<longrightarrow> ts = unix_milli x" by (auto split: option.splits)
  from Cons obtain tss where "length tss = length ms"
    "fst (write_lines fmt_g is_print order h ms w1) =
       concat (map (\<lambda>(m, ts). metric_line fmt_g is_print order h m ts @ [CHR 0x0A]) (zip ms tss))"
    "\<forall>i < length ms. \<forall>t. m_Timestamp (ms ! i) = Some t \<longrightarrow> tss ! i = unix_milli t" by blast
  with t ts show ?case
    by (intro exI [where x = "ts # tss"]) (auto simp: split_def less_Suc_eq_0_disj)
qed

text \<open>The other direction: a line without breaks has names without breaks.\<close>

lemma one_line_replace_allD: "a \<noteq> CHR 0x0A \<Longrightarrow> one_line (replace_all a b s) \<Longrightarrow> one_line s"
  by (auto simp: one_line_def replace_all_def)

lemma one_line_joinD: "one_line (join_with sep ps) \<Longrightarrow> p \<in> set ps \<Longrightarrow> one_line p"
  by (induction sep ps rule: join_with.induct) auto

lemma metric_line_one_lineD:
  assumes "one_line (metric_line fmt_g is_print order h m ts)" "\<And>ls. mset (order ls) = mset ls"
  shows "names_one_line m"
proof -
  let ?labels = "label_texts is_print h (order (m_Labels m))"
  have "one_line (sanitizeMetricName (m_Name m))" "one_line (label_string ?labels)"
    using assms(1) by (simp_all add: metric_line_def)
  moreover from this(2) have "one_line (join_with '','' ?labels)" by (simp add: label_string_def split: if_splits)
  then have texts: "\<forall>t \<in> set ?labels. one_line t" by (blast intro: one_line_joinD)
  have "one_line k" if "(k, v) \<in> set (m_Labels m)" for k v
  proof -
    have "(k, v) \<in> set (order (m_Labels m))" using that assms(2) by (metis set_mset_mset)
    then have "sanitizeLabelName k @ ''='' @ go_quote is_print v \<in> set ?labels" by (force simp: label_texts_def)
    then have "one_line (sanitizeLabelName k)" using texts by force
    then show ?thesis unfolding sanitizeLabelName_def by (auto dest!: one_line_replace_allD [rotated])
  qed
  ultimately show ?thesis
    by (auto simp: names_one_line_def sanitizeMetricName_def dest: one_line_replace_allD [rotated])
qed

lemma length_split_on: "length (split_on c s) = Suc (count_list s c)"
  by (induction s) (auto split: list.splits)

lemma one_line_count: "one_line s \<longleftrightarrow> count_list s CHR 0x0A = 0"
  by (simp add: one_line_def count_list_0_iff)

lemma split_lines_iff:
  "(\<exists>xs. split_on CHR 0x0A (concat (map (\<lambda>l. l @ [CHR 0x0A]) ls)) = xs @ [[]] \<and> length xs = length ls)
     \<longleftrightarrow> (\<forall>l \<in> set ls. one_line l)"
proof
  assume "\<exists>xs. split_on CHR 0x0A (concat (map (\<lambda>l. l @ [CHR 0x0A]) ls)) = xs @ [[]] \<and> length xs = length ls"
  then have "length (split_on CHR 0x0A (concat (map (\<lambda>l. l @ [CHR 0x0A]) ls))) = Suc (length ls)" by auto
  then have "count_list (concat (map (\<lambda>l. l @ [CHR 0x0A]) ls)) CHR 0x0A = length ls" by (simp add: length_split_on)
  moreover have "count_list (concat (map (\<lambda>l. l @ [CHR 0x0A]) ls)) CHR 0x0A
      = length ls + sum_list (map (\<lambda>l. count_list l CHR 0x0A) ls)"
    by (induction ls) simp_all
  ultimately show "\<forall>l \<in> set ls. one_line l" by (simp add: one_line_count)
qed (blast intro: split_lines)

text \<open>The value of a label in a line: what a reader that starts behind the opening quote takes for the rest
  of the line is what really stands behind the value.\<close>

definition quoted_in :: "(nat \<Rightarrow> bool) \<Rightarrow> string \<Rightarrow> string \<Rightarrow> string \<Rightarrow> bool" where
  "quoted_in is_print name v l \<longleftrightarrow> (\<exists>pre rest. l = pre @ name @ ''='' @ go_quote is_print v @ rest \<and>
     after_quote (tl (go_quote is_print v) @ rest) = Some rest)"

lemma join_with_member: "p \<in> set ps \<Longrightarrow> \<exists>pre rest. join_with sep ps = pre @ p @ rest"
proof (induction sep ps rule: join_with.induct)
  case (2 sep q)
  then show ?case by (intro exI [of _ "[]"]) simp
next
  case (3 sep q r ps)
  then show ?case
  proof (cases "p = q")
    case True
    then show ?thesis by (intro exI [of _ "[]"] exI [of _ "sep @ join_with sep (r # ps)"]) simp
  next
    case False
    then obtain pre rest where "join_with sep (r # ps) = pre @ p @ rest" using 3 by auto
    then show ?thesis by (intro exI [of _ "q @ sep @ pre"] exI [of _ rest]) simp
  qed
qed simp

lemma label_quoted:
  assumes "name @ ''='' @ go_quote is_print v \<in> set (label_texts is_print h (order (m_Labels m)))"
  shows "quoted_in is_print name v (metric_line fmt_g is_print order h m ts)"
proof -
  let ?labels = "label_texts is_print h (order (m_Labels m))"
  obtain pre rest where j: "join_with '','' ?labels = pre @ (name @ ''='' @ go_quote is_print v) @ rest"
    using join_with_member [OF assms, of "'',''"] by blast
  have "label_string ?labels = ''{'' @ join_with '','' ?labels @ ''}''" by (simp add: label_string_def label_texts_def)
  then have "metric_line fmt_g is_print order h m ts = (sanitizeMetricName (m_Name m) @ ''{'' @ pre) @ name @ ''=''
      @ go_quote is_print v @ (rest @ ''}'' @ '' '' @ fmt_g (m_Value m) @ '' '' @ itoa ts)"
    unfolding metric_line_def j by simp
  then show ?thesis unfolding quoted_in_def using after_quote_go_quote by blast
qed

lemma metric_line_shape:
  assumes "\<And>ls. mset (order ls) = mset ls"
  shows "prefix (sanitizeMetricName (m_Name m) @ ''{host_id='' @ go_quote is_print h) (metric_line fmt_g is_print order h m ts)"
    "quoted_in is_print ''host_id'' h (metric_line fmt_g is_print order h m ts)"
    "(k, v) \<in> set (m_Labels m) \<Longrightarrow> quoted_in is_print (sanitizeLabelName k) v (metric_line fmt_g is_print order h m ts)"
    "suffix (''} '' @ fmt_g (m_Value m) @ '' '' @ itoa ts) (metric_line fmt_g is_print order h m ts)"
proof -
  show "prefix (sanitizeMetricName (m_Name m) @ ''{host_id='' @ go_quote is_print h) (metric_line fmt_g is_print order h m ts)"
    by (cases "order (m_Labels m)") (auto simp: metric_line_def label_string_def label_texts_def prefix_def)
  show "quoted_in is_print ''host_id'' h (metric_line fmt_g is_print order h m ts)"
    by (rule label_quoted) (simp add: label_texts_def)
  show "quoted_in is_print (sanitizeLabelName k) v (metric_line fmt_g is_print order h m ts)" if "(k, v) \<in> set (m_Labels m)"
  proof (rule label_quoted)
    have "(k, v) \<in> set (order (m_Labels m))" using that assms by (metis set_mset_mset)
    then show "sanitizeLabelName k @ ''='' @ go_quote is_print v \<in> set (label_texts is_print h (order (m_Labels m)))"
      by (force simp: label_texts_def)
  qed
  show "suffix (''} '' @ fmt_g (m_Value m) @ '' '' @ itoa ts) (metric_line fmt_g is_print order h m ts)"
    by (simp add: metric_line_def label_string_def label_texts_def suffix_def)
qed

text \<open>C33: The body of a batch has exactly one line per metric, in order, if and only if no metric name and no
  label name contains a line break, whatever the label values and the host ID contain. Each line then
  starts with the sanitised name and the host ID as its first label, and ends with the value and the
  time in milliseconds; the value of every label stands in it with its sanitised name, and its quoting
  ends at its own closing quote.\<close>

theorem vm_Write_lines:
  assumes "\<And>v. one_line (fmt_g v)" "\<And>ls. mset (order ls) = mset ls"
    "vm_Write fmt_g is_print order url_ok reply base h ms w = ((e, Some rq), w')"
  shows "((\<exists>ls. split_on CHR 0x0A (rq_Body rq) = ls @ [[]] \<and> length ls = length ms) \<longleftrightarrow> (\<forall>m \<in> set ms. names_one_line m))
    \<and> ((\<forall>m \<in> set ms. names_one_line m) \<longrightarrow> (\<exists>ls. split_on CHR 0x0A (rq_Body rq) = ls @ [[]] \<and> length ls = length ms
        \<and> (\<forall>i < length ms.
             prefix (sanitizeMetricName (m_Name (ms ! i)) @ ''{host_id='' @ go_quote is_print h) (ls ! i)
           \<and> quoted_in is_print ''host_id'' h (ls ! i)
           \<and> (\<forall>(k, v) \<in> set (m_Labels (ms ! i)). quoted_in is_print (sanitizeLabelName k) v (ls ! i))
           \<and> (\<exists>ts. suffix (''} '' @ fmt_g (m_Value (ms ! i)) @ '' '' @ itoa ts) (ls ! i)
                \<and> (\<forall>t. m_Timestamp (ms ! i) = Some t \<longrightarrow> ts = unix_milli t)))))"
proof -
  obtain tss where tss: "length tss = length ms"
      "\<forall>i < length ms. \<forall>t. m_Timestamp (ms ! i) = Some t \<longrightarrow> tss ! i = unix_milli t"
    and body: "rq_Body rq = concat (map (\<lambda>(m, ts). metric_line fmt_g is_print order h m ts @ [CHR 0x0A]) (zip ms tss))"
    using assms(3) write_lines_concat [of ms fmt_g is_print order h w]
    by (auto simp: vm_Write_def Let_def split: prod.splits if_splits http_reply.splits)
  let ?line = "metric_line fmt_g is_print order h"
  let ?ls = "map (\<lambda>(m, ts). ?line m ts) (zip ms tss)"
  have b: "rq_Body rq = concat (map (\<lambda>l. l @ [CHR 0x0A]) ?ls)" using body by (simp add: o_def split_def)
  have len: "length ?ls = length ms" using tss(1) by simp
  have lines: "(\<forall>l \<in> set ?ls. one_line l) \<longleftrightarrow> (\<forall>m \<in> set ms. names_one_line m)"
  proof
    assume all: "\<forall>l \<in> set ?ls. one_line l"
    show "\<forall>m \<in> set ms. names_one_line m"
    proof
      fix m assume "m \<in> set ms"
      then obtain i where "i < length ms" "ms ! i = m" by (auto simp: in_set_conv_nth)
      then have "(m, tss ! i) \<in> set (zip ms tss)" using tss(1) by (force simp: in_set_zip)
      then have "one_line (?line m (tss ! i))" using all by force
      then show "names_one_line m" using assms(2) by (rule metric_line_one_lineD)
    qed
  qed (use assms(1,2) in \<open>auto intro!: metric_line_one_line dest: set_zip_leftD\<close>)
  have "split_on CHR 0x0A (rq_Body rq) = ?ls @ [[]]" if "\<forall>m \<in> set ms. names_one_line m"
    unfolding b by (rule split_lines) (use that lines in blast)
  moreover have "prefix (sanitizeMetricName (m_Name (ms ! i)) @ ''{host_id='' @ go_quote is_print h) (?ls ! i)
      \<and> quoted_in is_print ''host_id'' h (?ls ! i)
      \<and> (\<forall>(k, v) \<in> set (m_Labels (ms ! i)). quoted_in is_print (sanitizeLabelName k) v (?ls ! i))
      \<and> (\<exists>ts. suffix (''} '' @ fmt_g (m_Value (ms ! i)) @ '' '' @ itoa ts) (?ls ! i)
           \<and> (\<forall>t. m_Timestamp (ms ! i) = Some t \<longrightarrow> ts = unix_milli t))" if "i < length ms" for i
  proof -
    have i: "?ls ! i = ?line (ms ! i) (tss ! i)" using that tss(1) by simp
    show ?thesis
      unfolding i
    proof (intro conjI exI [of _ "tss ! i"])
      show "\<forall>(k, v) \<in> set (m_Labels (ms ! i)). quoted_in is_print (sanitizeLabelName k) v (?line (ms ! i) (tss ! i))"
        using metric_line_shape(3) [OF assms(2)] by blast
      show "\<forall>t. m_Timestamp (ms ! i) = Some t \<longrightarrow> tss ! i = unix_milli t" using tss(2) that by blast
    qed (rule metric_line_shape [OF assms(2)])+
  qed
  moreover have "(\<exists>ls. split_on CHR 0x0A (rq_Body rq) = ls @ [[]] \<and> length ls = length ms) \<longleftrightarrow> (\<forall>m \<in> set ms. names_one_line m)"
    using split_lines_iff [of ?ls] unfolding lines len b .
  ultimately show ?thesis using len by (intro conjI impI exI [of _ ?ls]) simp_all
qed

text \<open>A forged name: a whole sample line of another host, a line break, and a harmless name.\<close>

definition forged_name :: "string \<Rightarrow> string" where
  "forged_name victim = ''up{host_id='' @ [CHR 0x22] @ victim @ [CHR 0x22] @ ''} 0 1'' @ [CHR 0x0A] @ ''x''"

lemma quote_body_ascii:
  "\<forall>c \<in> set v. 32 \<le> byte_code c \<and> byte_code c < (127::nat) \<and> c \<noteq> CHR 0x22 \<and> c \<noteq> CHR 0x5C \<Longrightarrow> quote_body is_print v = v"
  by (induction v) (auto simp: quote_ascii_def)

text \<open>A metric name is not checked for line breaks: with one metric an agent writes a line of its
  own making, which VictoriaMetrics reads as a sample of any other host.\<close>

theorem vm_Write_forges:
  assumes "\<forall>c \<in> set victim. 32 \<le> byte_code c \<and> byte_code c < (127::nat) \<and> c \<noteq> CHR 0x22 \<and> c \<noteq> CHR 0x5C \<and> c \<noteq> CHR ''.''"
    "url_ok (base @ ''/api/v1/import/prometheus'')" "m_Name m = forged_name victim"
  shows "\<exists>e rq w' ls. vm_Write fmt_g is_print order url_ok reply base h [m] w = ((e, Some rq), w')
    \<and> split_on CHR 0x0A (rq_Body rq) = (''up{host_id='' @ go_quote is_print victim @ ''} 0 1'') # ls"
proof -
  obtain body w' where b: "write_lines fmt_g is_print order h [m] w = (body, w')" by (metis surj_pair)
  obtain ts where body: "body = metric_line fmt_g is_print order h m ts @ [CHR 0x0A]"
    using b by (auto simp: Let_def split: prod.splits)
  let ?line = "''up{host_id='' @ go_quote is_print victim @ ''} 0 1''"
  have q: "go_quote is_print victim = [CHR 0x22] @ victim @ [CHR 0x22]"
    using assms(1) by (simp add: go_quote_def quote_body_ascii)
  have "replace_all CHR ''.'' CHR ''_'' victim = victim"
    using assms(1) unfolding replace_all_def by (intro map_idI) auto
  then have "sanitizeMetricName (m_Name m) = ?line @ CHR 0x0A # ''x''"
    unfolding assms(3) sanitizeMetricName_def forged_name_def q by (simp add: replace_all_def)
  then obtain r where "body = ?line @ CHR 0x0A # r" using body by (simp add: metric_line_def)
  moreover have "CHR 0x0A \<notin> set ?line"
    using go_quote_one_line [of is_print victim] by (simp add: one_line_def)
  ultimately have "split_on CHR 0x0A body = ?line # split_on CHR 0x0A r"
    using split_on_append_sep [of "CHR 0x0A" ?line r] by simp
  then show ?thesis using b assms(2)
    by (cases reply) (auto simp: vm_Write_def Let_def simp del: write_lines.simps)
qed

definition demo_metric :: "string \<Rightarrow> metric" where
  "demo_metric name = \<lparr>m_Name = name, m_Labels = [(''cpu.id'', ''a'' @ [CHR 0x0A] @ ''b'')], m_Timestamp = Some 5000000,
     m_Value = 0\<rparr>"

theorem vm_Write_lines_witness:
  "\<exists>rq w' ls. vm_Write (\<lambda>_. ''1'') (\<lambda>_. True) (\<lambda>l. l) (\<lambda>_. True) (Reply 204 []) ''http://vm'' ''H1'' [demo_metric ''cpu.load'']
        (calm_world empty_db) = ((None, Some rq), w')
     \<and> split_on CHR 0x0A (rq_Body rq) = ls @ [[]] \<and> length ls = 1
     \<and> quoted_in (\<lambda>_. True) ''cpu_id'' (''a'' @ [CHR 0x0A] @ ''b'') (ls ! 0)"
proof -
  let ?ms = "[demo_metric ''cpu.load'']"
  let ?r = "vm_Write (\<lambda>_. ''1'') (\<lambda>_. True) (\<lambda>l. l) (\<lambda>_. True) (Reply 204 []) ''http://vm'' ''H1'' ?ms (calm_world empty_db)"
  obtain rq w' where run: "?r = ((None, Some rq), w')"
    by (cases "write_lines (\<lambda>_. ''1'') (\<lambda>_. True) (\<lambda>l. l) ''H1'' ?ms (calm_world empty_db)")
       (simp add: vm_Write_def Let_def del: write_lines.simps)
  have n: "\<forall>m \<in> set ?ms. names_one_line m" by (simp add: names_one_line_def demo_metric_def)
  have k: "m_Labels (?ms ! 0) = [(''cpu.id'', ''a'' @ [CHR 0x0A] @ ''b'')]" "sanitizeLabelName ''cpu.id'' = ''cpu_id''"
    by (simp_all add: demo_metric_def sanitizeLabelName_def replace_all_def)
  have o: "one_line ''1''" by simp
  obtain ls where ls: "split_on CHR 0x0A (rq_Body rq) = ls @ [[]]" "length ls = length ?ms"
    "\<forall>i < length ?ms. \<forall>(k, v) \<in> set (m_Labels (?ms ! i)). quoted_in (\<lambda>_. True) (sanitizeLabelName k) v (ls ! i)"
    using vm_Write_lines [OF o refl run] n by blast
  have "quoted_in (\<lambda>_. True) ''cpu_id'' (''a'' @ [CHR 0x0A] @ ''b'') (ls ! 0)"
    using ls(3) [rule_format, of 0] unfolding k by (simp add: k(2))
  with ls run show ?thesis by fastforce
qed

theorem vm_Write_forges_witness:
  "\<exists>e rq w' ls. vm_Write (\<lambda>_. ''1'') (\<lambda>_. True) (\<lambda>l. l) (\<lambda>_. True) (Reply 204 []) ''http://vm'' ''H1''
        [demo_metric (forged_name ''H2'')] (calm_world empty_db) = ((e, Some rq), w')
     \<and> split_on CHR 0x0A (rq_Body rq) = (''up{host_id='' @ go_quote (\<lambda>_. True) ''H2'' @ ''} 0 1'') # ls"
  by (rule vm_Write_forges) (simp_all add: demo_metric_def)

end
