(* ===== verification/Loki.thy ===== *)
theory Loki
  imports VictoriaMetrics HostStore
begin

text \<open>
  \<open>internal/storage/loki/writer.go\<close>: log batches, grouped by source into streams and pushed as
  JSON. The order in which Go ranges over the map of sources is the parameter \<open>order\<close>.
\<close>

datatype log_severity =
    SEVERITY_OTHER int
  | SEVERITY_TRACE
  | SEVERITY_DEBUG
  | SEVERITY_INFO
  | SEVERITY_WARNING
  | SEVERITY_ERROR
  | SEVERITY_CRITICAL

record log_entry =
  le_Timestamp :: "instant option"
  le_Severity :: log_severity
  le_Source :: string
  le_Message :: string

record loki_stream =
  ls_Stream :: "(string \<times> string) list"
  ls_Values :: "(string \<times> string) list"

definition severityLabel :: "log_severity \<Rightarrow> string" where
  "severityLabel s =
     (case s of
        SEVERITY_CRITICAL \<Rightarrow> ''critical''
      | SEVERITY_ERROR \<Rightarrow> ''error''
      | SEVERITY_WARNING \<Rightarrow> ''warning''
      | SEVERITY_INFO \<Rightarrow> ''info''
      | SEVERITY_DEBUG \<Rightarrow> ''debug''
      | SEVERITY_TRACE \<Rightarrow> ''trace''
      | _ \<Rightarrow> ''unknown'')"

definition entry_source :: "log_entry \<Rightarrow> string" where
  "entry_source e = (if le_Source e = [] then ''unknown'' else le_Source e)"

text \<open>The map from sources to their entries, each group in the order of the batch.\<close>

fun group_insert :: "log_entry \<Rightarrow> (string \<times> log_entry list) list \<Rightarrow> (string \<times> log_entry list) list" where
  "group_insert e [] = [(entry_source e, [e])]"
| "group_insert e ((k, es) # gs) =
     (if k = entry_source e then (k, es @ [e]) # gs else (k, es) # group_insert e gs)"

definition group_by_source :: "log_entry list \<Rightarrow> (string \<times> log_entry list) list" where
  "group_by_source es = foldl (\<lambda>gs e. group_insert e gs) [] es"

fun entry_values :: "log_entry list \<Rightarrow> world \<Rightarrow> (string \<times> string) list \<times> world" where
  "entry_values [] w = ([], w)"
| "entry_values (e # es) w =
     (let (tsNs, w1) = (case le_Timestamp e of Some ts \<Rightarrow> (wrap64 ts, w)
                        | None \<Rightarrow> (let (now, w1) = go_now w in (wrap64 now, w1)));
          (vs, w2) = entry_values es w1
      in ((itoa tsNs, le_Message e) # vs, w2))"

fun build_streams :: "string \<Rightarrow> (string \<times> log_entry list) list \<Rightarrow> world \<Rightarrow> loki_stream list \<times> world" where
  "build_streams hostID [] w = ([], w)"
| "build_streams hostID ((source, entries) # gs) w =
     (let (values, w1) = entry_values entries w; (ss, w2) = build_streams hostID gs w1
      in (\<lparr>ls_Stream = [(''host_id'', hostID), (''source'', source),
                       (''severity'', severityLabel (le_Severity (hd entries)))],
           ls_Values = values\<rparr> # ss, w2))"

text \<open>\<open>json.Marshal\<close> writes the keys of a map in order.\<close>

definition marshal_push :: "loki_stream list \<Rightarrow> json" where
  "marshal_push ss =
     JObj [(''streams'', JArr (map (\<lambda>s. JObj
       [(''stream'', marshal_labels (Some (ls_Stream s))),
        (''values'', JArr (map (\<lambda>(t, l). JArr [JStr t, JStr l]) (ls_Values s)))]) ss))]"

record json_request =
  jr_URL :: string
  jr_ContentType :: string
  jr_Body :: json

definition loki_New :: "string \<Rightarrow> string" where
  "loki_New baseURL = trim_right CHR ''/'' baseURL"

definition loki_Write ::
  "((string \<times> log_entry list) list \<Rightarrow> (string \<times> log_entry list) list) \<Rightarrow> (string \<Rightarrow> bool) \<Rightarrow> http_reply
     \<Rightarrow> string \<Rightarrow> string \<Rightarrow> log_entry list \<Rightarrow> world \<Rightarrow> (go_error option \<times> json_request option) \<times> world" where
  "loki_Write order url_ok reply baseURL hostID entries w =
     (if length entries = 0 then ((None, None), w)
      else (let (streams, w1) = build_streams hostID (order (group_by_source entries)) w;
                url = baseURL @ ''/loki/api/v1/push''
            in if \<not> url_ok url then ((Some (Wrapped ''loki: build request'' (ErrorText url)), None), w1)
               else (let rq = Some \<lparr>jr_URL = url, jr_ContentType = ''application/json'', jr_Body = marshal_push streams\<rparr>
                     in case reply of
                          NoReply e \<Rightarrow> ((Some (Wrapped (''loki: POST '' @ url) (ErrorText e)), rq), w1)
                        | Reply status body \<Rightarrow>
                            if status \<noteq> 204 \<and> status \<noteq> 200
                            then ((Some (ErrorText (''loki: unexpected status '' @ itoa status @ '': '' @
                                           take 512 body)), rq), w1)
                            else ((None, rq), w1))))"

subsection \<open>Grouping\<close>

definition groups_ok :: "log_entry list \<Rightarrow> (string \<times> log_entry list) list \<Rightarrow> bool" where
  "groups_ok es gs \<longleftrightarrow> distinct (map fst gs) \<and> fst ` set gs = entry_source ` set es \<and>
     (\<forall>(k, g) \<in> set gs. g = filter (\<lambda>e. entry_source e = k) es)"

lemma group_insert_keys: "fst ` set (group_insert e gs) = insert (entry_source e) (fst ` set gs)"
  by (induction e gs rule: group_insert.induct) auto

lemma group_insert_distinct: "distinct (map fst gs) \<Longrightarrow> distinct (map fst (group_insert e gs))"
  by (induction e gs rule: group_insert.induct) (auto simp: group_insert_keys)

lemma group_insert_member:
  "distinct (map fst gs) \<Longrightarrow> (k, g) \<in> set (group_insert e gs) \<longleftrightarrow>
     (if k = entry_source e
      then g = (case map_of gs k of None \<Rightarrow> [] | Some g0 \<Rightarrow> g0) @ [e] else (k, g) \<in> set gs)"
proof (induction e gs rule: group_insert.induct)
  case (1 e)
  then show ?case by auto
next
  case (2 e k0 es gs)
  then show ?case by (cases "k0 = entry_source e") (auto simp: rev_image_eqI)
qed

lemma groups_ok_group: "groups_ok es (group_by_source es)"
proof (induction es rule: rev_induct)
  case Nil
  then show ?case by (simp add: groups_ok_def group_by_source_def)
next
  case (snoc e es)
  let ?gs = "group_by_source es"
  have d: "distinct (map fst ?gs)" and keys: "fst ` set ?gs = entry_source ` set es"
    and mem: "\<And>k g. (k, g) \<in> set ?gs \<Longrightarrow> g = filter (\<lambda>e. entry_source e = k) es"
    using snoc by (auto simp: groups_ok_def)
  have step: "group_by_source (es @ [e]) = group_insert e ?gs" by (simp add: group_by_source_def)
  have "g = filter (\<lambda>e. entry_source e = k) (es @ [e])" if "(k, g) \<in> set (group_insert e ?gs)" for k g
  proof (cases "k = entry_source e")
    case False
    with that d mem show ?thesis by (auto simp: group_insert_member)
  next
    case True
    with that d have g: "g = (case map_of ?gs k of None \<Rightarrow> [] | Some g0 \<Rightarrow> g0) @ [e]"
      by (simp add: group_insert_member)
    show ?thesis
    proof (cases "map_of ?gs k")
      case None
      then have "k \<notin> entry_source ` set es" using keys by (simp add: map_of_eq_None_iff)
      then have "filter (\<lambda>e. entry_source e = k) es = []" by (auto simp: filter_empty_conv)
      with g None True show ?thesis by simp
    next
      case (Some g0)
      then have "g0 = filter (\<lambda>e. entry_source e = k) es" by (intro mem map_of_SomeD)
      with g Some True show ?thesis by simp
    qed
  qed
  then show ?case
    unfolding groups_ok_def step using d keys
    by (auto simp: group_insert_distinct group_insert_keys)
qed

lemma entry_values_map:
  "map snd (fst (entry_values es w)) = map le_Message es"
  "\<forall>e \<in> set es. le_Timestamp e \<noteq> None \<Longrightarrow>
     fst (entry_values es w) = map (\<lambda>e. (itoa (wrap64 (the (le_Timestamp e))), le_Message e)) es"
  by (induction es arbitrary: w) (auto simp: Let_def split_def split: option.splits)

lemma build_streams_map:
  "map (\<lambda>s. (ls_Stream s, map snd (ls_Values s))) (fst (build_streams h gs w)) =
   map (\<lambda>(src, es). ([(''host_id'', h), (''source'', src), (''severity'', severityLabel (le_Severity (hd es)))],
                     map le_Message es)) gs"
  by (induction gs arbitrary: w) (auto simp: Let_def split_def entry_values_map(1))

text \<open>C32: Grouping loses and adds nothing: there is one stream for every source that occurs (an empty one
  counts as \<open>unknown\<close>), labelled with the host ID and the source, holding exactly the messages of
  that source in the order of the batch, under the severity of the first of them.\<close>

theorem loki_streams_complete:
  assumes "\<And>gs. mset (order gs) = mset gs" "build_streams h (order (group_by_source es)) w = (ss, w')"
  shows "mset (map (\<lambda>s. (ls_Stream s, map snd (ls_Values s))) ss) =
     mset (map (\<lambda>src. let mine = filter (\<lambda>e. entry_source e = src) es in
        ([(''host_id'', h), (''source'', src), (''severity'', severityLabel (le_Severity (hd mine)))], map le_Message mine))
       (map fst (group_by_source es)))
     \<and> distinct (map fst (group_by_source es)) \<and> set (map fst (group_by_source es)) = entry_source ` set es"
proof -
  let ?F = "\<lambda>(src, es). ([(''host_id'', h), (''source'', src), (''severity'', severityLabel (le_Severity (hd es)))],
      map le_Message es)"
  let ?G = "\<lambda>src. let mine = filter (\<lambda>e. entry_source e = src) es in
        ([(''host_id'', h), (''source'', src), (''severity'', severityLabel (le_Severity (hd mine)))], map le_Message mine)"
  have ok: "groups_ok es (group_by_source es)" by (rule groups_ok_group)
  have "map (\<lambda>s. (ls_Stream s, map snd (ls_Values s))) ss = map ?F (order (group_by_source es))"
    using build_streams_map [of h "order (group_by_source es)" w] assms(2) by simp
  then have "mset (map (\<lambda>s. (ls_Stream s, map snd (ls_Values s))) ss) = mset (map ?F (group_by_source es))"
    by (simp add: assms(1))
  also have "map ?F (group_by_source es) = map ?G (map fst (group_by_source es))"
    unfolding map_map using ok by (intro map_cong refl) (fastforce simp: groups_ok_def Let_def)
  finally show ?thesis using ok by (simp add: groups_ok_def)
qed

definition demo_logs :: "log_entry list" where
  "demo_logs = [\<lparr>le_Timestamp = Some 7, le_Severity = SEVERITY_INFO, le_Source = ''sshd'', le_Message = ''login''\<rparr>,
     \<lparr>le_Timestamp = Some 8, le_Severity = SEVERITY_ERROR, le_Source = [], le_Message = ''lost''\<rparr>,
     \<lparr>le_Timestamp = Some 9, le_Severity = SEVERITY_CRITICAL, le_Source = ''sshd'', le_Message = ''breach''\<rparr>]"

theorem loki_streams_complete_witness:
  "\<exists>ss w'. build_streams ''H1'' (rev (group_by_source demo_logs)) (calm_world empty_db) = (ss, w')
     \<and> (''critical'' \<notin> (\<lambda>s. snd (ls_Stream s ! 2)) ` set ss)
     \<and> mset (map (\<lambda>s. (ls_Stream s, map snd (ls_Values s))) ss) =
       {#([(''host_id'', ''H1''), (''source'', ''sshd''), (''severity'', ''info'')], [''login'', ''breach'']),
         ([(''host_id'', ''H1''), (''source'', ''unknown''), (''severity'', ''error'')], [''lost''])#}"
proof -
  let ?r = "build_streams ''H1'' (rev (group_by_source demo_logs)) (calm_world empty_db)"
  obtain ss w' where run: "?r = (ss, w')" by (metis surj_pair)
  have g: "map fst (group_by_source demo_logs) = [''sshd'', ''unknown'']"
    by (simp add: group_by_source_def demo_logs_def entry_source_def)
  have m: "mset (map (\<lambda>s. (ls_Stream s, map snd (ls_Values s))) ss) =
       {#([(''host_id'', ''H1''), (''source'', ''sshd''), (''severity'', ''info'')], [''login'', ''breach'']),
         ([(''host_id'', ''H1''), (''source'', ''unknown''), (''severity'', ''error'')], [''lost''])#}"
    using loki_streams_complete [where order = rev, OF _ run] unfolding g
    by (simp add: demo_logs_def entry_source_def severityLabel_def)
  have "fst ` set (map (\<lambda>s. (ls_Stream s, map snd (ls_Values s))) ss) =
      {[(''host_id'', ''H1''), (''source'', ''sshd''), (''severity'', ''info'')],
       [(''host_id'', ''H1''), (''source'', ''unknown''), (''severity'', ''error'')]}"
    using arg_cong [OF m, where f = "\<lambda>M. fst ` set_mset M"] by (simp add: image_image)
  then have "ls_Stream ` set ss = {[(''host_id'', ''H1''), (''source'', ''sshd''), (''severity'', ''info'')],
       [(''host_id'', ''H1''), (''source'', ''unknown''), (''severity'', ''error'')]}"
    by (simp add: image_image)
  moreover have "(\<lambda>s. snd (ls_Stream s ! 2)) ` set ss = (\<lambda>l. snd (l ! 2)) ` ls_Stream ` set ss"
    by (simp add: image_image)
  ultimately show ?thesis using run m by simp
qed

end
