(* ===== verification/Stream.thy ===== *)
theory Stream
  imports Enrollment ConfigPush Loki
begin

text \<open>
  \<open>internal/stream/handler.go\<close>: the Connect RPC as a state machine. A connection has a receiving
  goroutine, a channel of 16 messages, and a loop that serves whichever of context, error, message
  and ticker is ready; when the loop returns, the deferred call removes the host from the registry.
  What the source starts with \<open>go\<close> is a job that any later step may run. The steps interleave
  freely: \<open>hub_step\<close> says what each can do, with the calls of the broker and of the config push,
  and any change of the world by the other parts of the server, as steps of their own.
\<close>

datatype agent_message =
    Heartbeat "instant option"
  | MetricBatch "metric list"
  | LogBatch "log_entry list"
  | ConfigAck config_ack
  | CommandResult command_result
  | SecurityEvent security_event
  | UnknownMessage

datatype job =
    SyncJob string
  | VMJob string "metric list"
  | LokiJob string "log_entry list"
  | ResultJob command_result
  | EventJob string security_event

text \<open>What the environment and the configuration give: the parameters of the writers and stores.\<close>

record env =
  e_type_name :: "int \<Rightarrow> string"
  e_marshal :: "command_request \<Rightarrow> string + json"
  e_fmt_g :: "64 word \<Rightarrow> string"
  e_is_print :: "nat \<Rightarrow> bool"
  e_label_order :: "(string \<times> string) list \<Rightarrow> (string \<times> string) list"
  e_source_order :: "(string \<times> log_entry list) list \<Rightarrow> (string \<times> log_entry list) list"
  e_url_ok :: "string \<Rightarrow> bool"
  e_reply :: "nat \<Rightarrow> http_reply"
  e_vm_url :: string
  e_loki_url :: string

definition pingInterval :: duration where "pingInterval = 30 * time_Second"

subsection \<open>Who is calling\<close>

definition hostIDFromStream :: "peer \<Rightarrow> string + string" where
  "hostIDFromStream p =
     (case p of
        NoPeer \<Rightarrow> Inl ''no peer info in context''
      | OtherAuth \<Rightarrow> Inl ''no TLS info in peer auth''
      | TLSInfo vcs \<Rightarrow>
          (case vcs of
             (leaf # _) # _ \<Rightarrow>
               if ct_CommonName (crt_Fields leaf) = [] then Inl ''client certificate has empty CN''
               else Inr (ct_CommonName (crt_Fields leaf))
           | _ \<Rightarrow> Inl ''no verified client certificate''))"

lemma hostIDFromStream_Inr:
  "hostIDFromStream p = Inr h \<longleftrightarrow>
     (\<exists>leaf. verified_leaf p = Some leaf \<and> ct_CommonName (crt_Fields leaf) = h \<and> h \<noteq> [])"
  by (auto simp: hostIDFromStream_def verified_leaf_def split: peer.splits list.splits if_splits)

subsection \<open>Handling a message\<close>

definition handleHeartbeat :: "string \<Rightarrow> instant option \<Rightarrow> world \<Rightarrow> go_error option \<times> world" where
  "handleHeartbeat hostID ts w =
     (let (now, w1) = go_now w; t = (case ts of Some x \<Rightarrow> x | None \<Rightarrow> now)
      in case host_UpdateHeartbeat hostID t ''online'' w1 of
           (Inl e, w2) \<Rightarrow> (Some (Wrapped ''heartbeat'' e), w2)
         | (Inr _, w2) \<Rightarrow> (None, w2))"

text \<open>The error and the jobs a message leads to; the caller only logs the error.\<close>

definition handleMessage :: "string \<Rightarrow> agent_message \<Rightarrow> world \<Rightarrow> (go_error option \<times> job list) \<times> world" where
  "handleMessage hostID m w =
     (case m of
        Heartbeat ts \<Rightarrow> (case handleHeartbeat hostID ts w of (e, w1) \<Rightarrow> ((e, []), w1))
      | MetricBatch ms \<Rightarrow> ((None, [VMJob hostID ms]), w)
      | LogBatch es \<Rightarrow> ((None, [LokiJob hostID es]), w)
      | ConfigAck a \<Rightarrow> ((None, []), w)
      | CommandResult r \<Rightarrow> ((None, [ResultJob r]), w)
      | SecurityEvent ev \<Rightarrow> ((None, [EventJob hostID ev]), w)
      | UnknownMessage \<Rightarrow> ((None, []), w))"

definition run_job :: "env \<Rightarrow> job \<Rightarrow> server \<Rightarrow> server" where
  "run_job E j s =
     (case j of
        SyncJob h \<Rightarrow> snd (SyncOnConnect h 0 s)
      | VMJob h ms \<Rightarrow>
          snd (on_store (vm_Write (e_fmt_g E) (e_is_print E) (e_label_order E) (e_url_ok E)
                 (e_reply E (w_tick (s_world s))) (e_vm_url E) h ms) s)
      | LokiJob h es \<Rightarrow>
          snd (on_store (loki_Write (e_source_order E) (e_url_ok E) (e_reply E (w_tick (s_world s)))
                 (e_loki_url E) h es) s)
      | ResultJob r \<Rightarrow> s\<lparr>s_world := HandleResult r (s_world s)\<rparr>
      | EventJob h ev \<Rightarrow> snd (on_store (event_Insert (e_type_name E) ev) s))"

subsection \<open>Connections\<close>

datatype recv_error = EOF | RecvError string

datatype receiver = Receiving | InHand agent_message | Failed recv_error

record conn =
  cn_host :: string
  cn_peer :: peer
  cn_channel :: "agent_message list"
  cn_receiver :: receiver
  cn_running :: bool
  cn_result :: "grpc_error option"

record hub =
  hub_server :: server
  hub_conns :: "stream_id \<Rightarrow> conn option"
  hub_jobs :: "job list"

definition channel_capacity :: nat where "channel_capacity = 16"

definition on_server :: "(server \<Rightarrow> server) \<Rightarrow> hub \<Rightarrow> hub" where
  "on_server f H = H\<lparr>hub_server := f (hub_server H)\<rparr>"

definition set_conn :: "stream_id \<Rightarrow> conn \<Rightarrow> hub \<Rightarrow> hub" where
  "set_conn st c H = H\<lparr>hub_conns := (hub_conns H)(st \<mapsto> c)\<rparr>"

text \<open>The start of Connect, up to its loop.\<close>

definition Connect_start :: "stream_id \<Rightarrow> peer \<Rightarrow> hub \<Rightarrow> hub" where
  "Connect_start st p H =
     (case hostIDFromStream p of
        Inl e \<Rightarrow>
          set_conn st \<lparr>cn_host = [], cn_peer = p, cn_channel = [], cn_receiver = Failed EOF, cn_running = False,
                       cn_result = Some (Status Unauthenticated (''connect: '' @ e))\<rparr> H
      | Inr h \<Rightarrow>
          (on_server (\<lambda>s. s\<lparr>s_registry := registry_Add h st (s_registry s)\<rparr>)
            (set_conn st \<lparr>cn_host = h, cn_peer = p, cn_channel = [], cn_receiver = Receiving, cn_running = True,
                          cn_result = None\<rparr> H))
          \<lparr>hub_jobs := hub_jobs H @ [SyncJob h]\<rparr>)"

text \<open>The return of Connect: its result, and the deferred \<open>Remove\<close>.\<close>

definition Connect_return :: "stream_id \<Rightarrow> conn \<Rightarrow> grpc_error option \<Rightarrow> hub \<Rightarrow> hub" where
  "Connect_return st c r H =
     on_server (\<lambda>s. s\<lparr>s_registry := registry_Remove (cn_host c) (s_registry s)\<rparr>)
       (set_conn st (c\<lparr>cn_running := False, cn_result := r\<rparr>) H)"

definition serve_message :: "stream_id \<Rightarrow> conn \<Rightarrow> agent_message \<Rightarrow> agent_message list \<Rightarrow> hub \<Rightarrow> hub" where
  "serve_message st c m rest H =
     (case handleMessage (cn_host c) m (s_world (hub_server H)) of
        ((_, jobs), w) \<Rightarrow>
          (on_server (\<lambda>s. s\<lparr>s_world := w\<rparr>) (set_conn st (c\<lparr>cn_channel := rest\<rparr>) H))
          \<lparr>hub_jobs := hub_jobs H @ jobs\<rparr>)"

definition serve_error :: "stream_id \<Rightarrow> conn \<Rightarrow> recv_error \<Rightarrow> hub \<Rightarrow> hub" where
  "serve_error st c e H =
     Connect_return st c (case e of EOF \<Rightarrow> None | RecvError t \<Rightarrow> Some (Status Internal (''recv: '' @ t))) H"

definition serve_tick :: "stream_id \<Rightarrow> conn \<Rightarrow> instant \<Rightarrow> hub \<Rightarrow> hub" where
  "serve_tick st c t H =
     (case stream_Send st (Ping t) (hub_server H) of
        (None, s) \<Rightarrow> H\<lparr>hub_server := s\<rparr>
      | (Some e, s) \<Rightarrow>
          Connect_return st c (Some (Status Internal (''ping: '' @ error_text e))) (H\<lparr>hub_server := s\<rparr>))"

subsection \<open>The steps\<close>

datatype label =
    LConnect stream_id peer
  | LReceive stream_id
  | LServe stream_id
  | LJob job
  | LIssue issue_request
  | LPush string
  | LWorld

inductive hub_step :: "env \<Rightarrow> label \<Rightarrow> hub \<Rightarrow> hub \<Rightarrow> bool" for E where
  connect: "hub_conns H st = None \<Longrightarrow> hub_step E (LConnect st p) H (Connect_start st p H)"
| receive: "hub_conns H st = Some c \<Longrightarrow> cn_receiver c = Receiving \<Longrightarrow>
    hub_step E (LReceive st) H (set_conn st (c\<lparr>cn_receiver := InHand m\<rparr>) H)"
| deliver: "hub_conns H st = Some c \<Longrightarrow> cn_receiver c = InHand m \<Longrightarrow> length (cn_channel c) < channel_capacity \<Longrightarrow>
    hub_step E (LReceive st) H (set_conn st (c\<lparr>cn_channel := cn_channel c @ [m], cn_receiver := Receiving\<rparr>) H)"
| receive_error: "hub_conns H st = Some c \<Longrightarrow> cn_receiver c = Receiving \<Longrightarrow>
    hub_step E (LReceive st) H (set_conn st (c\<lparr>cn_receiver := Failed e\<rparr>) H)"
| context_done: "hub_conns H st = Some c \<Longrightarrow> cn_running c \<Longrightarrow>
    hub_step E (LServe st) H (Connect_return st c None H)"
| error: "hub_conns H st = Some c \<Longrightarrow> cn_running c \<Longrightarrow> cn_receiver c = Failed e \<Longrightarrow>
    hub_step E (LServe st) H (serve_error st c e H)"
| message: "hub_conns H st = Some c \<Longrightarrow> cn_running c \<Longrightarrow> cn_channel c = m # rest \<Longrightarrow>
    hub_step E (LServe st) H (serve_message st c m rest H)"
| ticker: "hub_conns H st = Some c \<Longrightarrow> cn_running c \<Longrightarrow>
    hub_step E (LServe st) H (serve_tick st c t H)"
| job: "hub_jobs H = xs @ j # ys \<Longrightarrow>
    hub_step E (LJob j) H ((on_server (run_job E j) H)\<lparr>hub_jobs := xs @ ys\<rparr>)"
| issue: "hub_step E (LIssue req) H (on_server (\<lambda>s. snd (Issue (e_marshal E) req s)) H)"
| push: "hub_step E (LPush h) H (on_server (\<lambda>s. snd (Push h s)) H)"
| others: "hub_step E LWorld H (on_server (\<lambda>s. s\<lparr>s_world := w\<rparr>) H)"

inductive_cases hub_stepE: "hub_step E l H H'"

inductive hub_run :: "env \<Rightarrow> hub \<Rightarrow> label list \<Rightarrow> hub \<Rightarrow> bool" for E where
  none: "hub_run E H [] H"
| more: "hub_step E l H H1 \<Longrightarrow> hub_run E H1 ls H2 \<Longrightarrow> hub_run E H (l # ls) H2"

inductive_simps hub_run_Nil [simp]: "hub_run E H [] H'"
inductive_simps hub_run_Cons: "hub_run E H (l # ls) H'"

definition new_hub :: "world \<Rightarrow> (nat \<Rightarrow> string option) \<Rightarrow> hub" where
  "new_hub w errs = \<lparr>hub_server = \<lparr>s_world = w, s_registry = NewRegistry, s_limiter = NewRateLimiter, s_sent = [],
     s_sends = 0, s_send_error = errs\<rparr>, hub_conns = (\<lambda>_. None), hub_jobs = []\<rparr>"

subsection \<open>What no step can break\<close>

lemma Issue_registry [simp]: "s_registry (snd (Issue marshal req s)) = s_registry s"
proof -
  obtain k e s' where i: "Issue marshal req s = ((k, e), s')" by (metis surj_pair)
  then have "s_registry s' = s_registry s"
    by (cases rule: Issue_cases) (auto dest!: push_command_result)
  with i show ?thesis by simp
qed

lemma stream_Send_registry [simp]: "s_registry (snd (stream_Send st m s)) = s_registry s"
  by (simp add: stream_Send_def split: option.splits)

lemma config_send_registry [simp]: "s_registry (snd (config_send st c s)) = s_registry s"
  by (auto simp: config_send_def stream_Send_def split: option.splits)

lemma pushes_registry [simp]:
  "s_registry (snd (Push h s)) = s_registry s" "s_registry (snd (SyncOnConnect h v s)) = s_registry s"
  by (auto simp: Push_def SyncOnConnect_def split: prod.splits option.splits sum.splits dest!: on_store_result)

lemma run_job_registry [simp]: "s_registry (run_job E j s) = s_registry s"
  by (simp add: run_job_def split: job.splits)

definition conn_ok :: "conn \<Rightarrow> bool" where
  "conn_ok c \<longleftrightarrow> length (cn_channel c) \<le> channel_capacity \<and>
     (cn_running c \<longrightarrow> hostIDFromStream (cn_peer c) = Inr (cn_host c))"

definition hub_ok :: "hub \<Rightarrow> bool" where
  "hub_ok H \<longleftrightarrow>
     registry_ok (s_registry (hub_server H)) \<and>
     (\<forall>st c. hub_conns H st = Some c \<longrightarrow> conn_ok c) \<and>
     (\<forall>h st. registry_Get (s_registry (hub_server H)) h = Some st \<longrightarrow>
        (\<exists>c. hub_conns H st = Some c \<and> cn_running c \<and> cn_host c = h))"

lemma hub_okD:
  assumes "hub_ok H"
  shows "registry_ok (s_registry (hub_server H))"
    "hub_conns H st = Some c \<Longrightarrow> conn_ok c"
    "registry_Get (s_registry (hub_server H)) h = Some st \<Longrightarrow>
       \<exists>c. hub_conns H st = Some c \<and> cn_running c \<and> cn_host c = h"
  using assms unfolding hub_ok_def by blast+

lemma hub_ok_same:
  assumes "hub_ok H" "s_registry (hub_server H') = s_registry (hub_server H)" "hub_conns H' = hub_conns H"
  shows "hub_ok H'"
  using assms by (simp add: hub_ok_def)

text \<open>A step that replaces one connection, keeping its host and whether it runs.\<close>

lemma hub_ok_set_conn:
  assumes "hub_ok H" "hub_conns H st = Some c" "s_registry (hub_server H') = s_registry (hub_server H)"
    "hub_conns H' = (hub_conns H)(st \<mapsto> c')" "conn_ok c'" "cn_running c' = cn_running c" "cn_host c' = cn_host c"
  shows "hub_ok H'"
proof -
  have "\<exists>d. hub_conns H' s = Some d \<and> cn_running d \<and> cn_host d = h"
    if r: "registry_Get (s_registry (hub_server H')) h = Some s" for h s
  proof -
    obtain d where "hub_conns H s = Some d" "cn_running d" "cn_host d = h"
      using hub_okD(3) [OF assms(1)] r assms(3) by metis
    then show ?thesis using assms(2,4,6,7) by (cases "s = st") auto
  qed
  moreover have "conn_ok d" if "hub_conns H' s = Some d" for s d
    using that assms(4,5) hub_okD(2) [OF assms(1), of s d] by (auto split: if_splits)
  ultimately show ?thesis using hub_okD(1) [OF assms(1)] assms(3) unfolding hub_ok_def by metis
qed

lemma hub_ok_return:
  assumes "hub_ok H" "hub_conns H st = Some c"
  shows "hub_ok (Connect_return st c r H)"
proof -
  let ?H = "Connect_return st c r H" and ?c = "c\<lparr>cn_running := False, cn_result := r\<rparr>"
  have reg: "s_registry (hub_server ?H) = registry_Remove (cn_host c) (s_registry (hub_server H))"
    and con: "hub_conns ?H = (hub_conns H)(st \<mapsto> ?c)"
    by (simp_all add: Connect_return_def on_server_def set_conn_def)
  have "\<exists>d. hub_conns ?H s = Some d \<and> cn_running d \<and> cn_host d = h"
    if "registry_Get (s_registry (hub_server ?H)) h = Some s" for h s
  proof -
    from that have h: "h \<noteq> cn_host c" "registry_Get (s_registry (hub_server H)) h = Some s"
      by (auto simp: reg reg.lookup_remove split: if_splits)
    then obtain d where "hub_conns H s = Some d" "cn_running d" "cn_host d = h"
      using hub_okD(3) [OF assms(1)] by blast
    then show ?thesis using h(1) assms(2) by (auto simp: con)
  qed
  moreover have "conn_ok d" if "hub_conns ?H s = Some d" for s d
    using that hub_okD(2) [OF assms(1), of s d] hub_okD(2) [OF assms]
    by (auto simp: con conn_ok_def split: if_splits)
  moreover have "registry_ok (s_registry (hub_server ?H))"
    using hub_okD(1) [OF assms(1)] by (simp add: reg reg.valid_remove)
  ultimately show ?thesis unfolding hub_ok_def by blast
qed

lemma hub_ok_connect:
  assumes "hub_ok H" "hub_conns H st = None"
  shows "hub_ok (Connect_start st p H)"
proof (cases "hostIDFromStream p")
  case (Inl e)
  let ?H = "Connect_start st p H"
  have reg: "s_registry (hub_server ?H) = s_registry (hub_server H)"
    using Inl by (simp add: Connect_start_def set_conn_def)
  obtain c where con: "hub_conns ?H = (hub_conns H)(st \<mapsto> c)" "\<not> cn_running c" "cn_channel c = []"
    using Inl by (simp add: Connect_start_def set_conn_def)
  show ?thesis
    unfolding hub_ok_def reg
    using con assms hub_okD [OF assms(1)] by (auto simp: conn_ok_def split: if_splits) fastforce+
next
  case (Inr h)
  let ?H = "Connect_start st p H"
  have reg: "s_registry (hub_server ?H) = registry_Add h st (s_registry (hub_server H))"
    using Inr by (simp add: Connect_start_def set_conn_def on_server_def)
  obtain c where c: "hub_conns ?H = (hub_conns H)(st \<mapsto> c)" "cn_running c" "cn_channel c = []" "cn_host c = h" "cn_peer c = p"
    using Inr by (simp add: Connect_start_def set_conn_def on_server_def)
  have "\<exists>d. hub_conns ?H s = Some d \<and> cn_running d \<and> cn_host d = k"
    if "registry_Get (s_registry (hub_server ?H)) k = Some s" for k s
    using that c assms hub_okD(3) [OF assms(1), of k s]
    by (auto simp: reg reg.lookup_add split: if_splits)
  moreover have "conn_ok d" if "hub_conns ?H s = Some d" for s d
    using that hub_okD(2) [OF assms(1), of s d] c Inr by (auto simp: conn_ok_def split: if_splits)
  moreover have "registry_ok (s_registry (hub_server ?H))"
    using hub_okD(1) [OF assms(1)] by (simp add: reg reg.valid_add)
  ultimately show ?thesis unfolding hub_ok_def by blast
qed

lemma hub_step_ok: "hub_step E l H H' \<Longrightarrow> hub_ok H \<Longrightarrow> hub_ok H'"
proof (induction rule: hub_step.induct)
  case (connect H st p)
  then show ?case by (intro hub_ok_connect)
next
  case (receive H st c m)
  then show ?case
    using hub_okD(2) [of H st c]
    by (intro hub_ok_set_conn [OF receive(3,1), of _ "c\<lparr>cn_receiver := InHand m\<rparr>"]) (simp_all add: set_conn_def conn_ok_def)
next
  case (deliver H st c m)
  then show ?case
    using hub_okD(2) [of H st c]
    by (intro hub_ok_set_conn [OF deliver(4,1), of _ "c\<lparr>cn_channel := cn_channel c @ [m], cn_receiver := Receiving\<rparr>"])
       (simp_all add: set_conn_def conn_ok_def)
next
  case (receive_error H st c e)
  then show ?case
    using hub_okD(2) [of H st c]
    by (intro hub_ok_set_conn [OF receive_error(3,1), of _ "c\<lparr>cn_receiver := Failed e\<rparr>"]) (simp_all add: set_conn_def conn_ok_def)
next
  case (context_done H st c)
  then show ?case by (intro hub_ok_return)
next
  case (error H st c e)
  then show ?case unfolding serve_error_def by (intro hub_ok_return)
next
  case (message H st c m rest)
  then show ?case
    using hub_okD(2) [of H st c]
    by (intro hub_ok_set_conn [OF message(4,1), of _ "c\<lparr>cn_channel := rest\<rparr>"])
       (auto simp: serve_message_def set_conn_def on_server_def conn_ok_def split: prod.splits)
next
  case (ticker H st c t)
  obtain e s where snd: "stream_Send st (Ping t) (hub_server H) = (e, s)" by (metis surj_pair)
  then have "s_registry s = s_registry (hub_server H)"
    using stream_Send_registry [of st "Ping t" "hub_server H"] by simp
  with ticker.prems have ok: "hub_ok (H\<lparr>hub_server := s\<rparr>)" by (elim hub_ok_same) simp_all
  with ticker.hyps snd show ?case
    by (cases e) (simp_all add: serve_tick_def hub_ok_return)
next
  case (job H xs j ys)
  then show ?case by (elim hub_ok_same) (simp_all add: on_server_def)
next
  case (issue req H)
  then show ?case by (elim hub_ok_same) (simp_all add: on_server_def)
next
  case (push h H)
  then show ?case by (elim hub_ok_same) (simp_all add: on_server_def)
next
  case (others H w)
  then show ?case by (elim hub_ok_same) (simp_all add: on_server_def)
qed

lemma hub_run_ok: "hub_run E H ls H' \<Longrightarrow> hub_ok H \<Longrightarrow> hub_ok H'"
  by (induction rule: hub_run.induct) (auto intro: hub_step_ok)

lemma new_hub_ok: "hub_ok (new_hub w errs)"
  by (simp add: hub_ok_def new_hub_def NewRegistry_def registry_ok_def registry_Get_def)

text \<open>C12: In every state the server can reach, the stream registered for a host belongs to a connection
  whose Connect is still running and whose verified client certificate has that host as its common
  name; no channel holds more than its 16 messages.\<close>

theorem registered_streams:
  assumes "hub_run E (new_hub w errs) ls H"
  shows "(\<forall>h st. registry_Get (s_registry (hub_server H)) h = Some st \<longrightarrow>
      (\<exists>c leaf. hub_conns H st = Some c \<and> cn_running c \<and> verified_leaf (cn_peer c) = Some leaf
         \<and> ct_CommonName (crt_Fields leaf) = h \<and> h \<noteq> []))
    \<and> (\<forall>st c. hub_conns H st = Some c \<longrightarrow> length (cn_channel c) \<le> 16)
    \<and> registry_Count (s_registry (hub_server H)) = card (dom (registry_Get (s_registry (hub_server H))))"
proof (intro conjI allI impI)
  have ok: "hub_ok H" using assms new_hub_ok by (rule hub_run_ok)
  {
    fix h st assume "registry_Get (s_registry (hub_server H)) h = Some st"
    then obtain c where c: "hub_conns H st = Some c" "cn_running c" "cn_host c = h"
      using hub_okD(3) [OF ok] by blast
    then have "hostIDFromStream (cn_peer c) = Inr h" using hub_okD(2) [OF ok c(1)] by (simp add: conn_ok_def)
    with c show "\<exists>c leaf. hub_conns H st = Some c \<and> cn_running c \<and> verified_leaf (cn_peer c) = Some leaf
         \<and> ct_CommonName (crt_Fields leaf) = h \<and> h \<noteq> []"
      by (auto simp: hostIDFromStream_Inr)
  }
  show "length (cn_channel c) \<le> 16" if "hub_conns H st = Some c" for st c
    using hub_okD(2) [OF ok that] by (simp add: conn_ok_def channel_capacity_def)
  show "registry_Count (s_registry (hub_server H)) = card (dom (registry_Get (s_registry (hub_server H))))"
    using hub_okD(1) [OF ok] by (rule reg.count_dom)
qed

text \<open>C13: A command reported as sent went to the host it is for: to a running connection that proved,
  by its client certificate, to be that very host.\<close>

theorem Issue_reaches_host:
  assumes "hub_run E (new_hub w errs) ls H" "Issue marshal req (hub_server H) = ((k, None), s')"
  shows "\<exists>st c leaf p. s_sent s' = s_sent (hub_server H) @ [(st, CommandRequest (build_request k req p))]
    \<and> hub_conns H st = Some c \<and> cn_running c \<and> verified_leaf (cn_peer c) = Some leaf
    \<and> ct_CommonName (crt_Fields leaf) = iq_HostID req"
proof -
  have ok: "hub_ok H" using assms(1) new_hub_ok by (rule hub_run_ok)
  obtain st p where st: "adapter_Get (s_registry (hub_server H)) (iq_HostID req) = Some st"
    "s_sent s' = s_sent (hub_server H) @ [(st, CommandRequest (build_request k req p))]"
    using Issue_sent [OF assms(2)] by blast
  then obtain c where c: "hub_conns H st = Some c" "cn_running c" "cn_host c = iq_HostID req"
    using hub_okD(3) [OF ok, of "iq_HostID req" st]
    by (auto simp: adapter_Get_def registry_GetSender_def registry_Get_def)
  then have "hostIDFromStream (cn_peer c) = Inr (iq_HostID req)"
    using hub_okD(2) [OF ok c(1)] by (simp add: conn_ok_def)
  with st(2) c show ?thesis unfolding hostIDFromStream_Inr by blast
qed

lemma Issue_unregistered:
  assumes "registry_Get (s_registry s) (iq_HostID req) = None"
  shows "snd (fst (Issue marshal req s)) \<noteq> None \<and> s_sent (snd (Issue marshal req s)) = s_sent s"
proof -
  obtain k e s' where i: "Issue marshal req s = ((k, e), s')" by (metis surj_pair)
  then have "e \<noteq> None \<and> s_sent s' = s_sent s"
    using assms by (cases rule: Issue_cases)
      (auto dest!: push_command_result simp: adapter_Get_def registry_GetSender_def registry_Get_def)
  with i show ?thesis by simp
qed

lemma serve_conns:
  "st \<noteq> st' \<Longrightarrow> hub_conns (Connect_return st c r H) st' = hub_conns H st'"
  "st \<noteq> st' \<Longrightarrow> hub_conns (serve_error st c e H) st' = hub_conns H st'"
  "st \<noteq> st' \<Longrightarrow> hub_conns (serve_message st c m rest H) st' = hub_conns H st'"
  "st \<noteq> st' \<Longrightarrow> hub_conns (serve_tick st c t H) st' = hub_conns H st'"
  by (auto simp: Connect_return_def serve_error_def serve_message_def serve_tick_def on_server_def set_conn_def
      split: prod.splits option.splits)

lemma Connect_start_conns: "st \<noteq> st' \<Longrightarrow> hub_conns (Connect_start st p H) st' = hub_conns H st'"
  by (simp add: Connect_start_def on_server_def set_conn_def split: sum.splits)

text \<open>An agent whose connection runs but is registered for nobody. As only \<open>Connect\<close> registers, whatever else
  happens leaves it so, and what is sent goes to registered streams, but for the pings of its own loop.\<close>

definition cut_off :: "string \<Rightarrow> stream_id \<Rightarrow> hub \<Rightarrow> bool" where
  "cut_off h st H \<longleftrightarrow> hub_ok H \<and> registry_Get (s_registry (hub_server H)) h = None
     \<and> (\<exists>c. hub_conns H st = Some c \<and> cn_host c = h)"

lemma cut_off_unregistered: "cut_off h st H \<Longrightarrow> registry_Get (s_registry (hub_server H)) k \<noteq> Some st"
  using hub_okD(3) by (fastforce simp: cut_off_def)

text \<open>What was sent, without the pings, to a stream.\<close>

fun is_ping :: "server_message \<Rightarrow> bool" where
  "is_ping (Ping t) = True"
| "is_ping _ = False"

definition sent_to :: "stream_id \<Rightarrow> server \<Rightarrow> server_message list" where
  "sent_to st s = map snd (filter (\<lambda>(st', m). st' = st \<and> \<not> is_ping m) (s_sent s))"

lemma config_only_sent_to:
  "config_only k s s' \<Longrightarrow> registry_Get (s_registry s) k \<noteq> Some st \<Longrightarrow> sent_to st s' = sent_to st s"
  by (auto simp: config_only_def sent_to_def)

lemma Issue_sent_to:
  assumes "registry_Get (s_registry s) (iq_HostID req) \<noteq> Some st"
  shows "sent_to st (snd (Issue marshal req s)) = sent_to st s"
proof -
  obtain k e s' where i: "Issue marshal req s = ((k, e), s')" by (metis surj_pair)
  then have "sent_to st s' = sent_to st s"
    using assms by (cases rule: Issue_cases)
      (auto dest!: push_command_result simp: sent_to_def adapter_Get_def registry_GetSender_def registry_Get_def)
  with i show ?thesis by simp
qed

lemma run_job_sent_to:
  assumes "\<And>k. registry_Get (s_registry s) k \<noteq> Some st"
  shows "sent_to st (run_job E j s) = sent_to st s"
  using config_only_sent_to [OF pushes_sent(2) assms] by (simp add: run_job_def sent_to_def split: job.splits)

lemma serve_tick_sent_to: "sent_to st (hub_server (serve_tick st' c t H)) = sent_to st (hub_server H)"
  by (auto simp: serve_tick_def stream_Send_def sent_to_def Connect_return_def on_server_def set_conn_def split: option.splits)

lemma hub_step_sent_to:
  "hub_step E l H H' \<Longrightarrow> (\<And>k. registry_Get (s_registry (hub_server H)) k \<noteq> Some st) \<Longrightarrow>
   sent_to st (hub_server H') = sent_to st (hub_server H)"
proof (induction rule: hub_step.induct)
  case (connect H st' p)
  then show ?case by (simp add: Connect_start_def set_conn_def on_server_def sent_to_def split: sum.splits)
next
  case (message H st' c m rest)
  then show ?case by (auto simp: serve_message_def on_server_def set_conn_def sent_to_def split: prod.splits)
next
  case (job H xs j ys)
  then show ?case using run_job_sent_to [of "hub_server H" st E j] by (simp add: on_server_def)
next
  case (issue req H)
  then show ?case using Issue_sent_to [of "hub_server H" req st] by (simp add: on_server_def)
next
  case (push h H)
  then show ?case using config_only_sent_to [OF pushes_sent(1), of "hub_server H" h st] by (simp add: on_server_def)
next
  case (ticker H st' c t)
  show ?case by (rule serve_tick_sent_to)
qed (simp_all add: set_conn_def on_server_def Connect_return_def serve_error_def sent_to_def)

text \<open>The connections of a host and the registry, through a step that is not its \<open>Connect\<close>.\<close>

lemma hub_step_host:
  "hub_step E l H H' \<Longrightarrow> hub_conns H st = Some c \<Longrightarrow> \<exists>c'. hub_conns H' st = Some c' \<and> cn_host c' = cn_host c"
proof (induction rule: hub_step.induct)
  case (connect H st' p)
  then show ?case by (cases "st' = st") (simp_all add: Connect_start_conns)
next
  case (context_done H st' c')
  then show ?case by (cases "st' = st") (auto simp: serve_conns Connect_return_def on_server_def set_conn_def)
next
  case (error H st' c')
  then show ?case by (cases "st' = st") (auto simp: serve_conns serve_error_def Connect_return_def on_server_def set_conn_def)
next
  case (message H st' c')
  then show ?case by (cases "st' = st") (auto simp: serve_conns serve_message_def on_server_def set_conn_def split: prod.splits)
next
  case (ticker H st' c')
  then show ?case by (cases "st' = st")
    (auto simp: serve_conns serve_tick_def Connect_return_def on_server_def set_conn_def split: prod.splits option.splits)
qed (auto simp: on_server_def set_conn_def)

lemma hub_step_unregistered:
  "hub_step E l H H' \<Longrightarrow> (\<And>st p. l = LConnect st p \<Longrightarrow> hostIDFromStream p \<noteq> Inr h) \<Longrightarrow>
   registry_ok (s_registry (hub_server H)) \<Longrightarrow>
   registry_Get (s_registry (hub_server H)) h = None \<Longrightarrow> registry_Get (s_registry (hub_server H')) h = None"
proof (induction rule: hub_step.induct)
  case (connect H st' p)
  then show ?case by (auto simp: Connect_start_def set_conn_def on_server_def reg.lookup_add split: sum.splits)
next
  case (message H st' c m rest)
  then show ?case by (auto simp: serve_message_def on_server_def set_conn_def split: prod.splits)
next
  case (ticker H st' c t)
  obtain e s where snd: "stream_Send st' (Ping t) (hub_server H) = (e, s)"
    by (cases "stream_Send st' (Ping t) (hub_server H)")
  then have "s_registry s = s_registry (hub_server H)"
    using stream_Send_registry [of st' "Ping t" "hub_server H"] by simp
  with ticker snd show ?case
    by (cases e) (simp_all add: serve_tick_def Connect_return_def on_server_def set_conn_def reg.lookup_remove)
qed (simp_all add: set_conn_def on_server_def Connect_return_def serve_error_def reg.lookup_remove)

lemma cut_off_step:
  assumes "hub_step E l H H'" "\<And>st p. l = LConnect st p \<Longrightarrow> hostIDFromStream p \<noteq> Inr h" "cut_off h st H"
  shows "cut_off h st H' \<and> sent_to st (hub_server H') = sent_to st (hub_server H)"
proof -
  have ok: "hub_ok H" and none: "registry_Get (s_registry (hub_server H)) h = None" using assms(3) by (simp_all add: cut_off_def)
  have "registry_Get (s_registry (hub_server H')) h = None"
    using assms(1,2) hub_okD(1) [OF ok] none by (rule hub_step_unregistered)
  moreover have "hub_ok H'" using assms(1) ok by (rule hub_step_ok)
  moreover have "\<exists>c. hub_conns H' st = Some c \<and> cn_host c = h"
    using assms(3) hub_step_host [OF assms(1), of st] by (auto simp: cut_off_def)
  ultimately show ?thesis
    using hub_step_sent_to [OF assms(1)] cut_off_unregistered [OF assms(3)] by (simp add: cut_off_def)
qed

lemma cut_off_run:
  "hub_run E H ls H' \<Longrightarrow> (\<forall>st p. LConnect st p \<in> set ls \<longrightarrow> hostIDFromStream p \<noteq> Inr h) \<Longrightarrow> cut_off h st H \<Longrightarrow>
   cut_off h st H' \<and> sent_to st (hub_server H') = sent_to st (hub_server H)"
proof (induction rule: hub_run.induct)
  case (more l H H1 ls H2)
  have "cut_off h st H1 \<and> sent_to st (hub_server H1) = sent_to st (hub_server H)"
    by (rule cut_off_step [OF more.hyps(1) _ more.prems(2)]) (use more.prems(1) in auto)
  with more show ?case by auto
qed simp

text \<open>C36: When an agent connects again before its old connection has ended, the end of the old one takes
  the new one out of the registry. The new connection goes on, but from then on, whatever happens,
  heartbeats and the pending synchronisation of its configuration included, no command and no
  configuration is sent to it (pings are), and a command for the host is refused, until the host
  connects once again.\<close>

theorem reconnect_unregisters:
  assumes "hub_run E (new_hub w errs) ls0 H" "hub_conns H st1 = Some c1" "cn_running c1" "hub_conns H st2 = None"
    "hostIDFromStream p = Inr (cn_host c1)"
  shows "\<exists>H' c2. hub_run E H [LConnect st2 p, LServe st1] H'
    \<and> hub_conns H' st2 = Some c2 \<and> cn_running c2 \<and> cn_host c2 = cn_host c1 \<and> SyncJob (cn_host c1) \<in> set (hub_jobs H')
    \<and> (\<forall>ls H2. hub_run E H' ls H2 \<longrightarrow> (\<forall>st q. LConnect st q \<in> set ls \<longrightarrow> hostIDFromStream q \<noteq> Inr (cn_host c1)) \<longrightarrow>
         registry_Get (s_registry (hub_server H2)) (cn_host c1) = None
       \<and> sent_to st2 (hub_server H2) = sent_to st2 (hub_server H')
       \<and> (\<forall>req. iq_HostID req = cn_host c1 \<longrightarrow> snd (fst (Issue (e_marshal E) req (hub_server H2))) \<noteq> None)
       \<and> Push (cn_host c1) (hub_server H2) = (None, hub_server H2))"
proof -
  let ?h = "cn_host c1"
  let ?H1 = "Connect_start st2 p H" and ?H2 = "Connect_return st1 c1 None (Connect_start st2 p H)"
  have ne: "st1 \<noteq> st2" using assms(2,4) by auto
  have c1: "hub_conns ?H1 st1 = Some c1"
    using assms(2,5) ne by (simp add: Connect_start_def set_conn_def on_server_def)
  have s1: "hub_step E (LConnect st2 p) H ?H1" using assms(4) by (rule hub_step.connect)
  have s2: "hub_step E (LServe st1) ?H1 ?H2" using c1 assms(3) by (rule hub_step.context_done)
  have run: "hub_run E H [LConnect st2 p, LServe st1] ?H2" using s1 s2 by (auto simp: hub_run_Cons)
  obtain c2 where c2: "hub_conns ?H2 st2 = Some c2" "cn_running c2" "cn_host c2 = ?h" "SyncJob ?h \<in> set (hub_jobs ?H2)"
    using assms(5) ne by (simp add: Connect_start_def Connect_return_def set_conn_def on_server_def)
  have "hub_ok H" using assms(1) new_hub_ok by (rule hub_run_ok)
  then have "hub_ok ?H2" using run by (blast intro: hub_run_ok)
  moreover have "registry_Get (s_registry (hub_server ?H2)) ?h = None"
    by (simp add: Connect_return_def on_server_def reg.lookup_remove)
  ultimately have cut: "cut_off ?h st2 ?H2" using c2 unfolding cut_off_def by blast
  have "registry_Get (s_registry (hub_server H3)) ?h = None \<and> sent_to st2 (hub_server H3) = sent_to st2 (hub_server ?H2)
     \<and> (\<forall>req. iq_HostID req = ?h \<longrightarrow> snd (fst (Issue (e_marshal E) req (hub_server H3))) \<noteq> None)
     \<and> Push ?h (hub_server H3) = (None, hub_server H3)"
    if r: "hub_run E ?H2 ls H3" and others: "\<forall>st q. LConnect st q \<in> set ls \<longrightarrow> hostIDFromStream q \<noteq> Inr ?h" for ls H3
  proof -
    have c: "cut_off ?h st2 H3 \<and> sent_to st2 (hub_server H3) = sent_to st2 (hub_server ?H2)"
      by (rule cut_off_run [OF r others cut])
    then have "registry_Get (s_registry (hub_server H3)) ?h = None" by (simp add: cut_off_def)
    with c Issue_unregistered [of "hub_server H3"] show ?thesis by (simp add: Push_def)
  qed
  with run c2 show ?thesis by blast
qed

subsection \<open>Only Issue sends commands\<close>

fun is_command :: "stream_id \<times> server_message \<Rightarrow> bool" where
  "is_command (_, CommandRequest _) = True"
| "is_command (_, _) = False"

abbreviation commands_sent :: "server \<Rightarrow> (stream_id \<times> server_message) list" where
  "commands_sent s \<equiv> filter is_command (s_sent s)"

lemma config_only_commands: "config_only h s s' \<Longrightarrow> commands_sent s' = commands_sent s"
  by (auto simp: config_only_def)

lemma run_job_commands: "commands_sent (run_job E j s) = commands_sent s"
  using config_only_commands [OF pushes_sent(2)] by (simp add: run_job_def split: job.splits)

lemma hub_step_commands:
  "hub_step E l H H' \<Longrightarrow> (\<And>req. l \<noteq> LIssue req) \<Longrightarrow>
   commands_sent (hub_server H') = commands_sent (hub_server H)"
proof (induction rule: hub_step.induct)
  case (connect H st p)
  then show ?case by (simp add: Connect_start_def set_conn_def on_server_def split: sum.splits)
next
  case (message H st c m rest)
  then show ?case by (auto simp: serve_message_def on_server_def set_conn_def split: prod.splits)
next
  case (ticker H st c t)
  then show ?case
    by (auto simp: serve_tick_def stream_Send_def Connect_return_def on_server_def set_conn_def split: option.splits)
next
  case (push h H)
  then show ?case using config_only_commands [OF pushes_sent(1)] by (simp add: on_server_def)
next
  case (issue req H)
  then show ?case by blast
qed (simp_all add: set_conn_def on_server_def Connect_return_def serve_error_def run_job_commands)

subsection \<open>What the agent's messages do to the tables\<close>

text \<open>The host of a stored security event is the one the message names, not the one whose certificate
  the stream carries: an agent can record events for any enrolled host.\<close>

theorem event_host_from_payload:
  assumes "hub_conns H st = Some c" "cn_running c" "cn_channel c = SecurityEvent ev # rest"
    "host_exists (se_HostId ev) (w_db (s_world (hub_server H)))"
    "w_fault (s_world (hub_server H)) (Suc (w_tick (s_world (hub_server H)))) = NoFault"
  shows "\<exists>H' r. hub_run E H [LServe st, LJob (EventJob (cn_host c) ev)] H'
    \<and> db_events (w_db (s_world (hub_server H'))) = db_events (w_db (s_world (hub_server H))) @ [r]
    \<and> er_host_id r = se_HostId ev \<and> er_raw r = se_Raw ev"
proof -
  let ?j = "EventJob (cn_host c) ev" and ?w = "s_world (hub_server H)"
  define H1 where "H1 = serve_message st c (SecurityEvent ev) rest H"
  define H2 where "H2 = (on_server (run_job E ?j) H1)\<lparr>hub_jobs := hub_jobs H @ []\<rparr>"
  have s1: "hub_step E (LServe st) H H1" unfolding H1_def using assms(1-3) by (rule hub_step.message)
  have h1: "hub_jobs H1 = hub_jobs H @ ?j # []" "s_world (hub_server H1) = ?w"
    by (simp_all add: H1_def serve_message_def handleMessage_def on_server_def set_conn_def)
  have "hub_step E (LJob ?j) H1 H2" unfolding H2_def using h1(1) by (rule hub_step.job)
  with s1 have run: "hub_run E H [LServe st, LJob ?j] H2" by (auto simp: hub_run_Cons)
  have "w_db (s_world (hub_server H2)) = w_db (snd (event_Insert (e_type_name E) ev ?w))"
    by (simp add: H2_def on_server_def run_job_def h1(2))
  moreover have "db_events (w_db (snd (event_Insert (e_type_name E) ev ?w))) = db_events (w_db ?w) @
      [\<lparr>er_id = db_event_seq (w_db ?w), er_host_id = se_HostId ev,
        er_occurred_at = (case se_Timestamp ev of Some ts \<Rightarrow> ts | None \<Rightarrow> w_clock ?w (w_tick ?w)),
        er_received_at = w_clock ?w (Suc (w_tick ?w)), er_type = e_type_name E (se_Type ev),
        er_source = se_Source ev, er_data = marshal_labels (se_Data ev), er_raw = se_Raw ev\<rparr>]"
    using assms(4,5)
    by (simp add: event_Insert_def Let_def go_now_def exec_stmt_NoFault insert_event_sql_def split: option.splits)
  ultimately show ?thesis using run by fastforce
qed

subsection \<open>The receiving goroutine\<close>

text \<open>Once Connect has returned nobody reads the channel: a receiver that holds a message for a full
  channel cannot move.\<close>

definition stuck :: "conn \<Rightarrow> bool" where
  "stuck c \<longleftrightarrow> \<not> cn_running c \<and> (\<exists>m. cn_receiver c = InHand m) \<and> length (cn_channel c) = channel_capacity"

lemma stuck_step:
  "hub_step E l H H' \<Longrightarrow> hub_conns H st = Some c \<Longrightarrow> stuck c \<Longrightarrow> hub_conns H' st = Some c"
proof (induction rule: hub_step.induct)
  case (connect H st')
  then show ?case by (cases "st' = st") (simp_all add: Connect_start_conns)
next
  case (receive H st' c')
  then show ?case by (cases "st' = st") (auto simp: set_conn_def stuck_def)
next
  case (deliver H st' c')
  then show ?case by (cases "st' = st") (auto simp: set_conn_def stuck_def)
next
  case (receive_error H st' c')
  then show ?case by (cases "st' = st") (auto simp: set_conn_def stuck_def)
next
  case (context_done H st' c')
  then show ?case by (cases "st' = st") (auto simp: serve_conns stuck_def)
next
  case (error H st' c')
  then show ?case by (cases "st' = st") (auto simp: serve_conns stuck_def)
next
  case (message H st' c')
  then show ?case by (cases "st' = st") (auto simp: serve_conns stuck_def)
next
  case (ticker H st' c')
  then show ?case by (cases "st' = st") (auto simp: serve_conns stuck_def)
qed (simp_all add: on_server_def)

lemma stuck_run:
  "hub_run E H ls H' \<Longrightarrow> hub_conns H st = Some c \<Longrightarrow> stuck c \<Longrightarrow> hub_conns H' st = Some c"
  by (induction rule: hub_run.induct) (auto dest: stuck_step)

text \<open>When Connect returns, on a cancelled context for instance, while its receiver holds a message for
  the full channel, the receiver is blocked for good: no later step of the server ever moves it.\<close>

theorem receiver_leaks:
  assumes "hub_conns H st = Some c" "cn_running c" "cn_receiver c = InHand m" "length (cn_channel c) = 16"
  shows "\<exists>H1 d. hub_step E (LServe st) H H1 \<and> \<not> cn_running d \<and> cn_receiver d = InHand m
    \<and> (\<forall>ls H2. hub_run E H1 ls H2 \<longrightarrow> hub_conns H2 st = Some d)"
proof -
  let ?H1 = "Connect_return st c None H" and ?d = "c\<lparr>cn_running := False, cn_result := None\<rparr>"
  have "hub_step E (LServe st) H ?H1" using assms(1,2) by (rule hub_step.context_done)
  moreover have d: "hub_conns ?H1 st = Some ?d" "stuck ?d"
    using assms(3,4) by (simp_all add: Connect_return_def on_server_def set_conn_def stuck_def channel_capacity_def)
  ultimately show ?thesis using stuck_run [OF _ d] assms(3) by (intro exI [where x="?H1"] exI [where x="?d"]) auto
qed

subsection \<open>Concrete runs\<close>

definition demo_env :: env where
  "demo_env = \<lparr>e_type_name = (\<lambda>_. ''LOGIN''), e_marshal = (\<lambda>_. Inr (JObj [])), e_fmt_g = (\<lambda>_. ''1''),
     e_is_print = (\<lambda>_. True), e_label_order = (\<lambda>ls. ls), e_source_order = (\<lambda>ss. ss), e_url_ok = (\<lambda>_. True),
     e_reply = (\<lambda>_. Reply 204 []), e_vm_url = ''http://vm'', e_loki_url = ''http://loki''\<rparr>"

definition demo_peer :: peer where "demo_peer = TLSInfo [[demo_leaf]]"

definition demo_conn :: conn where
  "demo_conn = \<lparr>cn_host = ''H1'', cn_peer = demo_peer, cn_channel = [], cn_receiver = Receiving, cn_running = True,
     cn_result = None\<rparr>"

definition demo_world :: world where
  "demo_world = calm_world (empty_db\<lparr>db_hosts := [plain_host ''H1'', plain_host ''H2'']\<rparr>)"

definition demo_start :: hub where "demo_start = new_hub demo_world (\<lambda>_. None)"

definition demo_hub :: hub where "demo_hub = Connect_start 7 demo_peer demo_start"

lemma demo_identity: "hostIDFromStream demo_peer = Inr ''H1''"
  by (simp add: hostIDFromStream_def demo_peer_def demo_leaf_def client_template_def)

lemma demo_hub_facts:
  "hub_run demo_env demo_start [LConnect 7 demo_peer] demo_hub"
  "hub_conns demo_hub = [7 \<mapsto> demo_conn]" "s_world (hub_server demo_hub) = demo_world"
  "s_registry (hub_server demo_hub) = [(''H1'', 7)]" "s_sent (hub_server demo_hub) = []"
proof -
  have "hub_step demo_env (LConnect 7 demo_peer) demo_start demo_hub"
    unfolding demo_hub_def by (rule hub_step.connect) (simp add: demo_start_def new_hub_def)
  then show "hub_run demo_env demo_start [LConnect 7 demo_peer] demo_hub" by (auto simp: hub_run_Cons)
qed (simp_all add: demo_hub_def Connect_start_def demo_identity demo_start_def new_hub_def on_server_def set_conn_def
    demo_conn_def NewRegistry_def registry_Add_def)

theorem registered_streams_witness:
  "registry_Get (s_registry (hub_server demo_hub)) ''H1'' = Some 7
   \<and> (\<exists>c leaf. hub_conns demo_hub 7 = Some c \<and> cn_running c \<and> verified_leaf (cn_peer c) = Some leaf
         \<and> ct_CommonName (crt_Fields leaf) = ''H1'')"
proof -
  have r: "registry_Get (s_registry (hub_server demo_hub)) ''H1'' = Some 7"
    by (simp add: demo_hub_facts registry_Get_def)
  have "hub_run demo_env (new_hub demo_world (\<lambda>_. None)) [LConnect 7 demo_peer] demo_hub"
    using demo_hub_facts(1) by (simp add: demo_start_def)
  from registered_streams [OF this] r show ?thesis by blast
qed

theorem Issue_reaches_host_witness:
  "\<exists>k s' p. Issue (\<lambda>_. Inr (JObj [])) demo_issue_request (hub_server demo_hub) = ((k, None), s')
     \<and> s_sent s' = [(7, CommandRequest (build_request k demo_issue_request p))]"
proof -
  have "s_limiter (hub_server demo_hub) = NewRateLimiter" "s_send_error (hub_server demo_hub) = (\<lambda>_. None)"
    by (simp_all add: demo_hub_def Connect_start_def demo_identity demo_start_def new_hub_def on_server_def set_conn_def)
  then have "\<exists>k s'. Issue (\<lambda>_. Inr (JObj [])) demo_issue_request (hub_server demo_hub) = ((k, None), s')"
    by (simp add: Issue_def demo_hub_facts demo_world_def demo_issue_request_def on_store_def calm_simps Allow_def
        NewRateLimiter_def command_Insert_def insert_command_sql_def pending_row_def in_i32_def empty_db_def
        host_exists_def plain_host_def wrap_err_def push_command_def adapter_Get_def registry_GetSender_def
        stream_Send_def)
  then obtain k s' where i: "Issue (\<lambda>_. Inr (JObj [])) demo_issue_request (hub_server demo_hub) = ((k, None), s')"
    by blast
  have "hub_run demo_env (new_hub demo_world (\<lambda>_. None)) [LConnect 7 demo_peer] demo_hub"
    using demo_hub_facts(1) by (simp add: demo_start_def)
  from Issue_reaches_host [OF this i] obtain st c p where
    "s_sent s' = s_sent (hub_server demo_hub) @ [(st, CommandRequest (build_request k demo_issue_request p))]"
    "hub_conns demo_hub st = Some c" by blast
  then have "s_sent s' = [(7, CommandRequest (build_request k demo_issue_request p))]"
    by (simp add: demo_hub_facts split: if_splits)
  with i show ?thesis by blast
qed

theorem reconnect_unregisters_witness:
  "\<exists>H' H2 c2. hub_run demo_env demo_hub [LConnect 8 demo_peer, LServe 7] H'
    \<and> hub_conns H' 8 = Some c2 \<and> cn_running c2 \<and> hub_run demo_env H' [LJob (SyncJob ''H1'')] H2
    \<and> registry_Get (s_registry (hub_server H2)) ''H1'' = None \<and> sent_to 8 (hub_server H2) = sent_to 8 (hub_server H')"
proof -
  have r0: "hub_run demo_env (new_hub demo_world (\<lambda>_. None)) [LConnect 7 demo_peer] demo_hub"
    using demo_hub_facts(1) by (simp add: demo_start_def)
  have c: "hub_conns demo_hub 7 = Some demo_conn" "cn_running demo_conn" "hub_conns demo_hub 8 = None"
    "hostIDFromStream demo_peer = Inr (cn_host demo_conn)" "cn_host demo_conn = ''H1''"
    by (simp_all add: demo_hub_facts demo_conn_def demo_identity)
  have "\<exists>H' c2. hub_run demo_env demo_hub [LConnect 8 demo_peer, LServe 7] H'
    \<and> hub_conns H' 8 = Some c2 \<and> cn_running c2 \<and> cn_host c2 = cn_host demo_conn \<and> SyncJob (cn_host demo_conn) \<in> set (hub_jobs H')
    \<and> (\<forall>ls H2. hub_run demo_env H' ls H2 \<longrightarrow> (\<forall>st q. LConnect st q \<in> set ls \<longrightarrow> hostIDFromStream q \<noteq> Inr (cn_host demo_conn)) \<longrightarrow>
         registry_Get (s_registry (hub_server H2)) (cn_host demo_conn) = None
       \<and> sent_to 8 (hub_server H2) = sent_to 8 (hub_server H')
       \<and> (\<forall>req. iq_HostID req = cn_host demo_conn \<longrightarrow> snd (fst (Issue (e_marshal demo_env) req (hub_server H2))) \<noteq> None)
       \<and> Push (cn_host demo_conn) (hub_server H2) = (None, hub_server H2))"
    by (rule reconnect_unregisters [OF r0 c(1-4)])
  then obtain H' c2 where H': "hub_run demo_env demo_hub [LConnect 8 demo_peer, LServe 7] H'" "hub_conns H' 8 = Some c2"
    "cn_running c2" "SyncJob ''H1'' \<in> set (hub_jobs H')"
    and all: "\<And>ls H2. hub_run demo_env H' ls H2 \<Longrightarrow> (\<forall>st q. LConnect st q \<in> set ls \<longrightarrow> hostIDFromStream q \<noteq> Inr ''H1'') \<Longrightarrow>
         registry_Get (s_registry (hub_server H2)) ''H1'' = None \<and> sent_to 8 (hub_server H2) = sent_to 8 (hub_server H')"
    unfolding c(5) by blast
  from H'(4) obtain xs ys where "hub_jobs H' = xs @ SyncJob ''H1'' # ys" by (auto dest: split_list)
  then have "hub_step demo_env (LJob (SyncJob ''H1'')) H'
      ((on_server (run_job demo_env (SyncJob ''H1'')) H')\<lparr>hub_jobs := xs @ ys\<rparr>)" by (rule hub_step.job)
  then have r: "hub_run demo_env H' [LJob (SyncJob ''H1'')]
      ((on_server (run_job demo_env (SyncJob ''H1'')) H')\<lparr>hub_jobs := xs @ ys\<rparr>)" by (auto simp: hub_run_Cons)
  have "\<forall>st q. LConnect st q \<in> set [LJob (SyncJob ''H1'')] \<longrightarrow> hostIDFromStream q \<noteq> Inr ''H1''" by simp
  from all [OF r this] H' r show ?thesis by blast
qed

definition forged_event :: security_event where
  "forged_event = \<lparr>se_HostId = ''H2'', se_Timestamp = None, se_Type = 1, se_Source = ''sshd'', se_Data = None,
     se_Raw = ''root login''\<rparr>"

theorem event_host_from_payload_witness:
  "\<exists>H' r. hub_run demo_env (set_conn 7 (demo_conn\<lparr>cn_channel := [SecurityEvent forged_event]\<rparr>) demo_hub)
      [LServe 7, LJob (EventJob ''H1'' forged_event)] H'
    \<and> db_events (w_db (s_world (hub_server H'))) = [r] \<and> er_host_id r = ''H2''"
proof -
  let ?c = "demo_conn\<lparr>cn_channel := [SecurityEvent forged_event]\<rparr>"
  let ?H = "set_conn 7 ?c demo_hub"
  have w: "s_world (hub_server ?H) = demo_world" by (simp add: set_conn_def demo_hub_facts)
  have "hub_conns ?H 7 = Some ?c" "cn_running ?c" "cn_channel ?c = SecurityEvent forged_event # []"
    by (simp_all add: set_conn_def demo_conn_def)
  moreover have "host_exists (se_HostId forged_event) (w_db (s_world (hub_server ?H)))"
    "w_fault (s_world (hub_server ?H)) (Suc (w_tick (s_world (hub_server ?H)))) = NoFault"
    unfolding w by (simp_all add: demo_world_def calm_simps host_exists_def forged_event_def plain_host_def)
  ultimately have "\<exists>H' r. hub_run demo_env ?H [LServe 7, LJob (EventJob (cn_host ?c) forged_event)] H'
      \<and> db_events (w_db (s_world (hub_server H'))) = db_events (w_db (s_world (hub_server ?H))) @ [r]
      \<and> er_host_id r = se_HostId forged_event \<and> er_raw r = se_Raw forged_event"
    by (rule event_host_from_payload)
  then show ?thesis
    by (simp add: w) (simp add: demo_conn_def demo_world_def calm_simps empty_db_def forged_event_def, blast)
qed

text \<open>A receiver can be stuck: sixteen messages arrive and are left in the channel, and one more.\<close>

lemma hub_run_snoc: "hub_run E H ls H1 \<Longrightarrow> hub_step E l H1 H2 \<Longrightarrow> hub_run E H (ls @ [l]) H2"
  by (induction rule: hub_run.induct) (auto simp: hub_run_Cons)

lemma channel_fills:
  "n \<le> channel_capacity \<Longrightarrow> \<exists>ls H c. hub_run E demo_hub ls H \<and> hub_conns H 7 = Some c \<and> cn_running c
     \<and> cn_receiver c = Receiving \<and> length (cn_channel c) = n"
proof (induction n)
  case 0
  show ?case by (intro exI [where x="[]"] exI [where x=demo_hub] exI [where x=demo_conn])
    (simp add: demo_hub_facts demo_conn_def)
next
  case (Suc n)
  then obtain ls H c where H: "hub_run E demo_hub ls H" "hub_conns H 7 = Some c" "cn_running c"
    "cn_receiver c = Receiving" "length (cn_channel c) = n" by auto
  let ?c1 = "c\<lparr>cn_receiver := InHand UnknownMessage\<rparr>"
  let ?c2 = "?c1\<lparr>cn_channel := cn_channel ?c1 @ [UnknownMessage], cn_receiver := Receiving\<rparr>"
  let ?H1 = "set_conn 7 ?c1 H" and ?H2 = "set_conn 7 ?c2 (set_conn 7 ?c1 H)"
  have "hub_step E (LReceive 7) H ?H1" using H(2,4) by (rule hub_step.receive)
  moreover have "hub_step E (LReceive 7) ?H1 ?H2"
    by (rule hub_step.deliver) (use H(5) Suc.prems in \<open>simp_all add: set_conn_def\<close>)
  ultimately have "hub_run E demo_hub ((ls @ [LReceive 7]) @ [LReceive 7]) ?H2"
    using H(1) by (intro hub_run_snoc)
  moreover have "hub_conns ?H2 7 = Some ?c2" "cn_running ?c2" "cn_receiver ?c2 = Receiving"
    "length (cn_channel ?c2) = Suc n" using H by (simp_all add: set_conn_def)
  ultimately show ?case by blast
qed

theorem receiver_leaks_witness:
  "\<exists>ls H1 d. hub_run demo_env demo_hub ls H1 \<and> \<not> cn_running d
     \<and> (\<forall>ls2 H2. hub_run demo_env H1 ls2 H2 \<longrightarrow> hub_conns H2 7 = Some d)"
proof -
  obtain ls H c where H: "hub_run demo_env demo_hub ls H" "hub_conns H 7 = Some c" "cn_running c"
    "cn_receiver c = Receiving" "length (cn_channel c) = 16"
    using channel_fills [of 16 demo_env] by (auto simp: channel_capacity_def)
  let ?c = "c\<lparr>cn_receiver := InHand UnknownMessage\<rparr>"
  let ?H = "set_conn 7 ?c H"
  have "hub_step demo_env (LReceive 7) H ?H" using H(2,4) by (rule hub_step.receive)
  with H(1) have run: "hub_run demo_env demo_hub (ls @ [LReceive 7]) ?H" by (rule hub_run_snoc)
  have "hub_conns ?H 7 = Some ?c" "cn_running ?c" "cn_receiver ?c = InHand UnknownMessage" "length (cn_channel ?c) = 16"
    using H by (simp_all add: set_conn_def)
  from receiver_leaks [OF this, of demo_env] obtain H1 d where "hub_step demo_env (LServe 7) ?H H1" "\<not> cn_running d"
    "\<forall>ls2 H2. hub_run demo_env H1 ls2 H2 \<longrightarrow> hub_conns H2 7 = Some d" by blast
  with run show ?thesis using hub_run_snoc by blast
qed

end
