(* ===== verification/ServerMain.thy ===== *)
theory ServerMain
  imports Cli Stream
begin

text \<open>
  The gRPC side of \<open>cmd/praetor-server/main.go\<close>: the two interceptors that ask for a client
  certificate, and \<open>internal/agent/service.go\<close>, which hands Enroll to the enrollment service and
  Connect to the stream handler. The full name of a method is generated code: \<open>enroll_method\<close>.
\<close>

definition mtlsEnforcer :: "string \<Rightarrow> string \<Rightarrow> peer \<Rightarrow> grpc_error option" where
  "mtlsEnforcer enroll_method fullMethod p =
     (if fullMethod = enroll_method then None
      else (case p of
              NoPeer \<Rightarrow> Some (Status Unauthenticated ''no peer info'')
            | OtherAuth \<Rightarrow> Some (Status Unauthenticated (''client certificate required for '' @ fullMethod))
            | TLSInfo vcs \<Rightarrow>
                if vcs = [] then Some (Status Unauthenticated (''client certificate required for '' @ fullMethod)) else None))"

definition mtlsStreamEnforcer :: "string \<Rightarrow> peer \<Rightarrow> grpc_error option" where
  "mtlsStreamEnforcer fullMethod p =
     (case p of
        NoPeer \<Rightarrow> Some (Status Unauthenticated ''no peer info'')
      | OtherAuth \<Rightarrow> Some (Status Unauthenticated (''client certificate required for streaming RPC '' @ fullMethod))
      | TLSInfo vcs \<Rightarrow>
          if vcs = [] then Some (Status Unauthenticated (''client certificate required for streaming RPC '' @ fullMethod))
          else None)"

subsection \<open>internal/agent/service.go, behind the interceptors\<close>

definition agent_Enroll ::
  "crypto \<Rightarrow> ca \<Rightarrow> string \<Rightarrow> peer \<Rightarrow> enroll_request \<Rightarrow> world \<Rightarrow> (grpc_error + enroll_response) \<times> world" where
  "agent_Enroll c a enroll_method p req w =
     (case mtlsEnforcer enroll_method enroll_method p of
        Some e \<Rightarrow> (Inl e, w)
      | None \<Rightarrow> Enroll c a p req w)"

definition agent_Connect :: "string \<Rightarrow> stream_id \<Rightarrow> peer \<Rightarrow> hub \<Rightarrow> grpc_error option \<times> hub" where
  "agent_Connect fullMethod st p H =
     (case mtlsStreamEnforcer fullMethod p of
        Some e \<Rightarrow> (Some e, H)
      | None \<Rightarrow>
          let H' = Connect_start st p H
          in (case hub_conns H' st of None \<Rightarrow> None | Some c \<Rightarrow> cn_result c, H'))"

text \<open>C30: A stream gets through the interceptor and into the loop of Connect exactly when its peer has a
  verified leaf certificate with a common name; any other is answered Unauthenticated, registers
  nothing and starts no job. A unary call needs no certificate only if it is Enroll.\<close>

theorem agent_Connect_guard:
  assumes "agent_Connect m st p H = (r, H')"
  shows "(case verified_leaf p of
      Some leaf \<Rightarrow>
        if ct_CommonName (crt_Fields leaf) \<noteq> []
        then r = None \<and> registry_Get (s_registry (hub_server H')) (ct_CommonName (crt_Fields leaf)) = Some st
        else (\<exists>t. r = Some (Status Unauthenticated t)) \<and> hub_server H' = hub_server H \<and> hub_jobs H' = hub_jobs H
    | None \<Rightarrow> (\<exists>t. r = Some (Status Unauthenticated t)) \<and> hub_server H' = hub_server H \<and> hub_jobs H' = hub_jobs H)
    \<and> (mtlsEnforcer em fm p = None \<longleftrightarrow> fm = em \<or> (\<exists>ch chs. p = TLSInfo (ch # chs)))"
proof -
  show ?thesis
  proof (cases p)
    case (TLSInfo vcs)
    show ?thesis
    proof (cases vcs)
      case (Cons ch chs)
      then have pass: "mtlsStreamEnforcer m p = None" using TLSInfo by (simp add: mtlsStreamEnforcer_def)
      show ?thesis
      proof (cases ch)
        case Nil
        then have "hostIDFromStream p = Inl ''no verified client certificate''" "verified_leaf p = None"
          using TLSInfo Cons by (simp_all add: hostIDFromStream_def verified_leaf_def)
        with assms pass TLSInfo Cons show ?thesis
          by (auto simp: agent_Connect_def Connect_start_def Let_def set_conn_def mtlsEnforcer_def)
      next
        case (Cons leaf ch')
        then have "verified_leaf p = Some leaf" "hostIDFromStream p =
            (if ct_CommonName (crt_Fields leaf) = [] then Inl ''client certificate has empty CN'' else Inr (ct_CommonName (crt_Fields leaf)))"
          using TLSInfo \<open>vcs = ch # chs\<close> by (simp_all add: hostIDFromStream_def verified_leaf_def)
        with assms pass TLSInfo \<open>vcs = ch # chs\<close> show ?thesis
          by (auto simp: agent_Connect_def Connect_start_def Let_def set_conn_def on_server_def mtlsEnforcer_def reg.lookup_add)
      qed
    next
      case Nil
      with TLSInfo assms show ?thesis
        by (auto simp: agent_Connect_def mtlsStreamEnforcer_def verified_leaf_def mtlsEnforcer_def)
    qed
  qed (use assms in \<open>auto simp: agent_Connect_def mtlsStreamEnforcer_def verified_leaf_def mtlsEnforcer_def\<close>)
qed

theorem agent_Connect_guard_witness:
  "\<exists>H'. agent_Connect ''/praetor.v1.AgentService/Connect'' 7 demo_peer demo_start = (None, H')
     \<and> registry_Get (s_registry (hub_server H')) ''H1'' = Some 7
   \<and> (\<exists>t. fst (agent_Connect ''/praetor.v1.AgentService/Connect'' 7 NoPeer demo_start) = Some (Status Unauthenticated t))"
proof -
  let ?m = "''/praetor.v1.AgentService/Connect''"
  obtain r H' where run: "agent_Connect ?m 7 demo_peer demo_start = (r, H')" by (metis surj_pair)
  obtain r2 H2 where run2: "agent_Connect ?m 7 NoPeer demo_start = (r2, H2)" by (metis surj_pair)
  have leaf: "verified_leaf demo_peer = Some demo_leaf" "ct_CommonName (crt_Fields demo_leaf) = ''H1''"
    "verified_leaf NoPeer = None"
    by (simp_all add: verified_leaf_def demo_peer_def demo_leaf_def client_template_def)
  have "r = None \<and> registry_Get (s_registry (hub_server H')) ''H1'' = Some 7"
    using agent_Connect_guard [OF run] leaf by simp
  moreover have "\<exists>t. r2 = Some (Status Unauthenticated t)"
    using agent_Connect_guard [OF run2] leaf(3) by simp
  ultimately show ?thesis using run run2 by simp
qed

end
