(* ===== verification/System.thy ===== *)
theory System
  imports Statements ApiBehaviour ServerMain VictoriaMetrics
begin

text \<open>
  The whole system over its tables: the RPCs, the messages and jobs of the streams, the HTTP requests, the
  staleness sweep, the pushes of configuration, the commands run in another process on the same
  database, and changes of everything the environment decides, in any order. Each operation
  respects every relation that all statements respect; so a run keeps the integrity of the tables,
  and hands out each enrollment token at most once.
\<close>

record 'f system =
  sy_env :: env
  sy_api :: api_env
  sy_crypto :: crypto
  sy_ca :: ca
  sy_cli :: "'f cli_env"
  sy_webhook :: string

datatype operation =
    RpcEnroll peer enroll_request
  | RpcMessage string agent_message
  | RunJob job
  | HttpCall "instant \<times> instant" api_request
  | Sweep
  | PushConfig string
  | TokenCommand "string list"
  | ConfigCommand "string list"
  | Environment world

text \<open>The ID of the token that an Enroll call claims, when it claims one.\<close>

definition claimed_token :: "crypto \<Rightarrow> peer \<Rightarrow> enroll_request \<Rightarrow> world \<Rightarrow> string option" where
  "claimed_token c p req w =
     (case detect_reenroll p w of
        ((re, h), w1) \<Rightarrow>
          if re \<or> validate_shape re req \<noteq> None then None
          else (case authenticate c re h (eq_EnrollmentToken req) w1 of
                  (Inr (tid, org), _) \<Rightarrow> Some tid
                | _ \<Rightarrow> None))"

definition system_step :: "'f system \<Rightarrow> operation \<Rightarrow> server \<Rightarrow> string option \<times> server" where
  "system_step S op s =
     (case op of
        RpcEnroll p req \<Rightarrow>
          (claimed_token (sy_crypto S) p req (s_world s),
           snd (on_store (Enroll (sy_crypto S) (sy_ca S) p req) s))
      | RpcMessage h m \<Rightarrow> (None, snd (on_store (handleMessage h m) s))
      | RunJob j \<Rightarrow> (None, run_job (sy_env S) j s)
      | HttpCall tm r \<Rightarrow> (None, snd (Routes (sy_api S) tm r s))
      | Sweep \<Rightarrow> (None, snd (on_store (RunOnce (e_url_ok (sy_env S)) (sy_webhook S)) s))
      | PushConfig h \<Rightarrow> (None, snd (Push h s))
      | TokenCommand args \<Rightarrow> (None, snd (on_store (runToken (sy_cli S) args) s))
      | ConfigCommand args \<Rightarrow> (None, snd (on_store (runConfigCmd (sy_cli S) args) s))
      | Environment w \<Rightarrow> (None, s\<lparr>s_world := w\<lparr>w_db := w_db (s_world s)\<rparr>\<rparr>))"

abbreviation system_run :: "'f system \<Rightarrow> operation list \<Rightarrow> server \<Rightarrow> server" where
  "system_run S ops s \<equiv> fold (\<lambda>op s. snd (system_step S op s)) ops s"

abbreviation tables :: "server \<Rightarrow> db" where
  "tables s \<equiv> w_db (s_world s)"

subsection \<open>Every operation respects what the statements respect\<close>

lemma Generate_db [simp]: "w_db (snd (Generate sha w)) = w_db w"
  by (auto simp: Generate_def rand_read_def go_now_def new_ulid_def Let_def)

lemma writer_db [simp]:
  "w_db (snd (write_lines fmt_g is_print order hostID ms w)) = w_db w"
  "w_db (snd (entry_values es w)) = w_db w"
  "w_db (snd (build_streams hostID gs w)) = w_db w"
proof -
  show "w_db (snd (write_lines fmt_g is_print order hostID ms w)) = w_db w"
    by (induction ms arbitrary: w) (simp_all add: Let_def split_def go_now_def split: option.splits)
  show es: "w_db (snd (entry_values es w)) = w_db w" for es w
    by (induction es arbitrary: w) (simp_all add: Let_def split_def go_now_def split: option.splits)
  show "w_db (snd (build_streams hostID gs w)) = w_db w"
    by (induction gs arbitrary: w) (auto simp: Let_def split_def es)
qed

lemma write_db [simp]:
  "w_db (snd (vm_Write fmt_g is_print order url_ok reply base h ms w)) = w_db w"
  "w_db (snd (loki_Write ord url_ok reply base h es w)) = w_db w"
  by (auto simp: vm_Write_def loki_Write_def Let_def split_def split: http_reply.splits)

context store_effects
begin

lemma Issue_R: "R (tables s) (tables (snd (Issue marshal req s)))"
proof -
  obtain k e s' where i: "Issue marshal req s = ((k, e), s')" by (cases "Issue marshal req s") auto
  then have "R (tables s) (tables s')"
  proof (cases rule: Issue_cases)
    case early
    then show ?thesis by (simp add: R_refl)
  next
    case (store c x)
    then show ?thesis using command_methods_R(1) [of x c] by simp
  next
    case (push p j s4 x)
    then have "R (w_db x) (tables s4)" using command_methods_R(1) [of x "pending_row k req j"] by simp
    moreover have "tables s' = tables s4"
      using push(9) push_command_world [of "iq_HostID req" "build_request k req p" s4] by simp
    ultimately show ?thesis using push(4) by simp
  qed
  with i show ?thesis by simp
qed

lemma HandleResult_R: "R (w_db w) (w_db (HandleResult r w))"
  unfolding HandleResult_def by (rule command_methods_R)

lemma handleMessage_R: "R (w_db w) (w_db (snd (handleMessage h m w)))"
proof -
  have "R (w_db w) (w_db (snd (handleHeartbeat h ts w)))" for ts
  proof -
    have "R (w_db (snd (go_now w))) (w_db (snd (host_UpdateHeartbeat h t ''online'' (snd (go_now w)))))" for t
      by (rule host_methods_R)
    then show ?thesis by (auto simp: handleHeartbeat_def Let_def split_def split: sum.splits)
  qed
  then show ?thesis by (cases m) (auto simp: handleMessage_def R_refl split_def)
qed

lemma run_job_R: "R (tables s) (tables (run_job E j s))"
  by (cases j) (simp_all add: run_job_def R_refl HandleResult_R event_Insert_R)

text \<open>The handlers of the REST API.\<close>

lemma handleIssueToken_R: "R (tables s) (tables (snd (handleIssueToken A r s)))"
proof (cases "decode_token_request (aq_Body r)")
  case (Some req)
  obtain g w1 where g: "Generate (ah_Sum256 A) (s_world s) = (g, w1)" by (cases "Generate (ah_Sum256 A) (s_world s)")
  then have w1: "w_db w1 = tables s" using Generate_db by (metis snd_conv)
  have "R (tables s) (w_db (snd (token_Insert n (snd (go_now (snd (go_now w1)))))))" for n
    using token_methods_R(1) [of "snd (go_now (snd (go_now w1)))" n] w1 by simp
  then show ?thesis
    using Some g w1
    by (auto simp: handleIssueToken_def on_store_def Let_def split_def R_refl split: sum.splits)
qed (simp add: handleIssueToken_def R_refl)

lemma handleRevokeToken_R: "R (tables s) (tables (snd (handleRevokeToken A k r s)))"
  using token_methods_R(3) [of "s_world s" k]
  by (auto simp: handleRevokeToken_def on_store_def split: prod.splits sum.splits)

lemma handleIssueCommand_R: "R (tables s) (tables (snd (handleIssueCommand A r s)))"
  using Issue_R [of s "ah_marshal A"]
  by (auto simp: handleIssueCommand_def R_refl split: prod.splits sum.splits option.splits) (metis snd_conv)+

end

text \<open>Reads change no table.\<close>

lemma reads_db [simp]:
  "w_db (snd (event_List h since l w)) = w_db w" "w_db (snd (event_ListAll since l w)) = w_db w"
  "w_db (snd (host_List org w)) = w_db w" "w_db (snd (host_GetByID k w)) = w_db w"
  "w_db (snd (token_List org x r w)) = w_db w" "w_db (snd (command_Get k w)) = w_db w"
  "w_db (snd (command_ListByHost k n w)) = w_db w" "w_db (snd (config_Get k w)) = w_db w"
  "w_db (snd (go_now w)) = w_db w"
  by (simp_all add: event_List_def event_ListAll_def host_GetByID_def token_List_def command_Get_def
      command_ListByHost_def config_Get_def exec_query_dbD split: prod.splits sum.splits)

lemma on_store_tables [simp]: "tables (snd (on_store f s)) = w_db (snd (f (s_world s)))"
  by (simp add: on_store_def split_def)

lemma read_handlers [simp]:
  "tables (snd (handleListHosts A r s)) = tables s" "tables (snd (handleGetHost A k r s)) = tables s"
  "tables (snd (handleListTokens A r s)) = tables s" "tables (snd (handleGetCommand A k r s)) = tables s"
  "tables (snd (handleListCommands A r s)) = tables s" "tables (snd (handleListSecurityEvents A r s)) = tables s"
  by (auto simp: handleListHosts_def handleGetHost_def handleListTokens_def handleGetCommand_def
      handleListCommands_def handleListSecurityEvents_def on_store_def Let_def split_def
      split: option.splits sum.splits)

context store_effects
begin

lemma Routes_R: "R (tables s) (tables (snd (Routes A tm r s)))"
proof -
  have "R (tables s) (tables (snd (serve_v1 A r s)))"
    by (auto simp: serve_v1_def run_v1_def R_refl handleIssueToken_R handleRevokeToken_R handleIssueCommand_R
        split: routed.splits v1_handler.splits)
  then have "R (tables s) (tables (snd (bearerAuth (ah_apiKey A) (serve_v1 A) r s)))"
    by (simp add: bearerAuth_cases R_refl)
  then show ?thesis by (simp add: Routes_def R_refl handleHealthz_def split: routed.splits)
qed

lemma with_pool_R:
  "(\<And>w. R (w_db w) (w_db (snd (body w)))) \<Longrightarrow> R (w_db w) (w_db (snd (with_pool E l c path body w)))"
  by (auto simp: with_pool_def R_refl split: sum.splits option.splits)

lemma issue_token_R: "R (w_db w) (w_db (snd (issue_token E label ttl org w)))"
proof -
  obtain g w1 where g: "Generate (cl_Sum256 E) w = (g, w1)" by (cases "Generate (cl_Sum256 E) w")
  then have w1: "w_db w1 = w_db w" using Generate_db by (metis snd_conv)
  have "R (w_db w) (w_db (snd (token_Insert n (snd (go_now (snd (go_now w1)))))))" for n
    using token_methods_R(1) [of "snd (go_now (snd (go_now w1)))" n] w1 by simp
  then show ?thesis using g w1 by (auto simp: issue_token_def Let_def split_def R_refl split: sum.splits)
qed

end

lemma print_rows_db [simp]: "w_db (snd (print_rows rs w)) = w_db w"
proof (induction rs arbitrary: w)
  case (Cons r rs)
  have "w_db (snd (row_status r w)) = w_db w" by (simp add: row_status_def go_now_def)
  then show ?case using Cons by (simp add: split_def)
qed simp

lemma list_tokens_db [simp]: "w_db (snd (list_tokens E org u x w)) = w_db w"
  by (auto simp: list_tokens_def split_def exec_query_dbD split: prod.splits sum.splits)

context store_effects
begin

lemma runToken_R: "R (w_db w) (w_db (snd (runToken E args w)))"
proof -
  have "R (w_db v) (w_db (snd (case token_Revoke k v of (Inl e, w1) \<Rightarrow> (exit1 (m @ error_text e), w1)
      | (Inr _, w1) \<Rightarrow> (([TokenRevoked k], 0), w1))))" for v k m
    using token_methods_R(3) [of v k] by (auto split: prod.splits sum.splits)
  then show ?thesis
    by (auto simp: runToken_def runTokenIssue_def runTokenList_def runTokenRevoke_def R_refl
        intro!: with_pool_R issue_token_R split: list.splits flag_result.splits)
qed

lemma runConfigCmd_R: "R (w_db w) (w_db (snd (runConfigCmd E args w)))"
proof -
  have "R (w_db v) (w_db (snd (case config_SetField (cl_is_print E) h k n v of (Inl e, w1) \<Rightarrow> (exit1 (m @ error_text e), w1)
      | (Inr _, w1) \<Rightarrow> (([ConfigUpdated h k n], 0), w1))))" for v h k n m
    using config_SetField_R [of v "cl_is_print E" h k n] by (auto split: prod.splits sum.splits)
  moreover have "R (w_db v) (w_db (snd (case config_Get h v of (Inl e, w1) \<Rightarrow> (exit1 (m @ error_text e), w1)
      | (Inr c, w1) \<Rightarrow> (([ConfigShown c], 0), w1))))" for v h m
    by (auto simp: R_refl dest: config_Get_wdb split: prod.splits sum.splits)
  ultimately show ?thesis
    by (auto simp: runConfigCmd_def runConfigSet_def runConfigGet_def R_refl
        intro!: with_pool_R split: list.splits flag_result.splits option.splits)
qed

lemma system_step_R: "R (tables s) (tables (snd (system_step S op s)))"
  by (cases op)
     (simp_all add: system_step_def R_refl Enroll_R handleMessage_R run_job_R Routes_R RunOnce_R
       runToken_R runConfigCmd_R)

lemma system_run_R: "R (tables s) (tables (system_run S ops s))"
  by (induction ops arbitrary: s) (auto simp: R_refl intro: R_trans system_step_R)

text \<open>What Enroll does after it has authenticated the call.\<close>

lemma Enroll_after_R:
  assumes "detect_reenroll p w = ((re, h), w1)" "validate_shape re req = None"
    "authenticate c re h (eq_EnrollmentToken req) w1 = (Inr (tid, org), w2)"
  shows "R (w_db w2) (w_db (snd (Enroll c a p req w)))"
proof -
  from assms(2) obtain hi where hi: "eq_HostInfo req = Some hi"
    by (auto simp: validate_shape_def split: if_splits option.splits)
  obtain hid w3 where rs: "resolveHostID (hi_MachineId hi) org h w2 = (hid, w3)"
    by (cases "resolveHostID (hi_MachineId hi) org h w2")
  obtain q w4 where ic: "IssueClient c a (eq_CsrPem req) hid clientCertTTL w3 = (q, w4)"
    by (cases "IssueClient c a (eq_CsrPem req) hid clientCertTTL w3")
  have d4: "w_db w4 = w_db w2"
    using rs ic resolveHostID_db [of "hi_MachineId hi" org h w2]
      IssueClient_db [of c a "eq_CsrPem req" hid clientCertTTL w3] by simp
  show ?thesis
  proof (cases q)
    case (Inl e)
    with assms hi rs ic d4 show ?thesis by (simp add: Enroll_def R_refl)
  next
    case (Inr pem)
    with assms hi rs ic d4 show ?thesis
      using record_enrollment_R [of w4 c a tid org hid req hi pem] by (simp add: Enroll_def)
  qed
qed

end

subsection \<open>Tokens are claimed once\<close>

lemma claimed_token_spent:
  assumes "claimed_token c p req w = Some k" "db_ok (w_db w)"
  shows "k \<in> tr_id ` set (db_tokens (w_db w)) \<and> k \<notin> spent_token_ids (w_db w)
    \<and> k \<in> used_token_ids (w_db (snd (Enroll c a p req w)))"
proof -
  obtain re h w1 where d: "detect_reenroll p w = ((re, h), w1)" by (metis surj_pair)
  then have d1: "w_db w1 = w_db w" using detect_reenroll_db [of p w] by simp
  from assms(1) d have re: "\<not> re" "validate_shape re req = None"
    by (auto simp: claimed_token_def split: if_splits)
  with assms(1) d obtain org w2 where au: "authenticate c re h (eq_EnrollmentToken req) w1 = (Inr (k, org), w2)"
    by (auto simp: claimed_token_def split: prod.splits sum.splits)
  let ?sql = "claim_token_sql (HashHex (c_Sum256 c) (eq_EnrollmentToken req))"
  from au re have "exec_stmt ?sql w1 = (Inr (k, org), w2)"
    by (auto simp: authenticate_def split: if_splits sum.splits prod.splits)
  then have cl: "?sql (w_clock w1 (w_tick w1)) (w_db w) = Inr ((k, org), w_db w2)"
    using d1 by (auto dest: exec_stmt_Inr)
  have "db_ok (w_db w2)" using claim_token_db_ok [OF cl] assms(2) by blast
  then have "used_token_ids (w_db w2) \<subseteq> used_token_ids (w_db (snd (Enroll c a p req w)))"
    by (rule used_token_ids_mono) (rule evolution.Enroll_after_R [OF d re(2) au])
  moreover have "k \<in> tr_id ` set (db_tokens (w_db w))" using claim_token_row [OF cl] by blast
  ultimately show ?thesis
    using claim_token_unspent [OF cl assms(2)] claim_token_fresh [OF cl assms(2)] by blast
qed

subsection \<open>Contracts of the whole system\<close>

interpretation whole: claim_register "system_step S" "\<lambda>s. db_ok (tables s)" "\<lambda>s. spent_token_ids (tables s)"
  for S :: "'f system"
proof (unfold_locales, goal_cases)
  case (1 s op)
  then show ?case using integrity.system_step_R [of s S op] by (simp add: keeps_ok_def)
next
  case (2 s op k s')
  then show ?case
    by (cases op) (auto simp: system_step_def intro: used_spent [THEN subsetD] dest!: claimed_token_spent [where a = "sy_ca S"])
next
  case (3 s op)
  then show ?case by (rule spent_token_ids_mono) (rule evolution.system_step_R)
qed

text \<open>C3: Over every run of the system, in whatever order its operations, the commands on the database and
  the faults come, no enrollment token is claimed twice, and none that was used or revoked before is
  claimed; and every successful enrollment that is not the renewal of a certificate has claimed one.\<close>

theorem tokens_claimed_once:
  assumes "db_ok (tables s)"
  shows "distinct (claims_of (system_step S) ops s)
    \<and> (\<forall>k \<in> set (claims_of (system_step S) ops s). k \<notin> spent_token_ids (tables s))
    \<and> (Enroll (sy_crypto S) (sy_ca S) p req (s_world s) = (Inr resp, w') \<and> \<not> fst (fst (detect_reenroll p (s_world s)))
        \<longrightarrow> claims_of (system_step S) [RpcEnroll p req] s \<noteq> [])"
proof -
  have c: "claimed_token (sy_crypto S) p req (s_world s) \<noteq> None"
    if e: "Enroll (sy_crypto S) (sy_ca S) p req (s_world s) = (Inr resp, w')"
      and n: "\<not> fst (fst (detect_reenroll p (s_world s)))"
    using n by (cases rule: Enroll_Inr [OF e]) (auto simp: claimed_token_def)
  have one: "claims_of (system_step S) [RpcEnroll p req] s \<noteq> []"
    if "claimed_token (sy_crypto S) p req (s_world s) \<noteq> None"
    using that by (auto simp: system_step_def)
  show ?thesis
    using whole.claims_distinct [OF assms] whole.claims_unclaimed [OF assms] one c by blast
qed

text \<open>C4: Calls may run at the same time: what an operation does to the tables is a sequence of the
  statements of the stores, and in whatever order, at whatever instants and by however many calls
  these are run, the tables stay well formed, no token is claimed twice, and none that was used or
  revoked before is claimed.\<close>

theorem claims_survive_interleaving:
  assumes "db_ok d"
  shows "(\<exists>stmts. tables (snd (system_step S op s)) = stmt_run stmts (tables s))
    \<and> db_ok (stmt_run ops d)
    \<and> distinct (claims_of stmt_step ops d)
    \<and> (\<forall>k \<in> set (claims_of stmt_step ops d). k \<notin> spent_token_ids d)"
  using stepwise.system_step_R [of s S op] interleaved.run_keeps [OF assms] interleaved.claims_distinct [OF assms]
    interleaved.claims_unclaimed [OF assms] by (auto simp: by_statements_def)

text \<open>C6: Over every run the tables stay well formed: the primary keys are unique, the machine of a host and
  the fingerprint of an identity that is not revoked too, the numbers of identities and events are
  below their sequences, and every foreign key refers to a row (\<open>db_ok\<close>). No host is ever deleted, and
  no token: its hash, organisation and expiry never change, nor the times it was used and revoked at
  once set (\<open>token_evolves\<close>).\<close>

theorem tables_well_formed:
  assumes "db_ok (tables s)"
  shows "db_ok (tables (system_run S ops s))
    \<and> (\<forall>h. host_exists h (tables s) \<longrightarrow> host_exists h (tables (system_run S ops s)))
    \<and> (\<forall>k r. find_by tr_id k (db_tokens (tables s)) = Some r \<longrightarrow>
       (\<exists>r'. find_by tr_id k (db_tokens (tables (system_run S ops s))) = Some r' \<and> token_evolves r r'))"
  using whole.run_keeps [OF assms] presence.system_run_R [of s S ops] evolution.system_run_R [of s S ops]
  by (simp add: hosts_stay_def tokens_evolve_def)

text \<open>The timestamp an agent puts in a heartbeat decides what the next sweep makes of its host,
  whatever the host's status was (\<open>disabled\<close> too): online, unless the timestamp is more than 90
  seconds behind the clock of the database; a host whose clock is fast stays online as much longer.\<close>

theorem heartbeat_then_sweep:
  assumes "handleMessage h (Heartbeat (Some ts)) w = (x, w1)" "RunOnce url_ok url w1 = (y, w2)"
    "find_by hr_id h (db_hosts (w_db w)) = Some r"
    "w_fault w (w_tick w + 1) = NoFault" "w_fault w (w_tick w + 2) = NoFault"
  shows "find_by hr_id h (db_hosts (w_db w2)) = Some (r\<lparr>hr_last_heartbeat_at := Some ts,
     hr_status := (if ts < w_clock w (w_tick w + 2) - 90 * time_Second then ''offline'' else ''online'')\<rparr>)"
proof -
  have w1: "w1 = (tick (tick w))\<lparr>w_db := (w_db w)\<lparr>db_hosts := update_where (\<lambda>r. hr_id r = h)
      (\<lambda>r. r\<lparr>hr_last_heartbeat_at := Some ts, hr_status := ''online''\<rparr>) (db_hosts (w_db w))\<rparr>\<rparr>"
    using assms(1,4) by (auto simp: handleMessage_def handleHeartbeat_def go_now_def Let_def host_UpdateHeartbeat_def
        exec_stmt_NoFault update_heartbeat_sql_def wrap_err_def split: prod.splits sum.splits)
  have "w_db w2 = w_db (snd (exec_stmt sweep_sql w1))" using assms(2) RunOnce_db [of url_ok url w1] by simp
  then have "db_hosts (w_db w2) = update_where (stale (w_clock w (w_tick w + 2)))
      (\<lambda>r. r\<lparr>hr_status := ''offline''\<rparr>) (db_hosts (w_db w1))"
    using assms(5) w1 by (simp add: exec_stmt_NoFault sweep_sql_def)
  moreover have "hr_id r = h" using assms(3) by (blast dest: find_by_SomeD)
  ultimately show ?thesis
    using assms(3) w1 by (simp add: find_by_update_where stale_def HeartbeatTimeout_def)
qed

subsection \<open>A concrete system\<close>

definition demo_system :: "unit system" where
  "demo_system = \<lparr>sy_env = demo_env, sy_api = demo_api, sy_crypto = demo_enroll_crypto, sy_ca = demo_ca,
     sy_cli = demo_cli, sy_webhook = []\<rparr>"

definition demo_begin :: server where
  "demo_begin = (demo_server [])\<lparr>s_world := calm_world demo_db\<rparr>"

lemma demo_begin_ok: "db_ok (tables demo_begin)"
  using demo_db_ok by (simp add: demo_begin_def calm_world_at)

lemma demo_claimed: "claimed_token demo_enroll_crypto NoPeer demo_request (calm_world demo_db) = Some ''T1''"
proof -
  have "authenticate demo_enroll_crypto False [] demo_token (calm_at 0 demo_db)
      = (Inr (''T1'', ''default''), calm_at (Suc 0) (demo_db\<lparr>db_tokens := [demo_row\<lparr>tr_used_at := Some 0\<rparr>]\<rparr>))"
    by (simp add: authenticate_first demo_token_valid calm_exec demo_claim)
  moreover have "detect_reenroll NoPeer (calm_at 0 demo_db) = ((False, []), calm_at 0 demo_db)"
    by (simp add: detect_reenroll_def verified_leaf_def)
  moreover have "validate_shape False demo_request = None" "eq_EnrollmentToken demo_request = demo_token"
    by (simp_all add: validate_shape_def demo_request_def demo_token_valid demo_info_def demo_encode_def)
  ultimately show ?thesis by (simp add: claimed_token_def calm_world_at)
qed

theorem tokens_claimed_once_witness:
  "distinct (claims_of (system_step demo_system) [RpcEnroll NoPeer demo_request, RpcEnroll NoPeer demo_request] demo_begin)
    \<and> claims_of (system_step demo_system) [RpcEnroll NoPeer demo_request] demo_begin \<noteq> []"
proof -
  obtain resp w' where "Enroll demo_enroll_crypto demo_ca NoPeer demo_request (calm_world demo_db) = (Inr resp, w')"
    using demo_enroll by blast
  then have "Enroll (sy_crypto demo_system) (sy_ca demo_system) NoPeer demo_request (s_world demo_begin) = (Inr resp, w')"
    "\<not> fst (fst (detect_reenroll NoPeer (s_world demo_begin)))"
    by (simp_all add: demo_system_def demo_begin_def detect_reenroll_def verified_leaf_def)
  then show ?thesis using tokens_claimed_once [OF demo_begin_ok] by blast
qed

theorem claims_survive_interleaving_witness:
  "claims_of stmt_step [(ClaimToken (HashHex (c_Sum256 demo_enroll_crypto) demo_token), 0),
       (ClaimToken (HashHex (c_Sum256 demo_enroll_crypto) demo_token), 5), (statement.RevokeToken ''T1'', 6)] demo_db = [''T1'']
    \<and> db_ok (stmt_run [(statement.RevokeToken ''T1'', 6)] demo_db)"
proof -
  let ?h = "HashHex (c_Sum256 demo_enroll_crypto) demo_token"
  let ?d = "demo_db\<lparr>db_tokens := [demo_row\<lparr>tr_used_at := Some 0\<rparr>]\<rparr>"
  have "claim_token_sql ?h 5 ?d = Inl NoRows"
    using claim_token_spent [OF demo_claim, of 5] by simp
  then have "claims_of stmt_step [(ClaimToken ?h, 0), (ClaimToken ?h, 5), (statement.RevokeToken ''T1'', 6)] demo_db = [''T1'']"
    using demo_claim by simp
  moreover have "db_ok (stmt_run [(statement.RevokeToken ''T1'', 6)] demo_db)"
    using claims_survive_interleaving [OF demo_db_ok] by blast
  ultimately show ?thesis by blast
qed

theorem tables_well_formed_witness:
  "\<exists>r. find_by tr_id ''T1'' (db_tokens (tables (system_run demo_system [RpcEnroll NoPeer demo_request, Sweep] demo_begin))) = Some r
    \<and> tr_org_id r = ''default''"
proof -
  have "find_by tr_id ''T1'' (db_tokens (tables demo_begin)) = Some demo_row"
    by (simp add: demo_begin_def calm_world_at demo_db_def demo_row_fields)
  then have "\<exists>r. find_by tr_id ''T1'' (db_tokens (tables (system_run demo_system [RpcEnroll NoPeer demo_request, Sweep] demo_begin))) = Some r
      \<and> token_evolves demo_row r"
    using tables_well_formed [OF demo_begin_ok] by blast
  then show ?thesis by (auto simp: token_evolves_def demo_row_fields)
qed

definition disabled_host :: host_row where
  "disabled_host = (plain_host ''H1'')\<lparr>hr_status := ''disabled''\<rparr>"

theorem heartbeat_then_sweep_witness:
  "\<exists>x w1 y w2 r. handleMessage ''H1'' (Heartbeat (Some (time_Hour))) (calm_world (empty_db\<lparr>db_hosts := [disabled_host]\<rparr>)) = (x, w1)
    \<and> RunOnce (\<lambda>_. True) [] w1 = (y, w2) \<and> find_by hr_id ''H1'' (db_hosts (w_db w2)) = Some r \<and> hr_status r = ''online''"
proof -
  let ?w = "calm_world (empty_db\<lparr>db_hosts := [disabled_host]\<rparr>)"
  obtain x w1 where m: "handleMessage ''H1'' (Heartbeat (Some (time_Hour))) ?w = (x, w1)" by (metis surj_pair)
  obtain y w2 where s: "RunOnce (\<lambda>_. True) [] w1 = (y, w2)" by (metis surj_pair)
  have "find_by hr_id ''H1'' (db_hosts (w_db ?w)) = Some disabled_host"
    by (simp add: calm_simps disabled_host_def plain_host_def)
  moreover have "w_fault ?w (w_tick ?w + 1) = NoFault" "w_fault ?w (w_tick ?w + 2) = NoFault" by (simp_all add: calm_simps)
  ultimately have "find_by hr_id ''H1'' (db_hosts (w_db w2)) = Some (disabled_host\<lparr>hr_last_heartbeat_at := Some time_Hour,
     hr_status := (if time_Hour < w_clock ?w (w_tick ?w + 2) - 90 * time_Second then ''offline'' else ''online'')\<rparr>)"
    by (rule heartbeat_then_sweep [OF m s])
  then show ?thesis using m s by (auto simp: calm_simps time_units)
qed

end
