(* ===== verification/TokenLife.thy ===== *)
theory TokenLife
  imports System
begin

text \<open>
  The abstract specification of an enrollment token: a machine with four states, in which a token
  is issued, used while it is open, and revoked. The tables refine it: every statement of the
  server, and so every operation of the system, is a sequence of its steps.
\<close>

subsection \<open>The abstract machine\<close>

datatype life = Open | Used | Revoked | UsedRevoked

text \<open>The states in the order a token may pass through them.\<close>

instantiation life :: order
begin

definition less_eq_life :: "life \<Rightarrow> life \<Rightarrow> bool" where
  "less_eq_life x y \<longleftrightarrow> x = y \<or> x = Open \<or> y = UsedRevoked"

definition less_life :: "life \<Rightarrow> life \<Rightarrow> bool" where
  "less_life x y \<longleftrightarrow> x \<noteq> y \<and> (x = Open \<or> y = UsedRevoked)"

instance
  by standard (auto simp: less_eq_life_def less_life_def)

end

inductive life_next :: "life \<Rightarrow> life \<Rightarrow> bool" where
  use_open: "life_next Open Used"
| revoke_open: "life_next Open Revoked"
| revoke_used: "life_next Used UsedRevoked"

inductive_simps life_next_from: "life_next Open y" "life_next Used y" "life_next Revoked y" "life_next UsedRevoked y"

inductive token_step :: "(string \<Rightarrow> life option) \<Rightarrow> (string \<Rightarrow> life option) \<Rightarrow> bool" where
  issued: "m k = None \<Longrightarrow> token_step m (m(k \<mapsto> Open))"
| moved: "m k = Some x \<Longrightarrow> life_next x y \<Longrightarrow> token_step m (m(k \<mapsto> y))"

inductive_cases token_stepE: "token_step m m'"

abbreviation token_steps :: "(string \<Rightarrow> life option) \<Rightarrow> (string \<Rightarrow> life option) \<Rightarrow> bool" where
  "token_steps \<equiv> token_step\<^sup>*\<^sup>*"

text \<open>A token never leaves the machine, and only moves up.\<close>

definition ages :: "(string \<Rightarrow> life option) \<Rightarrow> (string \<Rightarrow> life option) \<Rightarrow> bool" where
  "ages m m' \<longleftrightarrow> (\<forall>k x. m k = Some x \<longrightarrow> (\<exists>y \<ge> x. m' k = Some y))"

lemma life_next_less: "life_next x y \<Longrightarrow> x < y"
  by (erule life_next.cases) (auto simp: less_life_def)

lemma token_step_ages: "token_step m m' \<Longrightarrow> ages m m'"
  by (erule token_stepE) (auto simp: ages_def intro: less_imp_le life_next_less)

lemma token_steps_ages: "token_steps m m' \<Longrightarrow> ages m m'"
proof (induction rule: rtranclp_induct)
  case base
  then show ?case by (simp add: ages_def)
next
  case (step m1 m2)
  then have "ages m1 m2" by (blast intro: token_step_ages)
  with step.IH show ?case unfolding ages_def by (blast intro: order_trans)
qed

text \<open>One statement may use up or revoke several tokens: one step for each.\<close>

lemma token_steps_all:
  assumes "finite K" "\<And>k. k \<in> K \<Longrightarrow> \<exists>x. m k = Some x \<and> life_next x (g k)"
  shows "token_steps m (\<lambda>k. if k \<in> K then Some (g k) else m k)"
  using assms
proof (induction K)
  case empty
  then show ?case by simp
next
  case (insert k K)
  let ?n = "\<lambda>k. if k \<in> K then Some (g k) else m k"
  have "token_steps m ?n" using insert.IH insert.prems by blast
  moreover from insert.prems [of k] obtain x where "m k = Some x" "life_next x (g k)" by blast
  then have "token_step ?n (?n(k \<mapsto> g k))" using insert.hyps(2) by (intro moved [of _ _ x]) simp_all
  moreover have "?n(k \<mapsto> g k) = (\<lambda>i. if i \<in> insert k K then Some (g i) else m i)" by auto
  ultimately show ?case by (simp add: rtranclp.rtrancl_into_rtrancl)
qed

subsection \<open>The tables refine it\<close>

definition life_of :: "token_row \<Rightarrow> life" where
  "life_of r =
     (case (tr_used_at r, tr_revoked_at r) of
        (None, None) \<Rightarrow> Open
      | (Some _, None) \<Rightarrow> Used
      | (None, Some _) \<Rightarrow> Revoked
      | (Some _, Some _) \<Rightarrow> UsedRevoked)"

definition token_abs :: "db \<Rightarrow> string \<Rightarrow> life option" where
  "token_abs d k = map_option life_of (find_by tr_id k (db_tokens d))"

definition refines :: "db \<Rightarrow> db \<Rightarrow> bool" where
  "refines d d' \<longleftrightarrow> token_steps (token_abs d) (token_abs d')"

lemma refines_same: "db_tokens d' = db_tokens d \<Longrightarrow> refines d d'"
  by (simp add: refines_def token_abs_def [abs_def])

lemma refines_update:
  assumes "\<And>r. tr_id (f r) = tr_id r" "\<And>r. P r \<Longrightarrow> life_of (f r) \<noteq> life_of r \<Longrightarrow> life_next (life_of r) (life_of (f r))"
  shows "refines d (d\<lparr>db_tokens := update_where P f (db_tokens d)\<rparr>)"
proof -
  let ?row = "\<lambda>k. the (find_by tr_id k (db_tokens d))"
  let ?K = "{k. \<exists>r. find_by tr_id k (db_tokens d) = Some r \<and> P r \<and> life_of (f r) \<noteq> life_of r}"
  have "?K \<subseteq> tr_id ` set (db_tokens d)" by (auto dest: find_by_SomeD)
  then have "finite ?K" by (rule finite_subset) simp
  moreover have "\<exists>x. token_abs d k = Some x \<and> life_next x (life_of (f (?row k)))" if "k \<in> ?K" for k
    using that assms(2) by (auto simp: token_abs_def)
  ultimately have "token_steps (token_abs d) (\<lambda>k. if k \<in> ?K then Some (life_of (f (?row k))) else token_abs d k)"
    by (rule token_steps_all)
  moreover have "token_abs (d\<lparr>db_tokens := update_where P f (db_tokens d)\<rparr>) =
      (\<lambda>k. if k \<in> ?K then Some (life_of (f (?row k))) else token_abs d k)"
  proof
    fix k
    show "token_abs (d\<lparr>db_tokens := update_where P f (db_tokens d)\<rparr>) k
        = (if k \<in> ?K then Some (life_of (f (?row k))) else token_abs d k)"
      by (cases "find_by tr_id k (db_tokens d)") (simp_all add: token_abs_def find_by_update_where assms(1))
  qed
  ultimately show ?thesis by (simp add: refines_def)
qed

lemma refines_insert:
  assumes "insert_token_sql n t d = Inr (c, d')"
  shows "refines d d'"
proof -
  let ?n = "n\<lparr>tr_created_at := t, tr_used_at := None, tr_used_by_host_id := None, tr_revoked_at := None\<rparr>"
  have new: "tr_id n \<notin> tr_id ` set (db_tokens d)" and d': "db_tokens d' = db_tokens d @ [?n]"
    using assms by (auto simp: insert_token_sql_def split: if_splits)
  then have none: "find_by tr_id (tr_id n) (db_tokens d) = None" by (simp add: find_by_None)
  have "life_of ?n = Open" by (simp add: life_of_def)
  then have "token_abs d' k = ((token_abs d)(tr_id n \<mapsto> Open)) k" for k
    using none by (cases "k = tr_id n") (simp_all add: token_abs_def d' find_by_append split: option.splits)
  then have "token_abs d' = (token_abs d)(tr_id n \<mapsto> Open)" by (rule ext)
  moreover have "token_abs d (tr_id n) = None" using none by (simp add: token_abs_def)
  ultimately show ?thesis by (auto simp: refines_def intro: r_into_rtranclp issued)
qed

lemma life_of_writes:
  "tr_used_at r = None \<Longrightarrow> tr_revoked_at r = None \<Longrightarrow> life_next (life_of r) (life_of (r\<lparr>tr_used_at := Some u\<rparr>))"
  "life_of (r\<lparr>tr_used_by_host_id := x\<rparr>) = life_of r"
  "tr_revoked_at r = None \<Longrightarrow> life_next (life_of r) (life_of (r\<lparr>tr_revoked_at := Some u\<rparr>))"
  by (auto simp: life_of_def life_next_from split: option.splits)

lemma life_of_used: "Used \<le> life_of r \<longleftrightarrow> tr_used_at r \<noteq> None"
  by (auto simp: life_of_def less_eq_life_def split: option.splits)

interpretation aging: store_effects refines
proof (unfold_locales, goal_cases)
  case (2 a b d)
  then show ?case by (simp add: refines_def)
qed (auto intro: refines_insert refines_same dest: upsert_tokens set_field_tokens token_frames
   intro!: refines_update simp: claim_token_sql_def mark_used_sql_def set_used_by_sql_def revoke_token_sql_def Let_def
   token_usable_def life_of_writes split: if_splits list.splits)

text \<open>C5: The tables refine the machine of a token's life: every run of the system is a sequence of its
  steps, so no token ever leaves it or goes back to an earlier state; and an Enroll that claims a token
  finds it open and leaves it used.\<close>

theorem tables_refine_token_life:
  assumes "db_ok (tables s)"
  shows "token_steps (token_abs (tables s)) (token_abs (tables (system_run S ops s)))
    \<and> ages (token_abs (tables s)) (token_abs (tables (system_run S ops s)))
    \<and> (system_step S op s = (Some k, s') \<longrightarrow>
         token_abs (tables s) k = Some Open \<and> (\<exists>y \<ge> Used. token_abs (tables s') k = Some y))"
proof (intro conjI impI)
  show steps: "token_steps (token_abs (tables s)) (token_abs (tables (system_run S ops s)))"
    using aging.system_run_R [of s S ops] by (simp add: refines_def)
  then show "ages (token_abs (tables s)) (token_abs (tables (system_run S ops s)))" by (rule token_steps_ages)
  assume st: "system_step S op s = (Some k, s')"
  then obtain p req where c: "claimed_token (sy_crypto S) p req (s_world s) = Some k"
    and s': "tables s' = w_db (snd (Enroll (sy_crypto S) (sy_ca S) p req (s_world s)))"
    by (cases op) (auto simp: system_step_def)
  have ok': "db_ok (tables s')"
    using integrity.system_step_R [of s S op] st assms by (simp add: keeps_ok_def)
  note k = claimed_token_spent [OF c assms, of "sy_ca S"]
  then have "k \<in> used_token_ids (tables s')" by (simp add: s')
  then have "\<exists>r. find_by tr_id k (db_tokens (tables s')) = Some r \<and> tr_used_at r \<noteq> None"
    using used_token_ids_find [OF ok'] by blast
  then show "\<exists>y \<ge> Used. token_abs (tables s') k = Some y"
    by (auto simp: token_abs_def life_of_used)
  from k obtain r where "find_by tr_id k (db_tokens (tables s)) = Some r"
    by (metis find_by_None option.exhaust)
  with k show "token_abs (tables s) k = Some Open"
    using spent_token_ids_find [OF assms] by (auto simp: token_abs_def life_of_def split: option.splits)
qed

theorem tables_refine_token_life_witness:
  "\<exists>s'. system_step demo_system (RpcEnroll NoPeer demo_request) demo_begin = (Some ''T1'', s')
    \<and> token_abs (tables demo_begin) ''T1'' = Some Open \<and> (\<exists>y \<ge> Used. token_abs (tables s') ''T1'' = Some y)"
proof -
  have "fst (system_step demo_system (RpcEnroll NoPeer demo_request) demo_begin) = Some ''T1''"
    using demo_claimed by (simp add: system_step_def demo_system_def demo_begin_def)
  then obtain s' where "system_step demo_system (RpcEnroll NoPeer demo_request) demo_begin = (Some ''T1'', s')"
    by (metis prod.collapse)
  with tables_refine_token_life [OF demo_begin_ok, of demo_system] show ?thesis by blast
qed

end
