(* ===== verification/Lifecycle.thy ===== *)
theory Lifecycle
  imports System
begin

text \<open>
  The process that \<open>main\<close> of \<open>cmd/praetor-server/main.go\<close> runs when no subcommand is given, from the
  configuration file to its end: the start, the two servers, the staleness job, the signal and the
  shutdown. Main is one goroutine among several: \<open>proc_step\<close> says what main, the other goroutines,
  the clients, the clock and the operating system can each do next. The streams are those of
  \<open>hub_step\<close>, the requests of the REST API go through \<open>Routes\<close>, Enroll through its interceptor.

  What is relied on of the libraries is what they document: \<open>GracefulStop\<close> takes no new connection or
  RPC and blocks until all pending RPCs are finished; \<open>Stop\<close> cancels them; \<open>Shutdown\<close> closes the
  listener and waits for the active requests or for the end of its context; closing the pool blocks
  until every connection is returned; a panic in a goroutine of its own ends the process.
\<close>

subsection \<open>What main builds\<close>

text \<open>What the process is given: the packages \<open>flag\<close> and \<open>config\<close> use, the cryptographic library, the path of
  the configuration, and what the writers, stores and handlers take from their libraries.\<close>

record 'f start =
  su_cli :: "'f cli_env"
  su_crypto :: crypto
  su_path :: string
  su_env :: env
  su_api :: api_env
  su_send_errors :: "nat \<Rightarrow> string option"
  su_enroll_method :: string
  su_connect_method :: string

record wiring =
  wi_env :: env
  wi_api :: api_env
  wi_ca :: ca

text \<open>The constructors of the writers, of the API handler and of the gRPC services; the stores are the
  tables themselves.\<close>

definition wire :: "'f start \<Rightarrow> Config \<Rightarrow> ca \<Rightarrow> wiring" where
  "wire S cfg a =
     \<lparr>wi_env = (su_env S)\<lparr>e_vm_url := vm_New (cfg_VictoriaMetricsURL cfg), e_loki_url := loki_New (cfg_LokiURL cfg)\<rparr>,
      wi_api = (su_api S)\<lparr>ah_apiKey := cfg_APIKey cfg, ah_orgID := cfg_OrgID cfg\<rparr>,
      wi_ca = a\<rparr>"

subsection \<open>The process\<close>

text \<open>Where main stands. \<open>Draining\<close>: it waits for \<open>GracefulStop\<close> until the deadline of the shutdown context;
  \<open>Closing\<close>: it is in \<open>Shutdown\<close> of the HTTP server, under the same context; \<open>ClosingPool\<close>: in the
  deferred \<open>db.Close\<close>. \<open>Killed\<close>: by the default action of the signal, before \<open>NotifyContext\<close>.\<close>

datatype phase =
    Loading
  | Connecting Config
  | MakingCA Config
  | Listening Config ca
  | Waiting
  | Draining instant
  | Closing instant
  | ClosingPool
  | Exited int
  | Killed
  | Panicked

datatype listener = Down | Starting | Up | Broken | Closed

datatype main_log = GrpcStoppedGracefully | GrpcForcedStop | HttpShutdownError | GrpcServerError | HttpApiError

text \<open>Where a sweep of the staleness job stands: its statement is under way, or is over and the webhook is
  being notified, with what the sweep will come to.\<close>

datatype sweep = Querying | Notifying sweep_end

record process =
  p_phase :: phase
  p_now :: instant
  p_signalled :: bool
  p_files :: files
  p_hub :: hub
  p_wiring :: "wiring option"
  p_grpc :: listener
  p_http :: listener
  p_requests :: "api_request list"
  p_enrolls :: "(peer \<times> enroll_request) list"
  p_job :: "string option"
  p_sweep :: "sweep option"
  p_held :: nat
  p_log :: "main_log list"

abbreviation p_server :: "process \<Rightarrow> server" where
  "p_server P \<equiv> hub_server (p_hub P)"

definition p_alive :: "process \<Rightarrow> bool" where
  "p_alive P \<longleftrightarrow> (case p_phase P of Exited _ \<Rightarrow> False | Killed \<Rightarrow> False | Panicked \<Rightarrow> False | _ \<Rightarrow> True)"

definition with_world :: "world \<Rightarrow> process \<Rightarrow> process" where
  "with_world w P = P\<lparr>p_hub := on_server (\<lambda>s. s\<lparr>s_world := w\<rparr>) (p_hub P)\<rparr>"

definition no_streams :: "hub \<Rightarrow> bool" where
  "no_streams H \<longleftrightarrow> (\<forall>st c. hub_conns H st = Some c \<longrightarrow> \<not> cn_running c)"

text \<open>\<open>db.Close\<close> returns once no goroutine holds a connection.\<close>

definition db_Close :: "process \<Rightarrow> bool" where
  [simp]: "db_Close P \<longleftrightarrow> p_held P = 0"

definition shutdownTimeout :: duration where "shutdownTimeout = 10 * time_Second"

definition new_process :: "files \<Rightarrow> world \<Rightarrow> process" where
  "new_process fs w =
     \<lparr>p_phase = Loading, p_now = 0, p_signalled = False, p_files = fs, p_hub = new_hub w (\<lambda>_. None), p_wiring = None,
      p_grpc = Down, p_http = Down, p_requests = [], p_enrolls = [], p_job = None, p_sweep = None, p_held = 0,
      p_log = []\<rparr>"

subsection \<open>The steps\<close>

datatype actor =
    Main
  | Stopper
  | Serving
  | Job
  | Stream label
  | Client
  | Pool
  | Clock
  | OS
  | Outside

text \<open>What main does next, where it is its own choice. \<open>drained\<close> and \<open>forced\<close> are the cases of its select;
  when both are ready either may be taken. Another signal after the first changes nothing. The HTTP
  handler that is served leaves the requests; which of them is next is open, and so for Enroll. Outside
  the process other processes, as those of the subcommands, run statements on the same database, and
  everything else of the world may change. A sweep is three steps, with anything in between, the signal
  and the whole shutdown too: it begins, its statement takes effect (or fails, as when the signal has
  ended its context: a fault of the world), and it has notified the webhook or panics. Once the context
  is done the job may still take a tick before it notices, but a query that starts then is refused.\<close>

inductive proc_step :: "'f start \<Rightarrow> actor \<Rightarrow> process \<Rightarrow> process \<Rightarrow> bool" for S where
  load_fails: "p_phase P = Loading \<Longrightarrow> Load (cl_open (su_cli S)) (cl_decode (su_cli S)) (su_path S) = Inl e \<Longrightarrow>
    proc_step S Main P (P\<lparr>p_phase := Exited 1\<rparr>)"
| loaded: "p_phase P = Loading \<Longrightarrow> Load (cl_open (su_cli S)) (cl_decode (su_cli S)) (su_path S) = Inr cfg \<Longrightarrow>
    proc_step S Main P (P\<lparr>p_phase := Connecting cfg\<rparr>)"
| connect_fails: "p_phase P = Connecting cfg \<Longrightarrow> db_Connect (su_cli S) (cfg_PostgresDSN cfg) \<noteq> None \<or> p_signalled P \<Longrightarrow>
    proc_step S Main P (P\<lparr>p_phase := Exited 1\<rparr>)"
| connected: "p_phase P = Connecting cfg \<Longrightarrow> db_Connect (su_cli S) (cfg_PostgresDSN cfg) = None \<Longrightarrow>
    proc_step S Main P (P\<lparr>p_phase := MakingCA cfg, p_job := Some (cfg_AlertWebhookURL cfg)\<rparr>)"
| ca_fails: "p_phase P = MakingCA cfg \<Longrightarrow>
    New_CA (su_crypto S) (cfg_DataDir cfg) (cfg_GRPCServerDNSNames cfg) (s_world (p_server P), p_files P) = (Inl e, w, fs) \<Longrightarrow>
    proc_step S Main P (with_world w (P\<lparr>p_phase := Exited 1, p_files := fs\<rparr>))"
| ca_made: "p_phase P = MakingCA cfg \<Longrightarrow>
    New_CA (su_crypto S) (cfg_DataDir cfg) (cfg_GRPCServerDNSNames cfg) (s_world (p_server P), p_files P) = (Inr a, w, fs) \<Longrightarrow>
    proc_step S Main P (with_world w (P\<lparr>p_phase := Listening cfg a, p_files := fs\<rparr>))"
| listen_fails: "p_phase P = Listening cfg a \<Longrightarrow> proc_step S Main P (P\<lparr>p_phase := Exited 1\<rparr>)"
| listening: "p_phase P = Listening cfg a \<Longrightarrow>
    proc_step S Main P (P\<lparr>p_phase := Waiting, p_hub := new_hub (s_world (p_server P)) (su_send_errors S),
      p_wiring := Some (wire S cfg a), p_grpc := Up, p_http := Starting\<rparr>)"
| signal_seen: "p_phase P = Waiting \<Longrightarrow> p_signalled P \<Longrightarrow>
    proc_step S Main P (P\<lparr>p_phase := Draining (p_now P + shutdownTimeout)\<rparr>)"
| graceful_stop: "p_phase P = Draining d \<Longrightarrow> p_grpc P \<noteq> Closed \<Longrightarrow>
    proc_step S Stopper P (P\<lparr>p_grpc := Closed\<rparr>)"
| drained: "p_phase P = Draining d \<Longrightarrow> p_grpc P = Closed \<Longrightarrow> no_streams (p_hub P) \<Longrightarrow> p_enrolls P = [] \<Longrightarrow>
    proc_step S Main P (P\<lparr>p_phase := Closing d, p_http := Closed, p_log := p_log P @ [GrpcStoppedGracefully]\<rparr>)"
| forced: "p_phase P = Draining d \<Longrightarrow> d \<le> p_now P \<Longrightarrow>
    proc_step S Main P (P\<lparr>p_phase := Closing d, p_grpc := Closed, p_http := Closed, p_log := p_log P @ [GrpcForcedStop]\<rparr>)"
| http_idle: "p_phase P = Closing d \<Longrightarrow> p_requests P = [] \<Longrightarrow>
    proc_step S Main P (P\<lparr>p_phase := ClosingPool\<rparr>)"
| http_deadline: "p_phase P = Closing d \<Longrightarrow> p_requests P \<noteq> [] \<Longrightarrow> d \<le> p_now P \<Longrightarrow>
    proc_step S Main P (P\<lparr>p_phase := ClosingPool, p_log := p_log P @ [HttpShutdownError]\<rparr>)"
| pool_closed: "p_phase P = ClosingPool \<Longrightarrow> db_Close P \<Longrightarrow> proc_step S Main P (P\<lparr>p_phase := Exited 0\<rparr>)"
| killed: "p_phase P = Loading \<Longrightarrow> proc_step S OS P (P\<lparr>p_phase := Killed\<rparr>)"
| signalled: "p_alive P \<Longrightarrow> p_phase P \<noteq> Loading \<Longrightarrow> proc_step S OS P (P\<lparr>p_signalled := True\<rparr>)"
| clock: "p_alive P \<Longrightarrow> p_now P \<le> t \<Longrightarrow> proc_step S Clock P (P\<lparr>p_now := t\<rparr>)"
| grpc_breaks: "p_alive P \<Longrightarrow> p_grpc P = Up \<Longrightarrow>
    proc_step S Serving P (P\<lparr>p_grpc := Broken, p_log := p_log P @ [GrpcServerError]\<rparr>)"
| http_up: "p_alive P \<Longrightarrow> p_http P = Starting \<Longrightarrow> proc_step S Serving P (P\<lparr>p_http := Up\<rparr>)"
| http_breaks: "p_alive P \<Longrightarrow> p_http P \<in> {Starting, Up} \<Longrightarrow>
    proc_step S Serving P (P\<lparr>p_http := Broken, p_log := p_log P @ [HttpApiError]\<rparr>)"
| sweep_begins: "p_alive P \<Longrightarrow> p_job P \<noteq> None \<Longrightarrow> p_sweep P = None \<Longrightarrow> \<not> p_signalled P \<Longrightarrow>
    proc_step S Job P (P\<lparr>p_sweep := Some Querying\<rparr>)"
| sweep_refused: "p_alive P \<Longrightarrow> p_job P \<noteq> None \<Longrightarrow> p_sweep P = None \<Longrightarrow> p_signalled P \<Longrightarrow> proc_step S Job P P"
| sweep_queried: "p_alive P \<Longrightarrow> p_job P = Some url \<Longrightarrow> p_sweep P = Some Querying \<Longrightarrow>
    RunOnce (e_url_ok (su_env S)) url (s_world (p_server P)) = ((ns, r), w) \<Longrightarrow>
    proc_step S Job P (with_world w (P\<lparr>p_sweep := Some (Notifying r)\<rparr>))"
| sweep_ends: "p_alive P \<Longrightarrow> p_sweep P = Some (Notifying r) \<Longrightarrow> r \<noteq> SweepPanic \<Longrightarrow>
    proc_step S Job P (P\<lparr>p_sweep := None\<rparr>)"
| sweep_panics: "p_alive P \<Longrightarrow> p_sweep P = Some (Notifying SweepPanic) \<Longrightarrow>
    proc_step S Job P (P\<lparr>p_phase := Panicked\<rparr>)"
| job_ends: "p_alive P \<Longrightarrow> p_signalled P \<Longrightarrow> p_job P \<noteq> None \<Longrightarrow> p_sweep P = None \<Longrightarrow>
    proc_step S Job P (P\<lparr>p_job := None\<rparr>)"
| stream_begins: "p_alive P \<Longrightarrow> p_wiring P = Some W \<Longrightarrow> p_grpc P = Up \<Longrightarrow>
    mtlsStreamEnforcer (su_connect_method S) peer = None \<Longrightarrow> hub_step (wi_env W) (LConnect st peer) (p_hub P) H \<Longrightarrow>
    proc_step S (Stream (LConnect st peer)) P (P\<lparr>p_hub := H\<rparr>)"
| stream_goes_on: "p_alive P \<Longrightarrow> p_wiring P = Some W \<Longrightarrow> l \<in> {LReceive st, LServe st, LJob j} \<Longrightarrow>
    hub_step (wi_env W) l (p_hub P) H \<Longrightarrow> proc_step S (Stream l) P (P\<lparr>p_hub := H\<rparr>)"
| outside: "p_alive P \<Longrightarrow> w_db w = stmt_run ops (tables (p_server P)) \<Longrightarrow> proc_step S Outside P (with_world w P)"
| request: "p_alive P \<Longrightarrow> p_http P = Up \<Longrightarrow> proc_step S Client P (P\<lparr>p_requests := p_requests P @ [r]\<rparr>)"
| respond: "p_alive P \<Longrightarrow> p_wiring P = Some W \<Longrightarrow> p_requests P = xs @ r # ys \<Longrightarrow>
    proc_step S Serving P (P\<lparr>p_requests := xs @ ys, p_hub := on_server (\<lambda>s. snd (Routes (wi_api W) tm r s)) (p_hub P)\<rparr>)"
| enroll: "p_alive P \<Longrightarrow> p_grpc P = Up \<Longrightarrow> proc_step S Client P (P\<lparr>p_enrolls := p_enrolls P @ [(peer, req)]\<rparr>)"
| enrolled: "p_alive P \<Longrightarrow> p_wiring P = Some W \<Longrightarrow> p_enrolls P = xs @ (peer, req) # ys \<Longrightarrow>
    proc_step S Serving P (P\<lparr>p_enrolls := xs @ ys, p_hub := on_server (\<lambda>s.
      snd (on_store (agent_Enroll (su_crypto S) (wi_ca W) (su_enroll_method S) peer req) s)) (p_hub P)\<rparr>)"
| acquire: "p_alive P \<Longrightarrow> p_job P \<noteq> None \<or> p_wiring P \<noteq> None \<Longrightarrow> p_phase P \<noteq> ClosingPool \<Longrightarrow>
    proc_step S Pool P (P\<lparr>p_held := Suc (p_held P)\<rparr>)"
| release: "p_alive P \<Longrightarrow> p_held P = Suc n \<Longrightarrow> proc_step S Pool P (P\<lparr>p_held := n\<rparr>)"

inductive_cases proc_stepE: "proc_step S x P P'"
inductive_cases main_stepE: "proc_step S Main P P'"
inductive_cases job_stepE: "proc_step S Job P P'"

inductive proc_run :: "'f start \<Rightarrow> process \<Rightarrow> actor list \<Rightarrow> process \<Rightarrow> bool" for S where
  stays: "proc_run S P [] P"
| goes: "proc_step S x P P1 \<Longrightarrow> proc_run S P1 xs P2 \<Longrightarrow> proc_run S P (x # xs) P2"

inductive_simps proc_run_Nil [simp]: "proc_run S P [] P'"
inductive_simps proc_run_Cons: "proc_run S P (x # xs) P'"

subsection \<open>What holds in every state\<close>

lemma dead_stays: "proc_step S x P P' \<Longrightarrow> p_alive P"
  by (erule proc_stepE) (simp_all add: p_alive_def)

lemma with_world_fields [simp]:
  "p_phase (with_world w P) = p_phase P" "p_now (with_world w P) = p_now P" "p_signalled (with_world w P) = p_signalled P"
  "p_files (with_world w P) = p_files P" "p_wiring (with_world w P) = p_wiring P" "p_grpc (with_world w P) = p_grpc P"
  "p_http (with_world w P) = p_http P" "p_requests (with_world w P) = p_requests P" "p_enrolls (with_world w P) = p_enrolls P"
  "p_job (with_world w P) = p_job P" "p_sweep (with_world w P) = p_sweep P" "p_held (with_world w P) = p_held P" "p_log (with_world w P) = p_log P"
  "hub_conns (p_hub (with_world w P)) = hub_conns (p_hub P)"
  "s_registry (p_server (with_world w P)) = s_registry (p_server P)"
  "s_world (p_server (with_world w P)) = w"
  by (simp_all add: with_world_def on_server_def)

lemma on_server_conns [simp]: "hub_conns (on_server f H) = hub_conns H"
  by (simp add: on_server_def)

text \<open>The streams: requests and Enroll touch neither the connections nor the registry.\<close>

lemma on_store_registry [simp]: "s_registry (snd (on_store f s)) = s_registry s"
  by (simp add: on_store_def split_def)

lemma Issue_registryD: "Issue m q s = (r, s') \<Longrightarrow> s_registry s' = s_registry s"
  using Issue_registry [of m q s] by simp

lemma serve_v1_registry [simp]: "s_registry (snd (serve_v1 A r s)) = s_registry s"
proof -
  have reads: "s_registry (snd (handleListHosts A r s)) = s_registry s" "s_registry (snd (handleGetHost A k r s)) = s_registry s"
    "s_registry (snd (handleListTokens A r s)) = s_registry s" "s_registry (snd (handleGetCommand A k r s)) = s_registry s"
    "s_registry (snd (handleListCommands A r s)) = s_registry s"
    "s_registry (snd (handleListSecurityEvents A r s)) = s_registry s"
    "s_registry (snd (handleRevokeToken A k r s)) = s_registry s" for k
    by (auto simp: handleListHosts_def handleGetHost_def handleListTokens_def handleGetCommand_def
        handleListCommands_def handleListSecurityEvents_def handleRevokeToken_def on_store_def Let_def split_def
        split: option.splits sum.splits)
  have "s_registry (snd (handleIssueToken A r s)) = s_registry s"
    by (auto simp: handleIssueToken_def on_store_def Let_def split_def split: option.splits sum.splits)
  moreover have "s_registry (snd (handleIssueCommand A r s)) = s_registry s"
    by (auto simp: handleIssueCommand_def dest: Issue_registryD split: prod.splits sum.splits option.splits)
  ultimately show ?thesis
    using reads by (auto simp: serve_v1_def run_v1_def split: routed.splits v1_handler.splits)
qed

lemma Routes_registry [simp]: "s_registry (snd (Routes A tm r s)) = s_registry s"
  by (auto simp: Routes_def bearerAuth_cases handleHealthz_def split: routed.splits)

lemma hub_step_conns:
  assumes "hub_step E l H H'" "l \<in> {LReceive st, LServe st, LJob j}" "hub_conns H' k = Some c" "cn_running c"
  shows "\<exists>c0. hub_conns H k = Some c0 \<and> cn_running c0"
  using assms
  by (cases rule: hub_step.cases)
     (auto simp: set_conn_def Connect_return_def serve_error_def serve_message_def serve_tick_def on_server_def
       split: if_splits prod.splits option.splits)

lemma no_streams_step:
  "hub_step E l H H' \<Longrightarrow> l \<in> {LReceive st, LServe st, LJob j} \<Longrightarrow> no_streams H \<Longrightarrow> no_streams H'"
  unfolding no_streams_def using hub_step_conns by blast

lemma proc_hub_ok: "proc_step S x P P' \<Longrightarrow> hub_ok (p_hub P) \<Longrightarrow> hub_ok (p_hub P')"
proof (induction rule: proc_step.induct)
  case (listening P cfg a)
  then show ?case by (simp add: new_hub_ok)
next
  case (stream_begins P W peer st H)
  then show ?case by (auto intro: hub_step_ok)
next
  case (stream_goes_on P W l st j H)
  then show ?case by (auto intro: hub_step_ok)
qed (auto elim!: hub_ok_same simp: on_server_def)

text \<open>The phases of a server that has started, of one that shuts down, and of one whose listeners are closed.\<close>

fun started :: "phase \<Rightarrow> bool" where
  "started Waiting = True"
| "started (Draining d) = True"
| "started (Closing d) = True"
| "started ClosingPool = True"
| "started (Exited n) = (n = 0)"
| "started _ = False"

fun stopping :: "phase \<Rightarrow> bool" where
  "stopping (Draining d) = True"
| "stopping (Closing d) = True"
| "stopping ClosingPool = True"
| "stopping (Exited n) = (n = 0)"
| "stopping _ = False"

fun closing :: "phase \<Rightarrow> bool" where
  "closing (Closing d) = True"
| "closing ClosingPool = True"
| "closing (Exited n) = (n = 0)"
| "closing _ = False"

text \<open>The configuration is complete, the database answered, and a start of the CA gave \<open>a\<close>.\<close>

definition startable :: "'f start \<Rightarrow> Config \<Rightarrow> ca \<Rightarrow> bool" where
  "startable S cfg a \<longleftrightarrow>
     Load (cl_open (su_cli S)) (cl_decode (su_cli S)) (su_path S) = Inr cfg \<and>
     db_Connect (su_cli S) (cfg_PostgresDSN cfg) = None \<and>
     (\<exists>s s'. New_CA (su_crypto S) (cfg_DataDir cfg) (cfg_GRPCServerDNSNames cfg) s = (Inr a, s'))"

fun start_ok :: "'f start \<Rightarrow> phase \<Rightarrow> bool" where
  "start_ok S (Connecting cfg) \<longleftrightarrow> Load (cl_open (su_cli S)) (cl_decode (su_cli S)) (su_path S) = Inr cfg"
| "start_ok S (MakingCA cfg) \<longleftrightarrow>
     Load (cl_open (su_cli S)) (cl_decode (su_cli S)) (su_path S) = Inr cfg \<and> db_Connect (su_cli S) (cfg_PostgresDSN cfg) = None"
| "start_ok S (Listening cfg a) \<longleftrightarrow> startable S cfg a"
| "start_ok S _ \<longleftrightarrow> True"

definition nothing_served :: "process \<Rightarrow> bool" where
  "nothing_served P \<longleftrightarrow> p_grpc P = Down \<and> p_http P = Down \<and> p_requests P = [] \<and> p_enrolls P = [] \<and>
     hub_conns (p_hub P) = (\<lambda>_. None)"

text \<open>The configuration names a webhook that \<open>http.NewRequest\<close> refuses.\<close>

definition bad_webhook :: "'f start \<Rightarrow> bool" where
  "bad_webhook S \<longleftrightarrow> (\<exists>cfg. Load (cl_open (su_cli S)) (cl_decode (su_cli S)) (su_path S) = Inr cfg \<and>
     cfg_AlertWebhookURL cfg \<noteq> [] \<and> \<not> e_url_ok (su_env S) (cfg_AlertWebhookURL cfg))"

definition job_ok :: "'f start \<Rightarrow> process \<Rightarrow> bool" where
  "job_ok S P \<longleftrightarrow>
     (\<forall>url. p_job P = Some url \<longrightarrow>
        (\<exists>cfg. Load (cl_open (su_cli S)) (cl_decode (su_cli S)) (su_path S) = Inr cfg \<and> url = cfg_AlertWebhookURL cfg)) \<and>
     (p_sweep P = Some (Notifying SweepPanic) \<or> p_phase P = Panicked \<longrightarrow> bad_webhook S)"

lemma job_ok_same:
  "job_ok S P \<Longrightarrow> p_job P' = p_job P \<Longrightarrow> p_sweep P' = p_sweep P \<Longrightarrow> p_phase P' = p_phase P \<or> p_phase P' \<noteq> Panicked \<Longrightarrow> job_ok S P'"
  by (auto simp: job_ok_def)

lemma notify_all_panics: "notify_all ok url hs = (ns, SweepPanic) \<Longrightarrow> url \<noteq> [] \<and> \<not> ok url"
  by (cases "url = []"; cases "ok url") (auto simp: notify_all_silent notify_all_ok)

lemma RunOnce_panics: "RunOnce ok url w = ((ns, SweepPanic), w') \<Longrightarrow> url \<noteq> [] \<and> \<not> ok url"
  by (auto simp: RunOnce_def dest: notify_all_panics split: prod.splits sum.splits)

definition proc_ok :: "'f start \<Rightarrow> process \<Rightarrow> bool" where
  "proc_ok S P \<longleftrightarrow>
     start_ok S (p_phase P) \<and> hub_ok (p_hub P) \<and> job_ok S P \<and>
     (p_wiring P = None \<longrightarrow> nothing_served P \<and> \<not> started (p_phase P)) \<and>
     (\<forall>W. p_wiring P = Some W \<longrightarrow>
        (\<exists>cfg a. startable S cfg a \<and> W = wire S cfg a) \<and> (started (p_phase P) \<or> p_phase P = Panicked)) \<and>
     (stopping (p_phase P) \<longrightarrow> p_signalled P) \<and>
     (closing (p_phase P) \<longrightarrow> p_grpc P = Closed \<and> p_http P = Closed) \<and>
     (GrpcStoppedGracefully \<in> set (p_log P) \<longrightarrow> p_grpc P = Closed \<and> no_streams (p_hub P) \<and> p_enrolls P = [])"

lemma proc_okI [intro]:
  assumes "start_ok S (p_phase P)" "hub_ok (p_hub P)" "job_ok S P"
    "p_wiring P = None \<Longrightarrow> nothing_served P \<and> \<not> started (p_phase P)"
    "\<And>W. p_wiring P = Some W \<Longrightarrow>
        (\<exists>cfg a. startable S cfg a \<and> W = wire S cfg a) \<and> (started (p_phase P) \<or> p_phase P = Panicked)"
    "stopping (p_phase P) \<Longrightarrow> p_signalled P" "closing (p_phase P) \<Longrightarrow> p_grpc P = Closed \<and> p_http P = Closed"
    "GrpcStoppedGracefully \<in> set (p_log P) \<Longrightarrow> p_grpc P = Closed \<and> no_streams (p_hub P) \<and> p_enrolls P = []"
  shows "proc_ok S P"
  using assms unfolding proc_ok_def by blast

lemma no_streams_simps [simp]:
  "no_streams (on_server f H) = no_streams H" "no_streams (p_hub (with_world w P)) = no_streams (p_hub P)"
  "no_streams (new_hub w errs)"
  by (simp_all add: no_streams_def new_hub_def)

lemma nothing_served_simps [simp]: "nothing_served (with_world w P) = nothing_served P"
  by (simp add: nothing_served_def)

lemma new_process_ok: "proc_ok S (new_process fs w)"
  by (simp add: proc_ok_def job_ok_def new_process_def new_hub_ok nothing_served_def) (simp add: new_hub_def)

lemma proc_job_ok: "proc_step S x P P' \<Longrightarrow> start_ok S (p_phase P) \<Longrightarrow> job_ok S P \<Longrightarrow> job_ok S P'"
proof (induction rule: proc_step.induct)
  case (connected P cfg)
  then show ?case by (auto simp: job_ok_def)
next
  case (sweep_queried P url ns r w)
  then show ?case using RunOnce_panics by (fastforce simp: job_ok_def bad_webhook_def)
next
  case (sweep_panics P)
  then show ?case by (simp add: job_ok_def)
next
  case (sweep_ends P r)
  then show ?case by (simp add: job_ok_def)
next
  case (sweep_begins P)
  then show ?case by (simp add: job_ok_def)
next
  case (job_ends P)
  then show ?case by (simp add: job_ok_def)
qed (erule job_ok_same; simp)+

lemma proc_step_ok: "proc_step S x P P' \<Longrightarrow> proc_ok S P \<Longrightarrow> proc_ok S P'"
proof -
  assume st: "proc_step S x P P'" and ok: "proc_ok S P"
  have hub: "hub_ok (p_hub P')" using st ok by (auto simp: proc_ok_def intro: proc_hub_ok)
  have job: "job_ok S P'" using st ok by (auto simp: proc_ok_def intro: proc_job_ok)
  have "p_alive P" using st by (rule dead_stays)
  with st ok hub job show ?thesis
  proof (induction rule: proc_step.induct)
    case (ca_made P cfg a w fs)
    then have "startable S cfg a" unfolding startable_def by (auto simp: proc_ok_def)
    with ca_made show ?case by (auto simp: proc_ok_def nothing_served_def)
  next
    case (stream_goes_on P W l st j H)
    then show ?case using no_streams_step by (fastforce simp: proc_ok_def)
  qed (auto simp: proc_ok_def nothing_served_def p_alive_def)
qed

lemma proc_run_ok: "proc_run S P xs P' \<Longrightarrow> proc_ok S P \<Longrightarrow> proc_ok S P'"
  by (induction rule: proc_run.induct) (auto intro: proc_step_ok)

lemma reached_ok: "proc_run S (new_process fs w) xs P \<Longrightarrow> proc_ok S P"
  using proc_run_ok new_process_ok by blast

subsection \<open>What is served, and when\<close>

lemma startable_key:
  assumes "startable S cfg a"
  shows "cfg_APIKey cfg \<noteq> [] \<and> cfg_PostgresDSN cfg \<noteq> []"
proof -
  have "Load (cl_open (su_cli S)) (cl_decode (su_cli S)) (su_path S) = Inr cfg"
    using assms by (simp add: startable_def)
  then have "missing_field cfg = None" by (auto simp: Load_def Let_def split: sum.splits option.splits)
  then show ?thesis by (simp add: missing_field_iff)
qed

text \<open>C14: An agent, an enrollment or a request is there only when the configuration was read and complete, the
  database answered and the CA was made, and then the handlers have the API key of the configuration,
  which is not empty; a process that exits with status 1 has served nothing. Once the log says that
  the gRPC server stopped gracefully, no stream is registered or running and no Enroll is pending.\<close>

theorem served_only_when_started:
  assumes "proc_run S (new_process fs w) xs P"
  shows "(p_requests P \<noteq> [] \<or> p_enrolls P \<noteq> [] \<or> hub_conns (p_hub P) st \<noteq> None \<longrightarrow>
      (\<exists>cfg a. startable S cfg a \<and> p_wiring P = Some (wire S cfg a) \<and> ah_apiKey (wi_api (wire S cfg a)) = cfg_APIKey cfg
         \<and> cfg_APIKey cfg \<noteq> [] \<and> (started (p_phase P) \<or> p_phase P = Panicked)))
    \<and> (p_phase P = Exited 1 \<longrightarrow> nothing_served P)
    \<and> (GrpcStoppedGracefully \<in> set (p_log P) \<longrightarrow>
         p_enrolls P = [] \<and> no_streams (p_hub P) \<and> registry_Get (s_registry (p_server P)) h = None)"
proof (intro conjI impI)
  have ok: "proc_ok S P" using assms by (rule reached_ok)
  show "\<exists>cfg a. startable S cfg a \<and> p_wiring P = Some (wire S cfg a) \<and> ah_apiKey (wi_api (wire S cfg a)) = cfg_APIKey cfg
      \<and> cfg_APIKey cfg \<noteq> [] \<and> (started (p_phase P) \<or> p_phase P = Panicked)"
    if served: "p_requests P \<noteq> [] \<or> p_enrolls P \<noteq> [] \<or> hub_conns (p_hub P) st \<noteq> None"
  proof -
    obtain W where W: "p_wiring P = Some W"
      using served ok by (cases "p_wiring P") (auto simp: proc_ok_def nothing_served_def)
    then obtain cfg a where "startable S cfg a" "W = wire S cfg a" "started (p_phase P) \<or> p_phase P = Panicked"
      using ok unfolding proc_ok_def by blast
    with W show ?thesis using startable_key by (auto simp: wire_def)
  qed
  show "nothing_served P" if "p_phase P = Exited 1"
    using that ok by (cases "p_wiring P") (auto simp: proc_ok_def)
  assume log: "GrpcStoppedGracefully \<in> set (p_log P)"
  then show "p_enrolls P = []" and quiet: "no_streams (p_hub P)" using ok by (simp_all add: proc_ok_def)
  show "registry_Get (s_registry (p_server P)) h = None"
  proof (cases "registry_Get (s_registry (p_server P)) h")
    case (Some k)
    then obtain c where "hub_conns (p_hub P) k = Some c" "cn_running c"
      using ok hub_okD(3) unfolding proc_ok_def by blast
    with quiet show ?thesis by (simp add: no_streams_def)
  qed
qed

subsection \<open>The shutdown\<close>

text \<open>How many steps main has left before the process has ended.\<close>

fun steps_left :: "phase \<Rightarrow> nat" where
  "steps_left Loading = 8"
| "steps_left (Connecting cfg) = 7"
| "steps_left (MakingCA cfg) = 6"
| "steps_left (Listening cfg a) = 5"
| "steps_left Waiting = 4"
| "steps_left (Draining d) = 3"
| "steps_left (Closing d) = 2"
| "steps_left ClosingPool = 1"
| "steps_left _ = 0"

lemma steps_left_step:
  "proc_step S x P P' \<Longrightarrow> steps_left (p_phase P') + (if x = Main then 1 else 0) \<le> steps_left (p_phase P)"
  by (induction rule: proc_step.induct) simp_all

lemma steps_left_run:
  "proc_run S P xs P' \<Longrightarrow> steps_left (p_phase P') + count_list xs Main \<le> steps_left (p_phase P)"
proof (induction rule: proc_run.induct)
  case (goes x P P1 xs P2)
  then show ?case using steps_left_step [OF goes.hyps(1)] by (cases "x = Main") auto
qed simp

text \<open>What main waits for in each phase.\<close>

fun ready :: "process \<Rightarrow> phase \<Rightarrow> bool" where
  "ready P Waiting = p_signalled P"
| "ready P (Draining d) = (d \<le> p_now P)"
| "ready P (Closing d) = (d \<le> p_now P)"
| "ready P ClosingPool = (p_held P = 0)"
| "ready P _ = False"

lemma ready_steps:
  assumes "ready P (p_phase P)"
  shows "\<exists>P'. proc_step S Main P P' \<and> p_now P' = p_now P \<and> started (p_phase P')"
proof (cases "p_phase P")
  case Waiting
  then show ?thesis using assms proc_step.signal_seen [of P S] by fastforce
next
  case (Draining d)
  then show ?thesis using assms proc_step.forced [of P d S] by fastforce
next
  case (Closing d)
  then show ?thesis using assms proc_step.http_idle [of P d S] proc_step.http_deadline [of P d S]
    by (cases "p_requests P = []") fastforce+
next
  case ClosingPool
  then show ?thesis using assms proc_step.pool_closed [of P S] by fastforce
qed (use assms in simp_all)

definition shutting :: "instant \<Rightarrow> process \<Rightarrow> bool" where
  "shutting d P \<longleftrightarrow> p_signalled P \<and>
     (p_phase P = Draining d \<or> p_phase P = Panicked \<or>
      p_phase P \<in> {Closing d, ClosingPool, Exited 0} \<and> (GrpcStoppedGracefully \<in> set (p_log P) \<or> d \<le> p_now P))"

lemma shutting_step: "proc_step S x P P' \<Longrightarrow> shutting d P \<Longrightarrow> shutting d P'"
  by (induction rule: proc_step.induct) (auto simp: shutting_def p_alive_def)

lemma shutting_run: "proc_run S P xs P' \<Longrightarrow> shutting d P \<Longrightarrow> shutting d P'"
  by (induction rule: proc_run.induct) (auto intro: shutting_step)

text \<open>After the signal no sweep begins any more, and without one nothing panics.\<close>

definition sweepless :: "process \<Rightarrow> bool" where
  "sweepless P \<longleftrightarrow> p_signalled P \<and> p_sweep P = None \<and> p_phase P \<noteq> Panicked"

lemma sweepless_step: "proc_step S x P P' \<Longrightarrow> sweepless P \<Longrightarrow> sweepless P'"
  by (induction rule: proc_step.induct) (auto simp: sweepless_def)

lemma sweepless_run: "proc_run S P xs P' \<Longrightarrow> sweepless P \<Longrightarrow> sweepless P'"
  by (induction rule: proc_run.induct) (auto intro: sweepless_step)

lemma shutdown_begins:
  assumes "p_phase P0 = Waiting" "proc_step S Main P0 P"
  shows "P = P0\<lparr>p_phase := Draining (p_now P0 + shutdownTimeout)\<rparr>" "p_signalled P0"
    "shutting (p_now P0 + shutdownTimeout) P"
  using assms(2,1) by (auto elim!: main_stepE simp: shutting_def)


text \<open>C35: A graceful stop waits for the streams, and no handler ends its stream for it: while one agent stays
  connected, main makes no step until the ten seconds have passed (a sweep that panics meanwhile ends the
  process, but not main's wait). The same context is then given to
  the HTTP server, so its requests are not waited for at all: whatever is in flight is abandoned.\<close>

theorem agents_hold_shutdown:
  assumes "proc_run S (new_process fs w) xs P0" "p_phase P0 = Waiting" "proc_step S Main P0 P" "proc_run S P ys P'"
    "hub_conns (p_hub P') k = Some c" "cn_running c"
  shows "(p_now P' < p_now P0 + shutdownTimeout \<longrightarrow>
        (p_phase P' = Draining (p_now P0 + shutdownTimeout) \<or> p_phase P' = Panicked) \<and> \<not> (\<exists>P''. proc_step S Main P' P''))
    \<and> (p_phase P' = Closing (p_now P0 + shutdownTimeout) \<longrightarrow>
        p_now P0 + shutdownTimeout \<le> p_now P' \<and>
        (\<exists>P''. proc_step S Main P' P'' \<and> p_phase P'' = ClosingPool \<and> p_requests P'' = p_requests P'))"
proof -
  let ?d = "p_now P0 + shutdownTimeout"
  have sh: "shutting ?d P'" using assms(4) shutdown_begins(3) [OF assms(2,3)] by (rule shutting_run)
  have "proc_ok S P" using proc_step_ok [OF assms(3) reached_ok [OF assms(1)]] .
  then have ok: "proc_ok S P'" by (rule proc_run_ok [OF assms(4)])
  have busy: "\<not> no_streams (p_hub P')" using assms(5,6) by (auto simp: no_streams_def)
  with ok have "GrpcStoppedGracefully \<notin> set (p_log P')" by (auto simp: proc_ok_def)
  with sh have late: "p_phase P' = Draining ?d \<or> p_phase P' = Panicked \<or> ?d \<le> p_now P'" by (auto simp: shutting_def)
  show ?thesis
  proof (intro conjI impI)
    assume "p_now P' < ?d"
    with late show dr: "p_phase P' = Draining ?d \<or> p_phase P' = Panicked" by simp
    show "\<not> (\<exists>P''. proc_step S Main P' P'')"
      using dr busy \<open>p_now P' < ?d\<close> by (auto elim!: main_stepE)
  next
    assume cl: "p_phase P' = Closing ?d"
    then show l: "?d \<le> p_now P'" using late by simp
    show "\<exists>P''. proc_step S Main P' P'' \<and> p_phase P'' = ClosingPool \<and> p_requests P'' = p_requests P'"
    proof (cases "p_requests P' = []")
      case True
      show ?thesis by (rule exI, rule conjI, rule proc_step.http_idle [OF cl True]) simp
    next
      case False
      show ?thesis by (rule exI, rule conjI, rule proc_step.http_deadline [OF cl False l]) simp
    qed
  qed
qed

subsection \<open>Failures of the other goroutines\<close>

lemma broken_step:
  "proc_step S x P P' \<Longrightarrow> x \<noteq> OS \<Longrightarrow> p_phase P \<in> {Waiting, Panicked} \<Longrightarrow> \<not> p_signalled P \<Longrightarrow> p_http P = Broken \<Longrightarrow>
   p_phase P' \<in> {Waiting, Panicked} \<and> \<not> p_signalled P' \<and> p_http P' = Broken \<and> set (p_requests P') \<subseteq> set (p_requests P)"
  by (induction rule: proc_step.induct) auto

lemma broken_run:
  "proc_run S P xs P' \<Longrightarrow> OS \<notin> set xs \<Longrightarrow> p_phase P \<in> {Waiting, Panicked} \<Longrightarrow> \<not> p_signalled P \<Longrightarrow> p_http P = Broken \<Longrightarrow>
   p_phase P' \<in> {Waiting, Panicked} \<and> p_http P' = Broken \<and> set (p_requests P') \<subseteq> set (p_requests P)"
proof (induction rule: proc_run.induct)
  case (goes x P P1 xs P2)
  have "p_phase P1 \<in> {Waiting, Panicked} \<and> \<not> p_signalled P1 \<and> p_http P1 = Broken \<and> set (p_requests P1) \<subseteq> set (p_requests P)"
    using goes.prems by (intro broken_step [OF goes.hyps(1)]) auto
  with goes show ?case by auto
qed simp

text \<open>When the HTTP listener cannot be opened, as when its port is taken, or fails later, the process only
  logs it: without a signal main waits for ever, no request of the API is taken any more, and the exit
  status never tells.\<close>

theorem http_listener_lost:
  assumes "p_phase P = Waiting" "\<not> p_signalled P" "p_http P \<in> {Starting, Up}"
  shows "\<exists>P1. proc_step S Serving P P1 \<and> p_log P1 = p_log P @ [HttpApiError]
    \<and> (\<forall>xs P'. proc_run S P1 xs P' \<longrightarrow> OS \<notin> set xs \<longrightarrow>
         p_phase P' \<in> {Waiting, Panicked} \<and> p_http P' = Broken \<and> set (p_requests P') \<subseteq> set (p_requests P))"
proof -
  let ?P1 = "P\<lparr>p_http := Broken, p_log := p_log P @ [HttpApiError]\<rparr>"
  have "proc_step S Serving P ?P1" using assms by (intro proc_step.http_breaks) (simp_all add: p_alive_def)
  moreover have "p_phase P' \<in> {Waiting, Panicked} \<and> p_http P' = Broken \<and> set (p_requests P') \<subseteq> set (p_requests P)"
    if "proc_run S ?P1 xs P'" "OS \<notin> set xs" for xs P'
    using broken_run [OF that] assms by simp
  ultimately show ?thesis by (intro exI [of _ ?P1]) simp
qed

lemma sweep_decides:
  assumes "proc_step S Job P P'" "p_job P = Some url" "p_sweep P = Some Querying"
    "RunOnce (e_url_ok (su_env S)) url (s_world (p_server P)) = ((ns, r), w)"
  shows "P' = with_world w (P\<lparr>p_sweep := Some (Notifying r)\<rparr>)"
  using assms by (elim job_stepE) auto

lemma doomed_step:
  "proc_step S x P P' \<Longrightarrow> p_sweep P = Some (Notifying SweepPanic) \<Longrightarrow> p_sweep P' = Some (Notifying SweepPanic)"
  by (induction rule: proc_step.induct) auto

lemma doomed_run:
  "proc_run S P xs P' \<Longrightarrow> p_sweep P = Some (Notifying SweepPanic) \<Longrightarrow> p_sweep P' = Some (Notifying SweepPanic)"
  by (induction rule: proc_run.induct) (auto dest: doomed_step)

lemma doomed_job:
  assumes "proc_step S Job P P'" "p_sweep P = Some (Notifying SweepPanic)"
  shows "p_phase P' = Panicked"
  using assms by (elim job_stepE) auto

text \<open>The webhook of the configuration is not checked when it is loaded. With one that net/http refuses, the
  first sweep that finds a host which stopped sending heartbeats marks it, and from then on the next
  step of the job, whatever the rest of the process does before it, the signal and the shutdown
  included, is a panic that ends the process.\<close>

theorem bad_webhook_ends_server:
  assumes "p_alive P" "p_job P = Some url" "p_sweep P = Some Querying" "url \<noteq> []" "\<not> e_url_ok (su_env S) url"
    "w_fault (s_world (p_server P)) (w_tick (s_world (p_server P))) = NoFault"
    "r \<in> set (db_hosts (tables (p_server P)))"
    "stale (w_clock (s_world (p_server P)) (w_tick (s_world (p_server P)))) r"
  shows "\<exists>P1. proc_step S Job P P1 \<and> (\<forall>P2. proc_step S Job P P2 \<longrightarrow> P2 = P1)
    \<and> r\<lparr>hr_status := ''offline''\<rparr> \<in> set (db_hosts (tables (p_server P1)))
    \<and> (\<forall>xs P2. proc_run S P1 xs P2 \<longrightarrow> p_alive P2 \<longrightarrow>
         (\<exists>P3. proc_step S Job P2 P3) \<and> (\<forall>P3. proc_step S Job P2 P3 \<longrightarrow>
            p_phase P3 = Panicked \<and> (\<forall>x P4. \<not> proc_step S x P3 P4)))"
proof -
  let ?w = "s_world (p_server P)" and ?ok = "e_url_ok (su_env S)"
  let ?t = "w_clock ?w (w_tick ?w)"
  from assms(7,8) obtain q qs where "filter (stale ?t) (db_hosts (w_db ?w)) = q # qs"
    by (cases "filter (stale ?t) (db_hosts (w_db ?w))") (auto simp: filter_empty_conv)
  then have "\<exists>ns w1. RunOnce ?ok url ?w = ((ns, SweepPanic), w1) \<and>
      db_hosts (w_db w1) = update_where (stale ?t) (\<lambda>r. r\<lparr>hr_status := ''offline''\<rparr>) (db_hosts (w_db ?w))"
    using assms(4-6) by (simp add: RunOnce_def exec_stmt_NoFault sweep_sql_def)
  then obtain ns w1 where run: "RunOnce ?ok url ?w = ((ns, SweepPanic), w1)"
    and rows: "db_hosts (w_db w1) = update_where (stale ?t) (\<lambda>r. r\<lparr>hr_status := ''offline''\<rparr>) (db_hosts (w_db ?w))" by blast
  let ?P1 = "with_world w1 (P\<lparr>p_sweep := Some (Notifying SweepPanic)\<rparr>)"
  let ?off = "\<lambda>r. if stale ?t r then r\<lparr>hr_status := ''offline''\<rparr> else r"
  have "?off r \<in> ?off ` set (db_hosts (w_db ?w))" using assms(7) by (rule imageI)
  then have marked: "r\<lparr>hr_status := ''offline''\<rparr> \<in> set (db_hosts (w_db w1))"
    unfolding rows update_where_def set_map if_P [OF assms(8)] .
  show ?thesis
  proof (rule exI [of _ ?P1], intro conjI allI impI)
    show "proc_step S Job P ?P1" using assms(1-3) run by (rule proc_step.sweep_queried)
    show "P2 = ?P1" if "proc_step S Job P P2" for P2
      using that assms(2,3) run by (rule sweep_decides)
    show "r\<lparr>hr_status := ''offline''\<rparr> \<in> set (db_hosts (tables (p_server ?P1)))"
      using marked by simp
  next
    fix xs P2 assume run2: "proc_run S ?P1 xs P2" and alive: "p_alive P2"
    have sw: "p_sweep P2 = Some (Notifying SweepPanic)" by (rule doomed_run [OF run2]) simp
    show "\<exists>P3. proc_step S Job P2 P3" using proc_step.sweep_panics [OF alive sw] by blast
    fix P3 assume "proc_step S Job P2 P3"
    then show ph: "p_phase P3 = Panicked" using sw by (rule doomed_job)
    show "\<not> proc_step S x P3 P4" for x P4
      using dead_stays [of S x P3 P4] ph by (auto simp: p_alive_def)
  qed
qed

subsection \<open>A server that starts\<close>

definition life_crypto :: crypto where
  "life_crypto = demo_crypto
     [(root_template 0 (2000 - time_Minute) (3000 + 10 * 365 * 24 * time_Hour), demo_key),
      (server_template 0 [''localhost''] [[127, 0, 0, 1]] (6000 - time_Minute) (7000 + 365 * 24 * time_Hour), demo_key)]"

definition life_start :: "unit start" where
  "life_start = \<lparr>su_cli = demo_cli, su_crypto = life_crypto, su_path = ''/etc/praetor/server.yaml'', su_env = demo_env,
     su_api = demo_api, su_send_errors = (\<lambda>_. None), su_enroll_method = ''/praetor.v1.AgentService/Enroll'',
     su_connect_method = ''/praetor.v1.AgentService/Connect''\<rparr>"

lemma life_crypto_fields:
  "c_NewKeyFromSeed life_crypto seed = ([], seed)" "c_ParseIP life_crypto ''127.0.0.1'' = Some [127, 0, 0, 1]"
  "c_ParseIP life_crypto ''localhost'' = None" "c_X509KeyPair_error life_crypto = (\<lambda>_ _. None)"
  "c_CreateCertificate life_crypto
     (root_template 0 (2000 - time_Minute) (3000 + 10 * 365 * 24 * time_Hour)) p (Ed25519Pub []) k = Inr []"
  "c_CreateCertificate life_crypto
     (server_template 0 [''localhost''] [[127, 0, 0, 1]] (6000 - time_Minute) (7000 + 365 * 24 * time_Hour)) p (Ed25519Pub []) k
     = Inr [0]"
  by (simp_all add: life_crypto_def demo_crypto_def demo_key_def root_template_def server_template_def)

lemmas life_run = boot_bind_def boot_wrap_def boot_return_def boot_sum_def Let_def calm_simps
  life_crypto_fields [simplified]

lemma life_ca:
  "\<exists>a w fs. New_CA life_crypto ''./tmp/data'' [''localhost''] (calm_world empty_db, calm_files 0x12) = (Inr a, w, fs)"
proof -
  have "\<exists>crt. c_ParseCertificate life_crypto [] = Inr crt" by (simp add: life_crypto_def demo_crypto_def)
  then obtain crt where root: "make_root life_crypto (calm_world empty_db, f)
     = (Inr (replicate 32 0, [], crt), calm_at (Suc (Suc (Suc (Suc 0)))) empty_db, f)" for f
    by (auto simp: make_root_def life_run)
  have server: "make_server life_crypto [''localhost''] k crt (calm_at (Suc (Suc (Suc (Suc 0)))) empty_db, f)
     = (Inr (replicate 32 0, [0]), calm_at 8 empty_db, f)" for k crt f
    by (simp add: make_server_def parse_ip_or_nil_def life_run numeral_eq_Suc)
  show ?thesis
    using file_names_distinct
    by (simp add: New_CA_def Let_def boot_bind_def on_files_def os_MkdirAll_def os_Stat_def calm_files_def
        generate_def root server write_material_def writeFile_def os_WriteFile_def path_join_eq
        mode_0400_def mode_0444_def f_next_def key_pair_def life_crypto_fields boot_return_def)
qed

lemma proc_run_snoc: "proc_run S P xs P1 \<Longrightarrow> proc_step S x P1 P2 \<Longrightarrow> proc_run S P (xs @ [x]) P2"
  by (induction rule: proc_run.induct) (auto simp: proc_run_Cons)

definition life_begin :: process where
  "life_begin = new_process (calm_files 0x12) (calm_world empty_db)"

lemma life_waits:
  obtains xs P W where "proc_run life_start life_begin xs P" "p_phase P = Waiting" "\<not> p_signalled P" "p_grpc P = Up"
    "p_http P = Starting" "p_now P = 0" "p_requests P = []" "p_enrolls P = []" "p_wiring P = Some W"
    "hub_conns (p_hub P) = (\<lambda>_. None)" "p_log P = []"
proof -
  obtain a w fs where ca: "New_CA life_crypto ''./tmp/data'' [''localhost''] (calm_world empty_db, calm_files 0x12) = (Inr a, w, fs)"
    using life_ca by blast
  let ?cfg = "apply_defaults demo_config"
  have cfg: "Load (cl_open (su_cli life_start)) (cl_decode (su_cli life_start)) (su_path life_start) = Inr ?cfg"
    "db_Connect (su_cli life_start) (cfg_PostgresDSN ?cfg) = None" "cfg_DataDir ?cfg = ''./tmp/data''"
    "cfg_GRPCServerDNSNames ?cfg = [''localhost'']"
    by (simp_all add: life_start_def demo_cli_def Load_def missing_field_def apply_defaults_def demo_config_def
        or_default_def db_Connect_def)
  let ?P1 = "life_begin\<lparr>p_phase := Connecting ?cfg\<rparr>"
  let ?P2 = "?P1\<lparr>p_phase := MakingCA ?cfg, p_job := Some (cfg_AlertWebhookURL ?cfg)\<rparr>"
  let ?P3 = "with_world w (?P2\<lparr>p_phase := Listening ?cfg a, p_files := fs\<rparr>)"
  let ?P4 = "?P3\<lparr>p_phase := Waiting, p_hub := new_hub (s_world (p_server ?P3)) (su_send_errors life_start),
      p_wiring := Some (wire life_start ?cfg a), p_grpc := Up, p_http := Starting\<rparr>"
  have s1: "proc_step life_start Main life_begin ?P1"
    by (rule proc_step.loaded) (simp_all add: cfg life_begin_def new_process_def)
  have s2: "proc_step life_start Main ?P1 ?P2" by (rule proc_step.connected) (simp_all add: cfg)
  have "New_CA (su_crypto life_start) (cfg_DataDir ?cfg) (cfg_GRPCServerDNSNames ?cfg) (s_world (p_server ?P2), p_files ?P2) = (Inr a, w, fs)"
    using ca cfg by (simp add: life_start_def life_begin_def new_process_def new_hub_def)
  then have s3: "proc_step life_start Main ?P2 ?P3" by (intro proc_step.ca_made) simp_all
  have s4: "proc_step life_start Main ?P3 ?P4" by (rule proc_step.listening) simp
  have "proc_run life_start life_begin [Main, Main, Main, Main] ?P4"
    using s1 s2 s3 s4 by (auto simp: proc_run_Cons)
  then show ?thesis
    by (rule that [of _ ?P4]) (simp_all add: life_begin_def new_process_def new_hub_def)
qed

text \<open>The signalled server with one agent connected.\<close>

lemma life_connects:
  obtains xs P c where "proc_run life_start life_begin xs P" "p_phase P = Waiting" "p_signalled P" "p_now P = 0"
    "hub_conns (p_hub P) 7 = Some c" "cn_running c"
proof -
  obtain xs P W where r: "proc_run life_start life_begin xs P" "p_phase P = Waiting" "\<not> p_signalled P" "p_grpc P = Up"
    "p_http P = Starting" "p_now P = 0" "p_requests P = []" "p_enrolls P = []" "p_wiring P = Some W"
    "hub_conns (p_hub P) = (\<lambda>_. None)" by (rule life_waits)
  let ?H = "Connect_start 7 demo_peer (p_hub P)"
  let ?P1 = "P\<lparr>p_hub := ?H\<rparr>" and ?P2 = "P\<lparr>p_hub := ?H, p_signalled := True\<rparr>"
  have "hub_step (wi_env W) (LConnect 7 demo_peer) (p_hub P) ?H" using r by (intro hub_step.connect) simp
  then have s1: "proc_step life_start (Stream (LConnect 7 demo_peer)) P ?P1"
    using r by (intro proc_step.stream_begins) (simp_all add: p_alive_def mtlsStreamEnforcer_def demo_peer_def)
  have "proc_step life_start OS ?P1 (?P1\<lparr>p_signalled := True\<rparr>)"
    using r by (intro proc_step.signalled) (simp_all add: p_alive_def)
  then have s2: "proc_step life_start OS ?P1 ?P2" by simp
  have run: "proc_run life_start life_begin ((xs @ [Stream (LConnect 7 demo_peer)]) @ [OS]) ?P2"
    using proc_run_snoc [OF proc_run_snoc [OF r(1) s1] s2] .
  obtain c where "hub_conns ?H 7 = Some c" "cn_running c"
    by (simp add: Connect_start_def demo_identity on_server_def set_conn_def)
  with run r show ?thesis by (intro that [of _ ?P2 c]) simp_all
qed

theorem served_only_when_started_witness:
  "\<exists>xs P cfg a. proc_run life_start life_begin xs P \<and> startable life_start cfg a \<and> p_wiring P = Some (wire life_start cfg a)
     \<and> hub_conns (p_hub P) 7 \<noteq> None"
proof -
  obtain xs P c where r: "proc_run life_start life_begin xs P" "hub_conns (p_hub P) 7 = Some c" by (rule life_connects)
  then show ?thesis
    using served_only_when_started [of life_start "calm_files 0x12" "calm_world empty_db" xs P 7]
    unfolding life_begin_def by blast
qed


theorem agents_hold_shutdown_witness:
  "\<exists>xs P0 P. proc_run life_start life_begin xs P0 \<and> proc_step life_start Main P0 P \<and> p_signalled P
     \<and> p_phase P = Draining (10 * 1000000000) \<and> \<not> (\<exists>P''. proc_step life_start Main P P'')"
proof -
  obtain xs P0 c where r: "proc_run life_start life_begin xs P0" "p_phase P0 = Waiting" "p_signalled P0" "p_now P0 = 0"
    "hub_conns (p_hub P0) 7 = Some c" "cn_running c" by (rule life_connects)
  let ?P = "P0\<lparr>p_phase := Draining (p_now P0 + shutdownTimeout)\<rparr>"
  have s: "proc_step life_start Main P0 ?P" using r by (intro proc_step.signal_seen)
  have t: "shutdownTimeout = 10 * 1000000000" by (simp add: shutdownTimeout_def time_units)
  have "\<not> (\<exists>P''. proc_step life_start Main ?P P'')"
    using agents_hold_shutdown [OF r(1) [unfolded life_begin_def] r(2) s proc_run.stays, of 7 c] r t by simp
  with r s t show ?thesis by (intro exI [of _ xs] exI [of _ P0] exI [of _ ?P]) simp
qed

theorem http_listener_lost_witness:
  "\<exists>xs P P1. proc_run life_start life_begin xs P \<and> proc_step life_start Serving P P1 \<and> p_log P1 = [HttpApiError]"
proof -
  obtain xs P W where r: "proc_run life_start life_begin xs P" "p_phase P = Waiting" "\<not> p_signalled P" "p_http P = Starting"
    "p_log P = []" by (rule life_waits)
  then show ?thesis using http_listener_lost [of P life_start] by auto
qed

definition webhook_start :: "unit start" where
  "webhook_start = life_start\<lparr>su_env := demo_env\<lparr>e_url_ok := \<lambda>_. False\<rparr>\<rparr>"

definition webhook_process :: process where
  "webhook_process = (new_process (calm_files 0x12) (calm_world (empty_db\<lparr>db_hosts := [stale_host]\<rparr>)))
     \<lparr>p_phase := Waiting, p_job := Some ''://'', p_sweep := Some Querying\<rparr>"

theorem bad_webhook_ends_server_witness:
  "\<exists>P1 P2 P3. proc_step webhook_start Job webhook_process P1 \<and> proc_step webhook_start OS P1 P2 \<and> p_signalled P2
     \<and> proc_step webhook_start Job P2 P3 \<and> p_phase P3 = Panicked"
proof -
  let ?w = "s_world (p_server webhook_process)"
  have w: "?w = calm_world (empty_db\<lparr>db_hosts := [stale_host]\<rparr>)" "p_job webhook_process = Some ''://''"
    "p_sweep webhook_process = Some Querying" "p_alive webhook_process"
    by (simp_all add: webhook_process_def new_process_def new_hub_def p_alive_def)
  have nok: "\<not> e_url_ok (su_env webhook_start) ''://''" by (simp add: webhook_start_def)
  have "\<exists>P1. proc_step webhook_start Job webhook_process P1
    \<and> (\<forall>P2. proc_step webhook_start Job webhook_process P2 \<longrightarrow> P2 = P1)
    \<and> stale_host\<lparr>hr_status := ''offline''\<rparr> \<in> set (db_hosts (tables (p_server P1)))
    \<and> (\<forall>xs P2. proc_run webhook_start P1 xs P2 \<longrightarrow> p_alive P2 \<longrightarrow>
         (\<exists>P3. proc_step webhook_start Job P2 P3) \<and> (\<forall>P3. proc_step webhook_start Job P2 P3 \<longrightarrow>
            p_phase P3 = Panicked \<and> (\<forall>x P4. \<not> proc_step webhook_start x P3 P4)))"
    by (rule bad_webhook_ends_server [OF w(4,2,3) _ nok])
       (simp_all add: w(1) calm_simps stale_def stale_host_fields HeartbeatTimeout_def)
  then obtain P1 where s1: "proc_step webhook_start Job webhook_process P1"
    and all: "\<And>xs P2. proc_run webhook_start P1 xs P2 \<Longrightarrow> p_alive P2 \<Longrightarrow>
         (\<exists>P3. proc_step webhook_start Job P2 P3) \<and> (\<forall>P3. proc_step webhook_start Job P2 P3 \<longrightarrow> p_phase P3 = Panicked)" by blast
  have ph: "p_phase P1 = Waiting" using s1 w(3) by (elim job_stepE) (auto simp: webhook_process_def)
  let ?P2 = "P1\<lparr>p_signalled := True\<rparr>"
  have s2: "proc_step webhook_start OS P1 ?P2" using ph by (intro proc_step.signalled) (simp_all add: p_alive_def)
  then have r2: "proc_run webhook_start P1 [OS] ?P2" by (auto simp: proc_run_Cons)
  have "p_alive ?P2" using ph by (simp add: p_alive_def)
  from all [OF r2 this] obtain P3 where "proc_step webhook_start Job ?P2 P3" "p_phase P3 = Panicked" by blast
  with s1 s2 show ?thesis by (intro exI [of _ P1] exI [of _ ?P2] exI [of _ P3]) simp
qed

end
