(* ===== verification/History.thy ===== *)
theory History
  imports System
begin

text \<open>
  What the tables remember. No statement deletes a row or moves one: each table keeps its rows in
  place, updates some of them and adds new ones at the end. What an update may change is an order on
  rows, one for each table, and the whole is one more relation that every statement respects. So
  everything the system does, in any order and with any faults, only adds to its history.
\<close>

subsection \<open>Tables that grow\<close>

definition grows :: "('r \<Rightarrow> 'r \<Rightarrow> bool) \<Rightarrow> 'r list \<Rightarrow> 'r list \<Rightarrow> bool" where
  "grows E rs rs' \<longleftrightarrow> (\<exists>ys zs. rs' = ys @ zs \<and> list_all2 E rs ys)"

locale row_order =
  fixes E :: "'r \<Rightarrow> 'r \<Rightarrow> bool"
  assumes E_refl: "E r r"
    and E_trans: "E a b \<Longrightarrow> E b c \<Longrightarrow> E a c"
begin

lemma grows_append: "grows E rs (rs @ zs)"
  unfolding grows_def by (rule exI [of _ rs], rule exI [of _ zs]) (simp add: list_all2_refl E_refl)

lemma grows_refl: "grows E rs rs"
  using grows_append [of rs "[]"] by simp

lemma grows_trans:
  assumes "grows E a b" "grows E b c"
  shows "grows E a c"
proof -
  from assms(1) obtain ys zs where b: "b = ys @ zs" "list_all2 E a ys" by (auto simp: grows_def)
  from assms(2) obtain us vs where c: "c = us @ vs" "list_all2 E b us" by (auto simp: grows_def)
  from c(2) b(1) obtain u1 u2 where u: "us = u1 @ u2" "list_all2 E ys u1" by (auto simp: list_all2_append1)
  have "list_all2 E a u1" using E_trans b(2) u(2) by (rule list_all2_trans)
  then show ?thesis unfolding grows_def c(1) u(1) by (intro exI [of _ u1] exI [of _ "u2 @ vs"]) simp
qed

lemma grows_update:
  assumes "\<And>r. r \<in> set rs \<Longrightarrow> P r \<Longrightarrow> E r (f r)"
  shows "grows E rs (update_where P f rs)"
proof -
  have "list_all2 E rs (update_where P f rs)"
    using assms by (induction rs) (auto simp: update_where_def E_refl)
  then show ?thesis unfolding grows_def by (intro exI [of _ "update_where P f rs"] exI [of _ "[]"]) simp
qed

lemma grows_member:
  assumes "grows E rs rs'" "r \<in> set rs"
  shows "\<exists>r' \<in> set rs'. E r r'"
proof -
  from assms(1) obtain ys zs where ys: "rs' = ys @ zs" "list_all2 E rs ys" by (auto simp: grows_def)
  from assms(2) obtain i where i: "i < length rs" "rs ! i = r" by (auto simp: in_set_conv_nth)
  then have "E r (ys ! i)" "i < length ys" using ys(2) by (auto simp: list_all2_conv_all_nth)
  then show ?thesis using ys(1) nth_mem by fastforce
qed

end

subsection \<open>What an update may change\<close>

definition host_evolves :: "host_row \<Rightarrow> host_row \<Rightarrow> bool" where
  "host_evolves r r' \<longleftrightarrow> hr_id r' = hr_id r \<and> hr_first_seen_at r' = hr_first_seen_at r"

definition identity_evolves :: "identity_row \<Rightarrow> identity_row \<Rightarrow> bool" where
  "identity_evolves r r' \<longleftrightarrow>
     r' = r \<or> (ir_revoked_at r = None \<and>
       r' = r\<lparr>ir_revoked_at := ir_revoked_at r', ir_revoked_reason := ir_revoked_reason r'\<rparr>)"

text \<open>The version names the content: a row whose version is the same is the same.\<close>

definition config_evolves :: "config_row \<Rightarrow> config_row \<Rightarrow> bool" where
  "config_evolves r r' \<longleftrightarrow> cr_host_id r' = cr_host_id r \<and> (r' = r \<or> cr_config_version r < cr_config_version r')"

definition command_evolves :: "command_row \<Rightarrow> command_row \<Rightarrow> bool" where
  "command_evolves r r' \<longleftrightarrow>
     xr_id r' = xr_id r \<and> xr_host_id r' = xr_host_id r \<and> xr_tier r' = xr_tier r \<and>
     xr_command_json r' = xr_command_json r \<and> xr_reason r' = xr_reason r \<and>
     xr_issued_by r' = xr_issued_by r \<and> xr_issued_at r' = xr_issued_at r \<and>
     (r' = r \<or> xr_completed_at r' \<noteq> None \<and> (xr_status r' = ''completed'' \<or> xr_status r' = ''failed''))"

interpretation host_rows: row_order host_evolves
  by unfold_locales (simp_all add: host_evolves_def)

interpretation identity_rows: row_order identity_evolves
proof
  show "identity_evolves r r" for r by (simp add: identity_evolves_def)
  show "identity_evolves a c" if "identity_evolves a b" "identity_evolves b c" for a b c
    using that by (cases a, cases b, cases c) (auto simp: identity_evolves_def)
qed

interpretation config_rows: row_order config_evolves
  by unfold_locales (auto simp: config_evolves_def)

interpretation command_rows: row_order command_evolves
proof
  show "command_evolves r r" for r by (simp add: command_evolves_def)
  show "command_evolves a c" if "command_evolves a b" "command_evolves b c" for a b c
    using that unfolding command_evolves_def by metis
qed

interpretation event_rows: row_order "(=) :: event_row \<Rightarrow> event_row \<Rightarrow> bool"
  by unfold_locales simp_all

definition remembers :: "db \<Rightarrow> db \<Rightarrow> bool" where
  "remembers d d' \<longleftrightarrow>
     grows host_evolves (db_hosts d) (db_hosts d') \<and>
     grows identity_evolves (db_identities d) (db_identities d') \<and>
     grows config_evolves (db_configs d) (db_configs d') \<and>
     grows command_evolves (db_commands d) (db_commands d') \<and>
     grows (=) (db_events d) (db_events d')"

lemmas rows_refl = host_rows.grows_refl identity_rows.grows_refl config_rows.grows_refl command_rows.grows_refl
  event_rows.grows_refl

lemmas rows_append = host_rows.grows_append identity_rows.grows_append config_rows.grows_append
  command_rows.grows_append event_rows.grows_append

lemma remembers_tokens: "remembers d (d\<lparr>db_tokens := ts\<rparr>)"
  by (simp add: remembers_def rows_refl)

subsection \<open>Every statement remembers\<close>

lemma upsert_remembers: "upsert_sql n t d = Inr (u, d') \<Longrightarrow> remembers d d'"
  by (auto simp: upsert_sql_def Let_def remembers_def rows_refl rows_append host_evolves_def
      intro!: host_rows.grows_update split: if_splits option.splits)

lemma host_updates_remember:
  "update_heartbeat_sql k x st t d = Inr (u, d') \<Longrightarrow> remembers d d'"
  "sweep_sql t d = Inr (hs, d') \<Longrightarrow> remembers d d'"
  by (auto simp: update_heartbeat_sql_def sweep_sql_def remembers_def rows_refl host_evolves_def
      intro!: host_rows.grows_update)

lemma tokens_remember:
  "insert_token_sql tk t d = Inr (c, d') \<Longrightarrow> remembers d d'"
  "claim_token_sql hash t d = Inr (r, d') \<Longrightarrow> remembers d d'"
  "mark_used_sql k h t d = Inr (m, d') \<Longrightarrow> remembers d d'"
  "set_used_by_sql h k t d = Inr (u, d') \<Longrightarrow> remembers d d'"
  "revoke_token_sql k t d = Inr (m, d') \<Longrightarrow> remembers d d'"
  by (auto simp: insert_token_sql_def claim_token_sql_def mark_used_sql_def set_used_by_sql_def revoke_token_sql_def
      Let_def remembers_def rows_refl split: if_splits list.splits)

lemma identities_remember:
  "insert_identity_sql i t d = Inr (q, d') \<Longrightarrow> remembers d d'"
  "revoke_identity_sql j reason t d = Inr (m, d') \<Longrightarrow> remembers d d'"
  by (auto simp: insert_identity_sql_def revoke_identity_sql_def Let_def remembers_def rows_refl rows_append
      identity_evolves_def intro!: identity_rows.grows_update split: if_splits)

lemma set_field_remembers: "set_field_sql h field v t d = Inr (u, d') \<Longrightarrow> remembers d d'"
  by (auto simp: set_field_sql_def set_column_def remembers_def rows_refl rows_append config_evolves_def
      intro!: config_rows.grows_update split: if_splits option.splits)

lemma commands_remember:
  "insert_command_sql c t d = Inr (u, d') \<Longrightarrow> remembers d d'"
  "complete_command_sql k code out err otr etr ms ae (complete_status ae) t d = Inr (u, d') \<Longrightarrow> remembers d d'"
  by (auto simp: insert_command_sql_def complete_command_sql_def complete_status_def remembers_def rows_refl rows_append
      command_evolves_def intro!: command_rows.grows_update split: if_splits)

lemma insert_event_remembers: "insert_event_sql h oc ty src j raw t d = Inr (u, d') \<Longrightarrow> remembers d d'"
  by (auto simp: insert_event_sql_def remembers_def rows_refl rows_append split: if_splits)

interpretation memory: store_effects remembers
proof (unfold_locales, goal_cases)
  case (1 d)
  show ?case by (simp add: remembers_def rows_refl)
next
  case (2 a b d)
  then show ?case
    unfolding remembers_def
    by (blast intro: host_rows.grows_trans identity_rows.grows_trans config_rows.grows_trans command_rows.grows_trans
        event_rows.grows_trans)
qed (blast intro: upsert_remembers host_updates_remember tokens_remember identities_remember set_field_remembers
    commands_remember insert_event_remembers)+

subsection \<open>What stays true however the system goes on\<close>

lemma grows_eq: "grows (=) rs rs' \<longleftrightarrow> (\<exists>zs. rs' = rs @ zs)"
  by (auto simp: grows_def list.rel_eq)

lemma remembersD:
  assumes "remembers d d'"
  shows "r \<in> set (db_hosts d) \<Longrightarrow> \<exists>r' \<in> set (db_hosts d'). host_evolves r r'"
    "i \<in> set (db_identities d) \<Longrightarrow> \<exists>i' \<in> set (db_identities d'). identity_evolves i i'"
    "c \<in> set (db_configs d) \<Longrightarrow> \<exists>c' \<in> set (db_configs d'). config_evolves c c'"
    "x \<in> set (db_commands d) \<Longrightarrow> \<exists>x' \<in> set (db_commands d'). command_evolves x x'"
    "\<exists>new. db_events d' = db_events d @ new"
  using assms unfolding remembers_def grows_eq
  by (blast intro: host_rows.grows_member identity_rows.grows_member config_rows.grows_member command_rows.grows_member)+

text \<open>C11: Whatever the server, its agents, its clients and the commands do, in any order and with any faults:
  a host stays known with the time it was first seen, an issued identity stays on record and a
  revocation is never undone or altered, a changed configuration has a higher version, a command keeps
  what was issued and never returns from its result to pending, and the security events only grow.\<close>

theorem tables_remember:
  assumes "tables (system_run S ops s) = d'" "tables s = d"
  shows "(\<forall>r \<in> set (db_hosts d). \<exists>r' \<in> set (db_hosts d'). hr_id r' = hr_id r \<and> hr_first_seen_at r' = hr_first_seen_at r)
    \<and> (\<forall>i \<in> set (db_identities d). \<exists>i' \<in> set (db_identities d'). ir_id i' = ir_id i \<and> ir_host_id i' = ir_host_id i
         \<and> ir_cert_pem i' = ir_cert_pem i \<and> ir_cert_fingerprint i' = ir_cert_fingerprint i
         \<and> ir_expires_at i' = ir_expires_at i \<and> (ir_revoked_at i \<noteq> None \<longrightarrow> i' = i))
    \<and> (\<forall>c \<in> set (db_configs d). \<exists>c' \<in> set (db_configs d'). cr_host_id c' = cr_host_id c
         \<and> (c' = c \<or> cr_config_version c < cr_config_version c'))
    \<and> (\<forall>x \<in> set (db_commands d). \<exists>x' \<in> set (db_commands d'). xr_id x' = xr_id x \<and> xr_host_id x' = xr_host_id x
         \<and> xr_tier x' = xr_tier x \<and> xr_command_json x' = xr_command_json x \<and> xr_reason x' = xr_reason x
         \<and> xr_issued_by x' = xr_issued_by x \<and> xr_issued_at x' = xr_issued_at x
         \<and> (x' = x \<or> xr_status x' \<in> {''completed'', ''failed''}))
    \<and> (\<exists>new. db_events d' = db_events d @ new)"
proof -
  have R: "remembers d d'" using memory.system_run_R [of s S ops] assms by simp
  show ?thesis
  proof (intro conjI ballI)
    show "\<exists>r' \<in> set (db_hosts d'). hr_id r' = hr_id r \<and> hr_first_seen_at r' = hr_first_seen_at r"
      if "r \<in> set (db_hosts d)" for r
      using remembersD(1) [OF R that] by (simp add: host_evolves_def)
    show "\<exists>i' \<in> set (db_identities d'). ir_id i' = ir_id i \<and> ir_host_id i' = ir_host_id i
         \<and> ir_cert_pem i' = ir_cert_pem i \<and> ir_cert_fingerprint i' = ir_cert_fingerprint i
         \<and> ir_expires_at i' = ir_expires_at i \<and> (ir_revoked_at i \<noteq> None \<longrightarrow> i' = i)"
      if i: "i \<in> set (db_identities d)" for i
    proof -
      obtain i' where i': "i' \<in> set (db_identities d')" "identity_evolves i i'" using remembersD(2) [OF R i] by blast
      then show ?thesis by (intro bexI [of _ i']) (cases i, cases i', auto simp: identity_evolves_def)
    qed
    show "\<exists>c' \<in> set (db_configs d'). cr_host_id c' = cr_host_id c \<and> (c' = c \<or> cr_config_version c < cr_config_version c')"
      if "c \<in> set (db_configs d)" for c
      using remembersD(3) [OF R that] by (simp add: config_evolves_def)
    show "\<exists>x' \<in> set (db_commands d'). xr_id x' = xr_id x \<and> xr_host_id x' = xr_host_id x
         \<and> xr_tier x' = xr_tier x \<and> xr_command_json x' = xr_command_json x \<and> xr_reason x' = xr_reason x
         \<and> xr_issued_by x' = xr_issued_by x \<and> xr_issued_at x' = xr_issued_at x
         \<and> (x' = x \<or> xr_status x' \<in> {''completed'', ''failed''})"
      if "x \<in> set (db_commands d)" for x
      using remembersD(4) [OF R that] unfolding command_evolves_def by (elim bexE) (rule bexI, auto)
    show "\<exists>new. db_events d' = db_events d @ new" using remembersD(5) [OF R] .
  qed
qed

subsection \<open>The life of a command\<close>

lemma handleIssueCommand_accepted:
  assumes "handleIssueCommand A r s = (resp, s1)" "rs_Body resp = CommandAccepted k"
    "w_ulid (s_world s) (w_tick (s_world s) + 2) \<noteq> []"
  obtains req x where "check_command_request A (aq_Body r) = Inr req" "x \<in> set (db_commands (tables s1))" "xr_id x = k"
    "xr_host_id x = iq_HostID req" "xr_tier x = iq_Tier req" "xr_reason x = iq_Reason req"
    "xr_issued_by x = iq_IssuedBy req" "xr_status x = ''pending''"
proof -
  from assms(1,2) obtain req where req: "check_command_request A (aq_Body r) = Inr req"
    by (auto simp: handleIssueCommand_def writeError_def writeJSON_def split: sum.splits)
  obtain j e s' where i: "Issue (ah_marshal A) req s = ((j, e), s')" by (cases "Issue (ah_marshal A) req s") auto
  have "j \<noteq> []" if "e = None" using Issue_result [OF i assms(3)] that by blast
  then have "j \<noteq> []" "s' = s1" "j = k"
    using assms(1,2) req i
    by (auto simp: handleIssueCommand_def writeError_def writeJSON_def split: option.splits if_splits)
  then obtain x where x: "find_by xr_id k (db_commands (tables s1)) = Some x" "xr_host_id x = iq_HostID req"
    "xr_status x = ''pending''" "xr_tier x = iq_Tier req" "xr_reason x = iq_Reason req" "xr_issued_by x = iq_IssuedBy req"
    using Issue_result [OF i assms(3)] by blast
  moreover have "x \<in> set (db_commands (tables s1))" "xr_id x = k" using find_by_SomeD [OF x(1)] by simp_all
  ultimately show ?thesis using req that by blast
qed

lemma command_stays:
  assumes "remembers d d'" "db_ok d'" "x \<in> set (db_commands d)"
  obtains x' where "find_by xr_id (xr_id x) (db_commands d') = Some x'" "x' \<in> set (db_commands d')" "command_evolves x x'"
proof -
  obtain x' where x': "x' \<in> set (db_commands d')" "command_evolves x x'" using remembersD(4) [OF assms(1,3)] by blast
  have "find_by xr_id (xr_id x') (db_commands d') = Some x'"
    using db_ok_commands(1) [OF assms(2)] x'(1) by (rule find_by_distinct)
  moreover have "xr_id x' = xr_id x" using x'(2) by (simp add: command_evolves_def)
  ultimately show ?thesis using x' that by simp
qed

text \<open>C9: From the request to its result: a command that was accepted with status 202 under an ID stays what the
  request asked for (host, tier, reason, issuer), whatever happens meanwhile. Once a result with this ID
  has been recorded, a request for the command answers 200 with it and the status completed or failed,
  at any later time, and right after the result with the output and the exit code reported.\<close>

theorem command_lifecycle:
  assumes "db_ok (tables s)" "handleIssueCommand A r s = (resp, s1)" "rs_Body resp = CommandAccepted k"
    "w_ulid (s_world s) (w_tick (s_world s) + 2) \<noteq> []"
    "s2 = system_run S ops1 s1" "w_fault (s_world s2) (w_tick (s_world s2)) = NoFault"
    "cs_CommandId res = k" "in_i32 (cs_ExitCode res)" "s3 = run_job E (ResultJob res) s2"
    "s4 = system_run S ops2 s3" "w_fault (s_world s4) (w_tick (s_world s4)) = NoFault"
  shows "\<exists>req c s5. check_command_request A (aq_Body r) = Inr req
    \<and> handleGetCommand A k q s4 = (writeJSON 200 (CommandBody c), s5)
    \<and> cp_ID c = k \<and> cp_HostID c = iq_HostID req \<and> cp_Tier c = iq_Tier req \<and> cp_Reason c = iq_Reason req
    \<and> cp_IssuedBy c = iq_IssuedBy req \<and> cp_Status c \<in> {''completed'', ''failed''}
    \<and> (ops2 = [] \<longrightarrow> cp_Stdout c = Some (cs_Stdout res) \<and> cp_ExitCode c = Some (cs_ExitCode res)
         \<and> (cp_Status c = ''failed'' \<longleftrightarrow> cs_Error res \<noteq> []))"
proof -
  obtain req x where x: "check_command_request A (aq_Body r) = Inr req" "x \<in> set (db_commands (tables s1))" "xr_id x = k"
    "xr_host_id x = iq_HostID req" "xr_tier x = iq_Tier req" "xr_reason x = iq_Reason req"
    "xr_issued_by x = iq_IssuedBy req" "xr_status x = ''pending''"
    using assms(2-4) by (rule handleIssueCommand_accepted)
  have "db_ok (tables s1)" using integrity.handleIssueCommand_R [of s A r] assms(1,2) by (simp add: keeps_ok_def)
  then have ok2: "db_ok (tables s2)" using integrity.system_run_R [of s1 S ops1] assms(5) by (simp add: keeps_ok_def)
  then have ok3: "db_ok (tables s3)" using integrity.run_job_R [of s2 E "ResultJob res"] assms(9) by (simp add: keeps_ok_def)
  then have ok4: "db_ok (tables s4)" using integrity.system_run_R [of s3 S ops2] assms(10) by (simp add: keeps_ok_def)
  have "remembers (tables s1) (tables s2)" using memory.system_run_R [of s1 S ops1] assms(5) by simp
  then obtain x2 where x2: "find_by xr_id k (db_commands (tables s2)) = Some x2" "command_evolves x x2"
    using ok2 x(2) x(3) by (elim command_stays) auto
  have s3: "s_world s3 = HandleResult res (s_world s2)" using assms(9) by (simp add: run_job_def)
  then obtain x3 where x3: "find_by xr_id k (db_commands (tables s3)) = Some x3" "xr_stdout x3 = Some (cs_Stdout res)"
    "xr_exit_code x3 = Some (cs_ExitCode res)" "xr_status x3 = (if cs_Error res \<noteq> [] then ''failed'' else ''completed'')"
    using HandleResult_any_command [OF assms(6,8), of x2] x2(1) assms(7) by auto
  have "remembers (tables s2) (tables s3)" using memory.run_job_R [of s2 E "ResultJob res"] assms(9) by simp
  then obtain y where y: "find_by xr_id k (db_commands (tables s3)) = Some y" "command_evolves x2 y"
    using ok3 find_by_SomeD [OF x2(1)] by (elim command_stays [of _ _ x2]) auto
  have "remembers (tables s3) (tables s4)" using memory.system_run_R [of s3 S ops2] assms(10) by simp
  then obtain x4 where x4: "find_by xr_id k (db_commands (tables s4)) = Some x4" "command_evolves x3 x4"
    using ok4 find_by_SomeD [OF x3(1)] by (elim command_stays [of _ _ x3]) auto
  have "y = x3" using x3(1) y(1) by simp
  then have ev: "command_evolves x x3" using x2(2) y(2) command_rows.E_trans by blast
  have "command_evolves x x4" using ev x4(2) by (rule command_rows.E_trans)
  moreover have "xr_status x4 \<in> {''completed'', ''failed''}"
  proof -
    have "xr_status x3 \<in> {''completed'', ''failed''}" by (simp add: x3(4))
    then show ?thesis using x4(2) by (auto simp: command_evolves_def)
  qed
  moreover have "ops2 = [] \<Longrightarrow> x4 = x3" using x3(1) x4(1) assms(10) by simp
  moreover have "\<exists>s5. handleGetCommand A k q s4 = (writeJSON 200 (CommandBody (toCommandResponse x4)), s5)"
    using x4(1) assms(11)
    by (simp add: handleGetCommand_def on_store_def command_Get_def exec_query_NoFault wrap_err_def key_row_def)
  moreover have "xr_status x3 = ''failed'' \<longleftrightarrow> cs_Error res \<noteq> []" by (simp add: x3(4))
  ultimately show ?thesis
    using x x3(1-3) by (intro exI [of _ req] exI [of _ "toCommandResponse x4"])
      (auto simp: toCommandResponse_def command_evolves_def)
qed

theorem tables_remember_witness:
  "\<exists>x'. x' \<in> set (db_commands (tables (system_run demo_system [Sweep, RunJob (ResultJob demo_result)] (demo_server [sample_command]))))
     \<and> xr_id x' = ''C1'' \<and> xr_host_id x' = ''H1'' \<and> (x' = sample_command \<or> xr_status x' \<in> {''completed'', ''failed''})"
proof -
  have "sample_command \<in> set (db_commands (tables (demo_server [sample_command])))"
    by (simp add: demo_server_def calm_world_def)
  then have "\<exists>x' \<in> set (db_commands (tables (system_run demo_system [Sweep, RunJob (ResultJob demo_result)] (demo_server [sample_command])))).
      xr_id x' = xr_id sample_command \<and> xr_host_id x' = xr_host_id sample_command
      \<and> (x' = sample_command \<or> xr_status x' \<in> {''completed'', ''failed''})"
    using tables_remember [of demo_system "[Sweep, RunJob (ResultJob demo_result)]" "demo_server [sample_command]", OF refl refl]
    by blast
  then show ?thesis by (auto simp: sample_command_def)
qed

text \<open>The environment between the operations: no fault.\<close>

definition calm_again :: operation where "calm_again = Environment (calm_world empty_db)"

theorem command_lifecycle_witness:
  "\<exists>k s1 c s5. handleIssueCommand demo_api demo_command_post (demo_server []) = (writeJSON 202 (CommandAccepted k), s1)
     \<and> handleGetCommand demo_api k demo_command_post
         (system_run demo_system [Sweep, calm_again]
           (run_job demo_env (ResultJob (demo_result\<lparr>cs_CommandId := k\<rparr>)) (system_run demo_system [Sweep, calm_again] s1)))
         = (writeJSON 200 (CommandBody c), s5)
     \<and> cp_HostID c = ''H1'' \<and> cp_Status c \<in> {''completed'', ''failed''}"
proof -
  obtain k s1 where run: "handleIssueCommand demo_api demo_command_post (demo_server []) = (writeJSON 202 (CommandAccepted k), s1)"
    by (rule demo_command_accepted)
  obtain req where req: "check_command_request demo_api (aq_Body demo_command_post) = Inr req" "iq_HostID req = ''H1''"
    using demo_command_checks by blast
  have ok: "db_ok (tables (demo_server []))"
    by (simp add: demo_server_def calm_world_def db_ok_def empty_db_def hosts_ok_def identities_ok_def refs_ok_def)
  have calm: "w_fault (s_world (snd (system_step demo_system calm_again s))) = (\<lambda>_. NoFault)" for s
    by (simp add: calm_again_def system_step_def calm_world_def)
  show ?thesis
    using command_lifecycle [where S = demo_system and ?ops1.0 = "[Sweep, calm_again]" and k = k and E = demo_env
        and res = "demo_result\<lparr>cs_CommandId := k\<rparr>" and ?ops2.0 = "[Sweep, calm_again]" and q = demo_command_post,
        OF ok run _ demo_server_ulid refl _ _ _ refl refl] run req
    by (auto simp: writeJSON_def calm demo_result_def in_i32_def)
qed

end
