(* ===== verification/Restart.thy ===== *)
theory Restart
  imports Lifecycle History
begin

text \<open>
  The process and the tables. Every step of the process of Lifecycle respects what the statements
  respect, so the contracts of the tables hold for the streams and requests as they really
  interleave, and, since a new process starts on the tables that the last one left, across any number
  of ends, crashes and restarts of the server. Last, what becomes of a command that was stored and not
  sent: only \<open>Issue\<close> sends commands, and it sends only what it has just inserted.
\<close>

subsection \<open>A start of the CA leaves the tables alone\<close>

definition leaves_tables :: "'a boot \<Rightarrow> bool" where
  "leaves_tables m \<longleftrightarrow> (\<forall>s. w_db (fst (snd (m s))) = w_db (fst s))"

named_theorems boot_frame

lemma boot_frame_bind [boot_frame]:
  assumes "leaves_tables m" "\<And>a. leaves_tables (k a)"
  shows "leaves_tables (boot_bind m k)"
  unfolding leaves_tables_def
proof
  fix s
  obtain r s1 where m: "m s = (r, s1)" by (cases "m s")
  then have "w_db (fst s1) = w_db (fst s)" using assms(1) unfolding leaves_tables_def by (metis snd_conv)
  then show "w_db (fst (snd (boot_bind m k s))) = w_db (fst s)"
    using m assms(2) by (cases r; cases s1) (simp_all add: boot_bind_def leaves_tables_def)
qed

lemma boot_frame_wrap [boot_frame]: "leaves_tables m \<Longrightarrow> leaves_tables (boot_wrap p m)"
  by (auto simp: leaves_tables_def boot_wrap_def split: prod.splits sum.splits) (metis fst_conv snd_conv)+

lemma boot_frame_steps [boot_frame]:
  "leaves_tables (boot_return a)" "leaves_tables (boot_fail e)" "leaves_tables (boot_sum r)" "leaves_tables (on_files f)"
  "leaves_tables boot_now" "leaves_tables (on_world (rand_read n))" "leaves_tables (on_world randomSerial)"
  by (auto simp: leaves_tables_def boot_return_def boot_fail_def boot_sum_def on_files_def boot_now_def on_world_def
      rand_read_def go_now_def randomSerial_def Let_def split: prod.splits sum.splits if_splits)

lemma boot_frame_parts [boot_frame]:
  "leaves_tables (ed25519_GenerateKey c)" "leaves_tables (key_pair c what x y)" "leaves_tables (write_material d a b e g)"
  "leaves_tables (make_root c)" "leaves_tables (make_server c names priv rcert)"
  by (auto simp: ed25519_GenerateKey_def key_pair_def write_material_def make_root_def make_server_def Let_def split_def
      intro!: boot_frame_bind boot_frame_wrap boot_frame_steps split: option.splits)

lemma New_CA_tables: "leaves_tables (New_CA c dataDir names)"
proof -
  have "leaves_tables (parse_material c a b d e)" for a b d e
    by (auto simp: parse_material_def intro!: boot_frame split: option.splits private_key.splits)
  then have "leaves_tables (load c d)" for d
    by (auto simp: load_def read_file_def intro!: boot_frame)
  moreover have "leaves_tables (generate c d names)" for d
    by (auto simp: generate_def Let_def split_def intro!: boot_frame)
  ultimately show ?thesis
    by (auto simp: New_CA_def Let_def intro!: boot_frame_bind boot_frame_steps)
qed

lemma New_CA_db: "New_CA c dataDir names (w, fs) = (r, w', fs') \<Longrightarrow> w_db w' = w_db w"
  using New_CA_tables [of c dataDir names] unfolding leaves_tables_def by (metis fst_conv snd_conv)

subsection \<open>Every step of the process respects the contract\<close>

context store_effects
begin

lemma stmt_run_R: "R d (stmt_run ops d)"
  by (induction ops arbitrary: d) (auto simp: R_refl intro: R_trans stmt_step_R)

lemma hub_step_R:
  assumes "hub_step E l H H'" "l \<noteq> LWorld"
  shows "R (tables (hub_server H)) (tables (hub_server H'))"
  using assms
proof (induction rule: hub_step.induct)
  case (connect H st p)
  then show ?case by (simp add: Connect_start_def set_conn_def on_server_def R_refl split: sum.splits)
next
  case (message H st c m rest)
  have "R (tables (hub_server H)) (w_db (snd (handleMessage (cn_host c) m (s_world (hub_server H)))))"
    by (rule handleMessage_R)
  then show ?case
    by (cases "handleMessage (cn_host c) m (s_world (hub_server H))")
       (simp add: serve_message_def set_conn_def on_server_def split_def)
next
  case (ticker H st c t)
  obtain e s where snd: "stream_Send st (Ping t) (hub_server H) = (e, s)" by (cases "stream_Send st (Ping t) (hub_server H)")
  then have "s_world s = s_world (hub_server H)" using stream_Send_world [of st "Ping t" "hub_server H"] by simp
  with snd show ?case by (cases e) (simp_all add: serve_tick_def Connect_return_def set_conn_def on_server_def R_refl)
next
  case (job H xs j ys)
  then show ?case by (simp add: on_server_def run_job_R)
next
  case (issue req H)
  then show ?case by (simp add: on_server_def Issue_R)
next
  case (push h H)
  then show ?case by (simp add: on_server_def R_refl)
qed (simp_all add: set_conn_def Connect_return_def serve_error_def on_server_def R_refl)

lemma agent_Enroll_R: "R (w_db w) (w_db (snd (agent_Enroll c a m p req w)))"
  by (simp add: agent_Enroll_def R_refl Enroll_R split: option.splits)

lemma proc_step_R:
  assumes "proc_step S x P P'"
  shows "R (tables (p_server P)) (tables (p_server P'))"
  using assms
proof (induction rule: proc_step.induct)
  case (ca_fails P cfg e w fs)
  then show ?case by (auto simp: R_refl dest: New_CA_db)
next
  case (ca_made P cfg a w fs)
  then show ?case by (auto simp: R_refl dest: New_CA_db)
next
  case (listening P cfg a)
  then show ?case by (simp add: new_hub_def R_refl)
next
  case (sweep_queried P url ns r w)
  then show ?case using RunOnce_R [of "s_world (p_server P)" "e_url_ok (su_env S)" url] by simp
next
  case (stream_begins P W peer st H)
  then show ?case using hub_step_R by fastforce
next
  case (stream_goes_on P W l st j H)
  then show ?case using hub_step_R by fastforce
next
  case (outside P w ops)
  then show ?case by (simp add: stmt_run_R)
next
  case (respond P W xs r ys tm)
  then show ?case by (simp add: on_server_def Routes_R)
next
  case (enrolled P W xs peer req ys)
  then show ?case by (simp add: on_server_def agent_Enroll_R)
qed (simp_all add: R_refl)

lemma proc_run_R: "proc_run S P xs P' \<Longrightarrow> R (tables (p_server P)) (tables (p_server P'))"
  by (induction rule: proc_run.induct) (auto simp: R_refl intro: R_trans proc_step_R)

end

subsection \<open>One life of the server after another\<close>

text \<open>A life may end anywhere: with an exit, a panic, or because the machine fails. The next one may have
  another configuration, and starts on the tables of the last with everything else of the world new.\<close>

inductive lives :: "'f start list \<Rightarrow> db \<Rightarrow> db \<Rightarrow> bool" where
  no_life: "lives [] d d"
| next_life: "lives Ss d (w_db w) \<Longrightarrow> proc_run S (new_process fs w) xs P \<Longrightarrow> lives (Ss @ [S]) d (tables (p_server P))"

context store_effects
begin

lemma lives_R: "lives Ss d d' \<Longrightarrow> R d d'"
proof (induction rule: lives.induct)
  case (next_life Ss d w S fs xs P)
  have "R (w_db w) (tables (p_server P))"
    using proc_run_R [OF next_life.hyps(2)] by (simp add: new_process_def new_hub_def)
  with next_life.IH show ?case by (rule R_trans)
qed (rule R_refl)

end

text \<open>C10: Whatever happens in the lives of the server, with its streams, requests, enrollments and sweeps
  interleaved as they come, with other processes on the same database, and however each life ends: the
  tables stay well-formed and only add to their history, and a token that was once used or revoked is
  claimed in no later life.\<close>

theorem restarts_keep_tables:
  assumes "lives Ss d d'" "db_ok d"
  shows "db_ok d' \<and> remembers d d'
    \<and> (\<forall>k r. find_by tr_id k (db_tokens d) = Some r \<longrightarrow>
         (\<exists>r'. find_by tr_id k (db_tokens d') = Some r' \<and> token_evolves r r'))
    \<and> (\<forall>k \<in> spent_token_ids d. \<forall>hash t org d2. claim_token_sql hash t d' \<noteq> Inr ((k, org), d2))"
proof -
  have ok: "db_ok d'" using integrity.lives_R [OF assms(1)] assms(2) by (simp add: keeps_ok_def)
  have ev: "tokens_evolve d d'" using assms(1) by (rule evolution.lives_R)
  have "claim_token_sql hash t d' \<noteq> Inr ((k, org), d2)" if "k \<in> spent_token_ids d" for k hash t org d2
  proof
    assume "claim_token_sql hash t d' = Inr ((k, org), d2)"
    then have "k \<notin> spent_token_ids d'" using ok by (rule claim_token_unspent)
    with that spent_token_ids_mono [OF assms(2) ev] show False by blast
  qed
  with ok ev memory.lives_R [OF assms(1)] show ?thesis by (simp add: tokens_evolve_def)
qed

definition spent_db :: db where
  "spent_db = empty_db\<lparr>db_tokens := [sample_token\<lparr>tr_used_at := Some 5\<rparr>]\<rparr>"

theorem restarts_keep_tables_witness:
  "\<exists>d'. lives [life_start, life_start] spent_db d' \<and> db_ok d'
     \<and> claim_token_sql (tr_token_hash sample_token) 0 d' \<noteq> Inr ((tr_id sample_token, ''default''), d')"
proof -
  have life: "\<exists>P. proc_run life_start (new_process fs (calm_world d)) [Outside] P
      \<and> tables (p_server P) = stmt_run [(SweepStale, 7)] d" for fs d
  proof -
    let ?P = "new_process fs (calm_world d)" and ?w = "calm_world (stmt_run [(SweepStale, 7)] d)"
    have "proc_step life_start Outside ?P (with_world ?w ?P)"
      by (rule proc_step.outside [where ops = "[(SweepStale, 7)]"])
         (simp_all add: p_alive_def new_process_def new_hub_def calm_world_def)
    then have "proc_run life_start ?P [Outside] (with_world ?w ?P)" by (auto simp: proc_run_Cons)
    then show ?thesis by (intro exI [of _ "with_world ?w ?P"]) (simp add: calm_world_def)
  qed
  have l0: "lives [] spent_db (w_db (calm_world spent_db))" by (simp add: calm_world_def lives.no_life)
  obtain P1 where P1: "proc_run life_start (new_process (calm_files 0x12) (calm_world spent_db)) [Outside] P1"
    using life by blast
  have l1: "lives ([] @ [life_start]) spent_db (tables (p_server P1))" by (rule lives.next_life [OF l0 P1])
  then have l1': "lives [life_start] spent_db (w_db (calm_world (tables (p_server P1))))" by (simp add: calm_world_def)
  obtain P2 where P2: "proc_run life_start (new_process (calm_files 0x12) (calm_world (tables (p_server P1)))) [Outside] P2"
    using life by blast
  have l2: "lives [life_start, life_start] spent_db (tables (p_server P2))" using lives.next_life [OF l1' P2] by simp
  have ok: "db_ok spent_db"
    by (simp add: spent_db_def db_ok_def empty_db_def hosts_ok_def identities_ok_def refs_ok_def sample_token_def)
  have "tr_id sample_token \<in> spent_token_ids spent_db" by (simp add: spent_token_ids_def spent_db_def)
  with restarts_keep_tables [OF l2 ok] l2 show ?thesis by blast
qed

subsection \<open>A command is sent when it is issued, or never\<close>

definition command_ids :: "db \<Rightarrow> string set" where
  "command_ids d = xr_id ` set (db_commands d)"

definition command_sent :: "string \<Rightarrow> server \<Rightarrow> bool" where
  "command_sent k s \<longleftrightarrow> (\<exists>st cr. (st, CommandRequest cr) \<in> set (s_sent s) \<and> cq_Id cr = k)"

lemma command_ids_mono: "remembers d d' \<Longrightarrow> command_ids d \<subseteq> command_ids d'"
proof
  fix k assume d: "remembers d d'" and "k \<in> command_ids d"
  then obtain r where r: "r \<in> set (db_commands d)" "xr_id r = k" by (auto simp: command_ids_def)
  moreover have "grows command_evolves (db_commands d) (db_commands d')" using d by (simp add: remembers_def)
  ultimately obtain r' where "r' \<in> set (db_commands d')" "command_evolves r r'" using command_rows.grows_member by blast
  moreover from this have "xr_id r' = k" using r(2) by (simp add: command_evolves_def)
  ultimately show "k \<in> command_ids d'" by (auto simp: command_ids_def)
qed

text \<open>Every command sent between two states has been stored between them.\<close>

definition sends_new :: "server \<Rightarrow> server \<Rightarrow> bool" where
  "sends_new s s' \<longleftrightarrow> (\<forall>k. command_sent k s' \<longrightarrow>
     command_sent k s \<or> k \<in> command_ids (tables s') - command_ids (tables s))"

lemma sends_new_same:
  "s_sent s' = s_sent s \<Longrightarrow> sends_new s s'"
  "commands_sent s' = commands_sent s \<Longrightarrow> sends_new s s'"
proof -
  show filtered: "sends_new s s'" if "commands_sent s' = commands_sent s"
  proof -
    have "x \<in> set (s_sent s)" if "x \<in> set (s_sent s')" "is_command x" for x
    proof -
      have "x \<in> set (commands_sent s')" using that by simp
      then show ?thesis unfolding \<open>commands_sent s' = commands_sent s\<close> by simp
    qed
    then have "command_sent k s" if "command_sent k s'" for k
      using that unfolding command_sent_def by fastforce
    then show ?thesis by (simp add: sends_new_def)
  qed
  show "sends_new s s'" if "s_sent s' = s_sent s" using that by (intro filtered) simp
qed

lemma sends_new_one:
  "s_sent s' = s_sent s @ [(st, CommandRequest cr)] \<Longrightarrow> cq_Id cr \<notin> command_ids (tables s) \<Longrightarrow>
   cq_Id cr \<in> command_ids (tables s') \<Longrightarrow> sends_new s s'"
  by (auto simp: sends_new_def command_sent_def)

lemma Issue_stores:
  assumes "Issue marshal req s = ((k, e), s')" "k \<noteq> [] \<or> e = None"
  shows "k \<notin> command_ids (tables s)" "k \<in> command_ids (tables s')" "e \<noteq> None \<longrightarrow> s_sent s' = s_sent s"
proof -
  have "k \<notin> command_ids (tables s) \<and> k \<in> command_ids (tables s') \<and> (e \<noteq> None \<longrightarrow> s_sent s' = s_sent s)"
    using assms(1)
  proof (cases rule: Issue_cases)
    case (push p j s4 x)
    let ?c = "pending_row k req j"
    have ins: "insert_command_sql ?c (w_clock x (w_tick x)) (w_db x) = Inr ((), tables s4)"
      using push(3) by (simp add: command_Insert_def exec_stmt_Inr)
    then have "k \<notin> command_ids (tables s)"
      using push(4) by (auto simp: insert_command_sql_def command_ids_def pending_row_def split: if_splits)
    moreover have "tables s' = tables s4"
      using push(9) push_command_world [of "iq_HostID req" "build_request k req p" s4] by simp
    then have "k \<in> command_ids (tables s')"
      by (simp add: insert_command_rows [OF ins] command_ids_def pending_row_def)
    moreover have "e \<noteq> None \<longrightarrow> s_sent s' = s_sent s4" using push_command_result [OF push(9)] by blast
    ultimately show ?thesis using push(5) by simp
  qed (use assms(2) in simp_all)
  then show "k \<notin> command_ids (tables s)" "k \<in> command_ids (tables s')" "e \<noteq> None \<longrightarrow> s_sent s' = s_sent s" by blast+
qed

lemma Issue_sends_new: "sends_new s (snd (Issue marshal req s))"
proof -
  obtain k e s' where i: "Issue marshal req s = ((k, e), s')"
    by (cases "Issue marshal req s", cases "fst (Issue marshal req s)") auto
  have "sends_new s s'"
  proof (cases "e = None")
    case True
    then obtain st p where st: "s_sent s' = s_sent s @ [(st, CommandRequest (build_request k req p))]"
      using Issue_sent i by blast
    have "k \<noteq> [] \<or> e = None" using True by simp
    from Issue_stores [OF i this] show ?thesis by (intro sends_new_one [OF st]) (simp_all add: build_request_def)
  next
    case False
    have "s_sent s' = s_sent s" using i by (cases rule: Issue_cases) (use False in \<open>auto dest: push_command_result\<close>)
    then show ?thesis by (rule sends_new_same)
  qed
  with i show ?thesis by simp
qed

lemma Routes_sends_new: "sends_new s (snd (Routes A tm r s))"
proof -
  have same: "s_sent (snd (handleListHosts A r s)) = s_sent s" "s_sent (snd (handleGetHost A k r s)) = s_sent s"
    "s_sent (snd (handleListTokens A r s)) = s_sent s" "s_sent (snd (handleGetCommand A k r s)) = s_sent s"
    "s_sent (snd (handleListCommands A r s)) = s_sent s"
    "s_sent (snd (handleListSecurityEvents A r s)) = s_sent s"
    "s_sent (snd (handleRevokeToken A k r s)) = s_sent s" for k
    by (auto simp: handleListHosts_def handleGetHost_def handleListTokens_def handleGetCommand_def
        handleListCommands_def handleListSecurityEvents_def handleRevokeToken_def on_store_def Let_def split_def
        split: option.splits sum.splits)
  have tok: "s_sent (snd (handleIssueToken A r s)) = s_sent s"
    by (auto simp: handleIssueToken_def on_store_def Let_def split_def split: option.splits sum.splits)
  have "sends_new s (snd (handleIssueCommand A r s))"
  proof (cases "check_command_request A (aq_Body r)")
    case (Inr req)
    then have "snd (handleIssueCommand A r s) = snd (Issue (ah_marshal A) req s)"
      by (auto simp: handleIssueCommand_def split: prod.splits option.splits)
    then show ?thesis by (simp add: Issue_sends_new)
  qed (simp add: handleIssueCommand_def sends_new_same)
  then have v1: "sends_new s (snd (serve_v1 A r s))"
    using same tok sends_new_same(1) [OF refl]
    by (auto simp: serve_v1_def run_v1_def sends_new_same(1) split: routed.splits v1_handler.splits)
  show ?thesis
    using v1 sends_new_same(1) [OF refl, of s]
    by (auto simp: Routes_def bearerAuth_cases handleHealthz_def split: routed.splits)
qed

lemma proc_step_sends: "proc_step S x P P' \<Longrightarrow> sends_new (p_server P) (p_server P')"
proof (induction rule: proc_step.induct)
  case (listening P cfg a)
  show ?case by (simp add: sends_new_def command_sent_def new_hub_def)
next
  case (stream_begins P W peer st H)
  then have "commands_sent (hub_server H) = commands_sent (p_server P)" by (intro hub_step_commands) auto
  then show ?case by (intro sends_new_same(2)) simp
next
  case (stream_goes_on P W l st j H)
  then have "commands_sent (hub_server H) = commands_sent (p_server P)" by (intro hub_step_commands) auto
  then show ?case by (intro sends_new_same(2)) simp
next
  case (respond P W xs r ys tm)
  show ?case by (simp add: on_server_def Routes_sends_new)
qed (simp_all add: sends_new_same(1) with_world_def on_server_def)

lemma proc_step_commands:
  assumes "proc_step S x P P'"
  shows "command_ids (tables (p_server P)) \<subseteq> command_ids (tables (p_server P'))"
    "sends_new (p_server P) (p_server P')"
  using command_ids_mono [OF memory.proc_step_R [OF assms]] proc_step_sends [OF assms] by simp_all

lemma sent_stored_run:
  "proc_run S P xs P' \<Longrightarrow> (\<forall>k. command_sent k (p_server P) \<longrightarrow> k \<in> command_ids (tables (p_server P))) \<Longrightarrow>
   command_sent k (p_server P') \<Longrightarrow> k \<in> command_ids (tables (p_server P'))"
proof (induction rule: proc_run.induct)
  case (goes x P P1 xs P2)
  then show ?case using proc_step_commands [OF goes.hyps(1)] unfolding sends_new_def by blast
qed blast

lemma stored_unsent_run:
  "proc_run S P xs P' \<Longrightarrow> k \<in> command_ids (tables (p_server P)) \<Longrightarrow> \<not> command_sent k (p_server P) \<Longrightarrow>
   k \<in> command_ids (tables (p_server P')) \<and> \<not> command_sent k (p_server P')"
proof (induction rule: proc_run.induct)
  case (goes x P P1 xs P2)
  then show ?case using proc_step_commands [OF goes.hyps(1)] unfolding sends_new_def by blast
qed blast

lemma new_process_unsent: "\<not> command_sent k (p_server (new_process fs w))" "tables (p_server (new_process fs w)) = w_db w"
  by (simp_all add: command_sent_def new_process_def new_hub_def)

text \<open>C37: A command that \<open>Issue\<close> stored but did not send, for instance because its host was away, and that it
  reported with an ID, as the API does to the client, is never delivered: whatever the process does
  after it, with agents that connect and reconnect and with further commands issued through the API,
  and whatever later lives of the server do, the command stays in the table and no message with its
  ID is ever sent.\<close>

theorem commands_never_redelivered:
  assumes "proc_run S (new_process fs w) ws P0" "Issue marshal req (p_server P0) = ((k, Some e), s1)" "k \<noteq> []"
    "p_server P = s1" "proc_run S P xs P'"
  shows "k \<in> command_ids (tables (p_server P')) \<and> \<not> command_sent k (p_server P')
    \<and> (\<forall>Ss w2 S2 fs2 ys Q. lives Ss (tables (p_server P')) (w_db w2) \<longrightarrow> proc_run S2 (new_process fs2 w2) ys Q \<longrightarrow>
         k \<in> command_ids (tables (p_server Q)) \<and> \<not> command_sent k (p_server Q))"
proof -
  note stored = Issue_stores [OF assms(2) disjI1 [OF assms(3)]]
  have "\<not> command_sent k (p_server P0)"
    using sent_stored_run [OF assms(1), of k] new_process_unsent(1) stored(1) by blast
  then have "k \<in> command_ids (tables s1) \<and> \<not> command_sent k s1" using stored(2,3) by (simp add: command_sent_def)
  then have here: "k \<in> command_ids (tables (p_server P')) \<and> \<not> command_sent k (p_server P')"
    using stored_unsent_run [OF assms(5)] assms(4) by simp
  moreover have "k \<in> command_ids (tables (p_server Q)) \<and> \<not> command_sent k (p_server Q)"
    if l: "lives Ss (tables (p_server P')) (w_db w2)" and r: "proc_run S2 (new_process fs2 w2) ys Q" for Ss w2 S2 fs2 ys Q
  proof -
    have "k \<in> command_ids (w_db w2)" using command_ids_mono [OF memory.lives_R [OF l]] here by blast
    then show ?thesis using stored_unsent_run [OF r] new_process_unsent by simp
  qed
  ultimately show ?thesis by blast
qed

text \<open>A command is issued for a host without a connection, and the server is started again.\<close>

definition away_process :: process where
  "away_process = new_process (calm_files 0x12) (calm_world (empty_db\<lparr>db_hosts := [plain_host ''H1'']\<rparr>))"

lemma away_issued:
  "\<exists>k e s1. Issue (\<lambda>_. Inr (JObj [])) demo_issue_request (p_server away_process) = ((k, Some e), s1) \<and> k \<noteq> []"
  by (simp add: Issue_def away_process_def new_process_def new_hub_def NewRegistry_def demo_issue_request_def on_store_def
      calm_simps Allow_def NewRateLimiter_def command_Insert_def insert_command_sql_def pending_row_def in_i32_def
      empty_db_def host_exists_def plain_host_def wrap_err_def push_command_def adapter_Get_def registry_GetSender_def
      build_request_def)

theorem commands_never_redelivered_witness:
  "\<exists>k e s1 Q. Issue (\<lambda>_. Inr (JObj [])) demo_issue_request (p_server away_process) = ((k, Some e), s1)
     \<and> proc_run life_start (new_process (calm_files 0x12) (calm_world (tables s1))) [Outside] Q
     \<and> k \<in> command_ids (tables (p_server Q)) \<and> \<not> command_sent k (p_server Q)"
proof -
  obtain k e s1 where i: "Issue (\<lambda>_. Inr (JObj [])) demo_issue_request (p_server away_process) = ((k, Some e), s1)"
    "k \<noteq> []" using away_issued by blast
  let ?P = "away_process\<lparr>p_hub := (p_hub away_process)\<lparr>hub_server := s1\<rparr>\<rparr>"
  let ?w = "calm_world (tables s1)"
  let ?Q0 = "new_process (calm_files 0x12) ?w"
  have r0: "proc_run life_start (new_process (calm_files 0x12) (calm_world (empty_db\<lparr>db_hosts := [plain_host ''H1'']\<rparr>))) []
      away_process" by (simp add: away_process_def)
  have "proc_step life_start Outside ?Q0 (with_world ?w ?Q0)"
    by (rule proc_step.outside [where ops = "[]"]) (simp_all add: p_alive_def new_process_def new_hub_def calm_world_def)
  then have r: "proc_run life_start ?Q0 [Outside] (with_world ?w ?Q0)" by (auto simp: proc_run_Cons)
  have l: "lives [] (tables (p_server ?P)) (w_db ?w)" by (simp add: calm_world_def lives.no_life)
  have "p_server ?P = s1" by simp
  from commands_never_redelivered [OF r0 i this proc_run.stays [of life_start]] l r
  have "k \<in> command_ids (tables (p_server (with_world ?w ?Q0))) \<and> \<not> command_sent k (p_server (with_world ?w ?Q0))"
    by blast
  with i(1) r show ?thesis by blast
qed

end
