(* ===== verification/Schema.thy ===== *)
theory Schema
  imports World
begin

text \<open>
  The schema the goose scripts of \<open>internal/db/migrations\<close> build: the statements of each script as
  data, what Postgres does with a schema for each of them (\<open>run_ddl\<close>), and when tables of values
  satisfy a schema (\<open>satisfies\<close>: column types with the range of the integer types, NOT NULL,
  primary keys, references and unique indexes with their WHERE conditions). The development's own
  invariant \<open>db_ok\<close> is compared with what the scripts declare. Goose, which reads the scripts in
  the order of their numbers and remembers in a table of its own which have run, is a third-party
  package; the runs below are sequences of scripts. The implicit index of a primary key and the
  sequence of a BIGSERIAL column are part of the column.
\<close>

subsection \<open>Tables, indexes and statements\<close>

datatype sql_type = TEXT | INTEGER | BIGINT | BIGSERIAL | TIMESTAMPTZ | BOOLEAN | JSONB | TEXT_ARRAY

datatype sql_val =
    SNull
  | SText string
  | SInt int
  | STime instant
  | SBool bool
  | SJson json
  | STexts "string list"

datatype default_expr = NOW | Literal sql_val

datatype on_delete = NoAction | Cascade

datatype col_opt =
    PrimaryKey
  | NotNull
  | Default default_expr
  | References string string on_delete

type_synonym column = "string \<times> sql_type \<times> col_opt list"

datatype row_cond = IsNull string | IsNotNull string | InTexts string "string list" | CondAnd row_cond row_cond

datatype direction = Asc | Desc

record index =
  ix_name :: string
  ix_table :: string
  ix_unique :: bool
  ix_columns :: "(string \<times> direction) list"
  ix_where :: "row_cond option"

record schema =
  sc_tables :: "(string \<times> column list) list"
  sc_indexes :: "index list"

datatype ddl =
    CreateTable string "column list"
  | CreateIndex index
  | DropTable bool string

datatype ddl_error =
    DuplicateRelation string
  | UndefinedTable string
  | UndefinedColumn string
  | NoKeyForReference string
  | DependentObjects string

definition empty_schema :: schema where
  "empty_schema = \<lparr>sc_tables = [], sc_indexes = []\<rparr>"

subsection \<open>What a statement does to a schema\<close>

fun cond_columns :: "row_cond \<Rightarrow> string list" where
  "cond_columns (IsNull c) = [c]"
| "cond_columns (IsNotNull c) = [c]"
| "cond_columns (InTexts c _) = [c]"
| "cond_columns (CondAnd p q) = cond_columns p @ cond_columns q"

definition relation_names :: "schema \<Rightarrow> string list" where
  "relation_names s = map fst (sc_tables s) @ map ix_name (sc_indexes s)"

fun opt_references :: "col_opt list \<Rightarrow> (string \<times> string) list" where
  "opt_references [] = []"
| "opt_references (References t c _ # os) = (t, c) # opt_references os"
| "opt_references (_ # os) = opt_references os"

definition col_references :: "column \<Rightarrow> (string \<times> string) list" where
  "col_references c = opt_references (snd (snd c))"

definition references_of :: "column list \<Rightarrow> (string \<times> string) list" where
  "references_of cs = concat (map col_references cs)"

definition is_primary :: "column \<Rightarrow> bool" where
  "is_primary c \<longleftrightarrow> PrimaryKey \<in> set (snd (snd c))"

text \<open>A reference needs the table, its column, and that the column is a key of it.\<close>

fun check_references :: "schema \<Rightarrow> (string \<times> string) list \<Rightarrow> ddl_error option" where
  "check_references s [] = None"
| "check_references s ((t, k) # rs) =
     (case map_of (sc_tables s) t of
        None \<Rightarrow> Some (UndefinedTable t)
      | Some cs \<Rightarrow>
          (case map_of cs k of
             None \<Rightarrow> Some (UndefinedColumn k)
           | Some c \<Rightarrow>
               if is_primary (k, c) then check_references s rs else Some (NoKeyForReference t)))"

definition index_columns :: "index \<Rightarrow> string list" where
  "index_columns i = map fst (ix_columns i) @ (case ix_where i of None \<Rightarrow> [] | Some p \<Rightarrow> cond_columns p)"

definition referenced_by_other :: "string \<Rightarrow> schema \<Rightarrow> bool" where
  "referenced_by_other t s \<longleftrightarrow>
     (\<exists>(n, cs) \<in> set (sc_tables s). n \<noteq> t \<and> t \<in> fst ` set (references_of cs))"

fun run_ddl :: "ddl \<Rightarrow> schema \<Rightarrow> ddl_error + schema" where
  "run_ddl (CreateTable t cs) s =
     (if t \<in> set (relation_names s) then Inl (DuplicateRelation t)
      else case check_references s (references_of cs) of
             Some e \<Rightarrow> Inl e
           | None \<Rightarrow> Inr (s\<lparr>sc_tables := sc_tables s @ [(t, cs)]\<rparr>))"
| "run_ddl (CreateIndex i) s =
     (case map_of (sc_tables s) (ix_table i) of
        None \<Rightarrow> Inl (UndefinedTable (ix_table i))
      | Some cs \<Rightarrow>
          if ix_name i \<in> set (relation_names s) then Inl (DuplicateRelation (ix_name i))
          else (case List.find (\<lambda>c. c \<notin> fst ` set cs) (index_columns i) of
                  Some c \<Rightarrow> Inl (UndefinedColumn c)
                | None \<Rightarrow> Inr (s\<lparr>sc_indexes := sc_indexes s @ [i]\<rparr>)))"
| "run_ddl (DropTable if_exists t) s =
     (if t \<notin> fst ` set (sc_tables s) then
        if if_exists then Inr s else Inl (UndefinedTable t)
      else if referenced_by_other t s then Inl (DependentObjects t)
      else Inr \<lparr>sc_tables = filter (\<lambda>(n, _). n \<noteq> t) (sc_tables s),
                sc_indexes = filter (\<lambda>i. ix_table i \<noteq> t) (sc_indexes s)\<rparr>)"

text \<open>A script runs in one transaction: its first error undoes it.\<close>

fun run_script :: "ddl list \<Rightarrow> schema \<Rightarrow> ddl_error + schema" where
  "run_script [] s = Inr s"
| "run_script (d # ds) s = (case run_ddl d s of Inl e \<Rightarrow> Inl e | Inr s' \<Rightarrow> run_script ds s')"

lemma run_script_append:
  "run_script (xs @ ys) s = (case run_script xs s of Inl e \<Rightarrow> Inl e | Inr s' \<Rightarrow> run_script ys s')"
  by (induction xs arbitrary: s) (auto split: sum.splits)

subsection \<open>The scripts\<close>

definition hosts_columns :: "column list" where
  "hosts_columns =
    [(''id'', TEXT, [PrimaryKey]),
     (''hostname'', TEXT, [NotNull]),
     (''os'', TEXT, [NotNull]),
     (''os_version'', TEXT, []),
     (''kernel'', TEXT, []),
     (''arch'', TEXT, [NotNull]),
     (''cpu_cores'', INTEGER, []),
     (''memory_bytes'', BIGINT, []),
     (''machine_id'', TEXT, []),
     (''ip_addresses'', JSONB, []),
     (''labels'', JSONB, []),
     (''first_seen_at'', TIMESTAMPTZ, [NotNull, Default NOW]),
     (''last_heartbeat_at'', TIMESTAMPTZ, []),
     (''status'', TEXT, [NotNull, Default (Literal (SText ''pending''))]),
     (''agent_version'', TEXT, []),
     (''org_id'', TEXT, [NotNull, Default (Literal (SText ''default''))])]"

definition create_hosts_up :: "ddl list" where
  "create_hosts_up =
     [CreateTable ''hosts'' hosts_columns,
      CreateIndex \<lparr>ix_name = ''hosts_machine_id_org_id_uidx'', ix_table = ''hosts'', ix_unique = True,
        ix_columns = [(''machine_id'', Asc), (''org_id'', Asc)],
        ix_where = Some (IsNotNull ''machine_id'')\<rparr>,
      CreateIndex \<lparr>ix_name = ''hosts_org_id_status_idx'', ix_table = ''hosts'', ix_unique = False,
        ix_columns = [(''org_id'', Asc), (''status'', Asc)], ix_where = None\<rparr>,
      CreateIndex \<lparr>ix_name = ''hosts_last_heartbeat_at_idx'', ix_table = ''hosts'', ix_unique = False,
        ix_columns = [(''last_heartbeat_at'', Asc)], ix_where = None\<rparr>]"

definition create_hosts_down :: "ddl list" where
  "create_hosts_down = [DropTable True ''hosts'']"

definition agent_identities_columns :: "column list" where
  "agent_identities_columns =
    [(''id'', BIGSERIAL, [PrimaryKey]),
     (''host_id'', TEXT, [NotNull, References ''hosts'' ''id'' Cascade]),
     (''cert_pem'', TEXT, [NotNull]),
     (''cert_fingerprint'', TEXT, [NotNull]),
     (''issued_at'', TIMESTAMPTZ, [NotNull, Default NOW]),
     (''expires_at'', TIMESTAMPTZ, [NotNull]),
     (''revoked_at'', TIMESTAMPTZ, []),
     (''revoked_reason'', TEXT, [])]"

definition create_agent_identities_up :: "ddl list" where
  "create_agent_identities_up =
     [CreateTable ''agent_identities'' agent_identities_columns,
      CreateIndex \<lparr>ix_name = ''agent_identities_fingerprint_uidx'', ix_table = ''agent_identities'',
        ix_unique = True, ix_columns = [(''cert_fingerprint'', Asc)],
        ix_where = Some (IsNull ''revoked_at'')\<rparr>,
      CreateIndex \<lparr>ix_name = ''agent_identities_host_issued_idx'', ix_table = ''agent_identities'',
        ix_unique = False, ix_columns = [(''host_id'', Asc), (''issued_at'', Desc)], ix_where = None\<rparr>]"

definition create_agent_identities_down :: "ddl list" where
  "create_agent_identities_down = [DropTable True ''agent_identities'']"

definition enrollment_tokens_columns :: "column list" where
  "enrollment_tokens_columns =
    [(''id'', TEXT, [PrimaryKey]),
     (''token_hash'', TEXT, [NotNull]),
     (''label'', TEXT, []),
     (''org_id'', TEXT, [NotNull, Default (Literal (SText ''default''))]),
     (''created_by'', TEXT, []),
     (''created_at'', TIMESTAMPTZ, [NotNull, Default NOW]),
     (''expires_at'', TIMESTAMPTZ, [NotNull]),
     (''used_at'', TIMESTAMPTZ, []),
     (''used_by_host_id'', TEXT, [References ''hosts'' ''id'' NoAction]),
     (''revoked_at'', TIMESTAMPTZ, [])]"

definition create_enrollment_tokens_up :: "ddl list" where
  "create_enrollment_tokens_up =
     [CreateTable ''enrollment_tokens'' enrollment_tokens_columns,
      CreateIndex \<lparr>ix_name = ''enrollment_tokens_active_idx'', ix_table = ''enrollment_tokens'',
        ix_unique = False, ix_columns = [(''org_id'', Asc), (''expires_at'', Asc)],
        ix_where = Some (CondAnd (IsNull ''used_at'') (IsNull ''revoked_at''))\<rparr>]"

definition create_enrollment_tokens_down :: "ddl list" where
  "create_enrollment_tokens_down = [DropTable True ''enrollment_tokens'']"

definition host_configs_columns :: "column list" where
  "host_configs_columns =
    [(''host_id'', TEXT, [PrimaryKey, References ''hosts'' ''id'' Cascade]),
     (''config_version'', BIGINT, [NotNull, Default (Literal (SInt 1))]),
     (''heartbeat_interval_seconds'', INTEGER, [NotNull, Default (Literal (SInt 30))]),
     (''metric_collection_interval_seconds'', INTEGER, [NotNull, Default (Literal (SInt 15))]),
     (''log_sources'', TEXT_ARRAY, [NotNull, Default (Literal (STexts []))]),
     (''updated_at'', TIMESTAMPTZ, [NotNull, Default NOW])]"

definition create_host_configs_up :: "ddl list" where
  "create_host_configs_up =
     [CreateTable ''host_configs'' host_configs_columns]"

definition create_host_configs_down :: "ddl list" where
  "create_host_configs_down = [DropTable False ''host_configs'']"

definition command_executions_columns :: "column list" where
  "command_executions_columns =
    [(''id'', TEXT, [PrimaryKey]),
     (''host_id'', TEXT, [NotNull, References ''hosts'' ''id'' Cascade]),
     (''tier'', INTEGER, [NotNull]),
     (''command_json'', JSONB, [NotNull]),
     (''reason'', TEXT, [NotNull]),
     (''issued_by'', TEXT, [NotNull, Default (Literal (SText ''''))]),
     (''issued_at'', TIMESTAMPTZ, [NotNull, Default NOW]),
     (''completed_at'', TIMESTAMPTZ, []),
     (''exit_code'', INTEGER, []),
     (''stdout'', TEXT, []),
     (''stderr'', TEXT, []),
     (''stdout_truncated'', BOOLEAN, [NotNull, Default (Literal (SBool False))]),
     (''stderr_truncated'', BOOLEAN, [NotNull, Default (Literal (SBool False))]),
     (''duration_ms'', BIGINT, []),
     (''error'', TEXT, []),
     (''status'', TEXT, [NotNull, Default (Literal (SText ''pending''))])]"

definition create_command_executions_up :: "ddl list" where
  "create_command_executions_up =
     [CreateTable ''command_executions'' command_executions_columns,
      CreateIndex \<lparr>ix_name = ''command_executions_host_id'', ix_table = ''command_executions'',
        ix_unique = False, ix_columns = [(''host_id'', Asc), (''issued_at'', Desc)], ix_where = None\<rparr>,
      CreateIndex \<lparr>ix_name = ''command_executions_status'', ix_table = ''command_executions'',
        ix_unique = False, ix_columns = [(''status'', Asc)],
        ix_where = Some (InTexts ''status'' [''pending'', ''running''])\<rparr>]"

definition create_command_executions_down :: "ddl list" where
  "create_command_executions_down = [DropTable False ''command_executions'']"

definition security_events_columns :: "column list" where
  "security_events_columns =
    [(''id'', BIGSERIAL, [PrimaryKey]),
     (''host_id'', TEXT, [NotNull, References ''hosts'' ''id'' Cascade]),
     (''occurred_at'', TIMESTAMPTZ, [NotNull]),
     (''received_at'', TIMESTAMPTZ, [NotNull, Default NOW]),
     (''type'', TEXT, [NotNull]),
     (''source'', TEXT, [NotNull, Default (Literal (SText ''''))]),
     (''data'', JSONB, [NotNull, Default (Literal (SJson (JObj [])))]),
     (''raw'', TEXT, [NotNull, Default (Literal (SText ''''))])]"

definition create_security_events_up :: "ddl list" where
  "create_security_events_up =
     [CreateTable ''security_events'' security_events_columns,
      CreateIndex \<lparr>ix_name = ''security_events_host_id_occurred'', ix_table = ''security_events'',
        ix_unique = False, ix_columns = [(''host_id'', Asc), (''occurred_at'', Desc)], ix_where = None\<rparr>,
      CreateIndex \<lparr>ix_name = ''security_events_type'', ix_table = ''security_events'',
        ix_unique = False, ix_columns = [(''type'', Asc)], ix_where = None\<rparr>,
      CreateIndex \<lparr>ix_name = ''security_events_occurred'', ix_table = ''security_events'',
        ix_unique = False, ix_columns = [(''occurred_at'', Desc)], ix_where = None\<rparr>]"

definition create_security_events_down :: "ddl list" where
  "create_security_events_down = [DropTable False ''security_events'']"

text \<open>The scripts in the order of their numbers, each with its reverse.\<close>

definition scripts :: "(ddl list \<times> ddl list) list" where
  "scripts =
     [(create_hosts_up, create_hosts_down),
      (create_agent_identities_up, create_agent_identities_down),
      (create_enrollment_tokens_up, create_enrollment_tokens_down),
      (create_host_configs_up, create_host_configs_down),
      (create_command_executions_up, create_command_executions_down),
      (create_security_events_up, create_security_events_down)]"

definition migrate_up :: "nat \<Rightarrow> ddl_error + schema" where
  "migrate_up n = run_script (concat (map fst (take n scripts))) empty_schema"

subsection \<open>When tables satisfy a schema\<close>

type_synonym row = "(string \<times> sql_val) list"

text \<open>The value of a column of a row; a column the row does not have reads as NULL.\<close>

definition col :: "string \<Rightarrow> row \<Rightarrow> sql_val" where
  "col c r = (case map_of r c of None \<Rightarrow> SNull | Some v \<Rightarrow> v)"

fun has_type :: "sql_type \<Rightarrow> sql_val \<Rightarrow> bool" where
  "has_type _ SNull = True"
| "has_type TEXT (SText _) = True"
| "has_type INTEGER (SInt i) = in_i32 i"
| "has_type BIGINT (SInt i) = in_i64 i"
| "has_type BIGSERIAL (SInt i) = in_i64 i"
| "has_type TIMESTAMPTZ (STime _) = True"
| "has_type BOOLEAN (SBool _) = True"
| "has_type JSONB (SJson _) = True"
| "has_type TEXT_ARRAY (STexts _) = True"
| "has_type _ _ = False"

fun cond_holds :: "row_cond \<Rightarrow> row \<Rightarrow> bool" where
  "cond_holds (IsNull c) r = (col c r = SNull)"
| "cond_holds (IsNotNull c) r = (col c r \<noteq> SNull)"
| "cond_holds (InTexts c ts) r = (\<exists>t \<in> set ts. col c r = SText t)"
| "cond_holds (CondAnd p q) r = (cond_holds p r \<and> cond_holds q r)"

text \<open>A BIGSERIAL column and a primary key are NOT NULL.\<close>

definition needs_value :: "column \<Rightarrow> bool" where
  "needs_value c \<longleftrightarrow> NotNull \<in> set (snd (snd c)) \<or> is_primary c \<or> fst (snd c) = BIGSERIAL"

definition value_ok :: "column \<Rightarrow> sql_val \<Rightarrow> bool" where
  "value_ok c v \<longleftrightarrow> has_type (fst (snd c)) v \<and> (needs_value c \<longrightarrow> v \<noteq> SNull)"

definition row_ok :: "column list \<Rightarrow> row \<Rightarrow> bool" where
  "row_ok cs r \<longleftrightarrow> list_all2 (\<lambda>c p. fst p = fst c \<and> value_ok c (snd p)) cs r"

definition keys_ok :: "column list \<Rightarrow> row list \<Rightarrow> bool" where
  "keys_ok cs rs \<longleftrightarrow> list_all (\<lambda>c. is_primary c \<longrightarrow> distinct (map (col (fst c)) rs)) cs"

text \<open>A reference is NULL or a value of the column it names.\<close>

definition references_ok :: "(string \<Rightarrow> row list) \<Rightarrow> column list \<Rightarrow> row list \<Rightarrow> bool" where
  "references_ok tab cs rs \<longleftrightarrow>
     list_all (\<lambda>c. list_all (\<lambda>(t, k).
       \<forall>r \<in> set rs. col (fst c) r = SNull \<or> col (fst c) r \<in> col k ` set (tab t)) (col_references c)) cs"

text \<open>A unique index: no two of the rows it holds agree in all its columns, and NULLs never agree.\<close>

definition index_entries :: "index \<Rightarrow> row list \<Rightarrow> sql_val list list" where
  "index_entries i rs =
     filter (\<lambda>k. SNull \<notin> set k)
       (map (\<lambda>r. map (\<lambda>c. col (fst c) r) (ix_columns i))
          (filter (\<lambda>r. case ix_where i of None \<Rightarrow> True | Some p \<Rightarrow> cond_holds p r) rs))"

definition index_ok :: "(string \<Rightarrow> row list) \<Rightarrow> index \<Rightarrow> bool" where
  "index_ok tab i \<longleftrightarrow> ix_unique i \<longrightarrow> distinct (index_entries i (tab (ix_table i)))"

definition table_ok :: "(string \<Rightarrow> row list) \<Rightarrow> string \<times> column list \<Rightarrow> bool" where
  "table_ok tab = (\<lambda>(t, cs).
     list_all (row_ok cs) (tab t) \<and> keys_ok cs (tab t) \<and> references_ok tab cs (tab t))"

definition satisfies :: "(string \<Rightarrow> row list) \<Rightarrow> schema \<Rightarrow> bool" where
  "satisfies tab s \<longleftrightarrow> list_all (table_ok tab) (sc_tables s) \<and> list_all (index_ok tab) (sc_indexes s)"

subsection \<open>The tables of the server as rows of values\<close>

definition opt_val :: "('a \<Rightarrow> sql_val) \<Rightarrow> 'a option \<Rightarrow> sql_val" where
  "opt_val f v = (case v of None \<Rightarrow> SNull | Some x \<Rightarrow> f x)"

definition host_vals :: "host_row \<Rightarrow> row" where
  "host_vals r =
     [(''id'', SText (hr_id r)), (''hostname'', SText (hr_hostname r)), (''os'', SText (hr_os r)),
      (''os_version'', opt_val SText (hr_os_version r)), (''kernel'', opt_val SText (hr_kernel r)),
      (''arch'', SText (hr_arch r)), (''cpu_cores'', opt_val SInt (hr_cpu_cores r)),
      (''memory_bytes'', opt_val SInt (hr_memory_bytes r)),
      (''machine_id'', opt_val SText (hr_machine_id r)),
      (''ip_addresses'', opt_val SJson (hr_ip_addresses r)), (''labels'', opt_val SJson (hr_labels r)),
      (''first_seen_at'', STime (hr_first_seen_at r)),
      (''last_heartbeat_at'', opt_val STime (hr_last_heartbeat_at r)),
      (''status'', SText (hr_status r)), (''agent_version'', opt_val SText (hr_agent_version r)),
      (''org_id'', SText (hr_org_id r))]"

definition identity_vals :: "identity_row \<Rightarrow> row" where
  "identity_vals r =
     [(''id'', SInt (ir_id r)), (''host_id'', SText (ir_host_id r)),
      (''cert_pem'', SText (ir_cert_pem r)), (''cert_fingerprint'', SText (ir_cert_fingerprint r)),
      (''issued_at'', STime (ir_issued_at r)), (''expires_at'', STime (ir_expires_at r)),
      (''revoked_at'', opt_val STime (ir_revoked_at r)),
      (''revoked_reason'', opt_val SText (ir_revoked_reason r))]"

definition token_vals :: "token_row \<Rightarrow> row" where
  "token_vals r =
     [(''id'', SText (tr_id r)), (''token_hash'', SText (tr_token_hash r)),
      (''label'', opt_val SText (tr_label r)), (''org_id'', SText (tr_org_id r)),
      (''created_by'', opt_val SText (tr_created_by r)), (''created_at'', STime (tr_created_at r)),
      (''expires_at'', STime (tr_expires_at r)), (''used_at'', opt_val STime (tr_used_at r)),
      (''used_by_host_id'', opt_val SText (tr_used_by_host_id r)),
      (''revoked_at'', opt_val STime (tr_revoked_at r))]"

definition config_vals :: "config_row \<Rightarrow> row" where
  "config_vals r =
     [(''host_id'', SText (cr_host_id r)), (''config_version'', SInt (cr_config_version r)),
      (''heartbeat_interval_seconds'', SInt (cr_heartbeat_interval_seconds r)),
      (''metric_collection_interval_seconds'', SInt (cr_metric_collection_interval_seconds r)),
      (''log_sources'', STexts (cr_log_sources r)), (''updated_at'', STime (cr_updated_at r))]"

definition command_vals :: "command_row \<Rightarrow> row" where
  "command_vals r =
     [(''id'', SText (xr_id r)), (''host_id'', SText (xr_host_id r)), (''tier'', SInt (xr_tier r)),
      (''command_json'', SJson (xr_command_json r)), (''reason'', SText (xr_reason r)),
      (''issued_by'', SText (xr_issued_by r)), (''issued_at'', STime (xr_issued_at r)),
      (''completed_at'', opt_val STime (xr_completed_at r)),
      (''exit_code'', opt_val SInt (xr_exit_code r)), (''stdout'', opt_val SText (xr_stdout r)),
      (''stderr'', opt_val SText (xr_stderr r)),
      (''stdout_truncated'', SBool (xr_stdout_truncated r)),
      (''stderr_truncated'', SBool (xr_stderr_truncated r)),
      (''duration_ms'', opt_val SInt (xr_duration_ms r)), (''error'', opt_val SText (xr_error r)),
      (''status'', SText (xr_status r))]"

definition event_vals :: "event_row \<Rightarrow> row" where
  "event_vals r =
     [(''id'', SInt (er_id r)), (''host_id'', SText (er_host_id r)),
      (''occurred_at'', STime (er_occurred_at r)), (''received_at'', STime (er_received_at r)),
      (''type'', SText (er_type r)), (''source'', SText (er_source r)), (''data'', SJson (er_data r)),
      (''raw'', SText (er_raw r))]"

definition db_rows :: "db \<Rightarrow> string \<Rightarrow> row list" where
  "db_rows d t =
     (if t = ''hosts'' then map host_vals (db_hosts d)
      else if t = ''agent_identities'' then map identity_vals (db_identities d)
      else if t = ''enrollment_tokens'' then map token_vals (db_tokens d)
      else if t = ''host_configs'' then map config_vals (db_configs d)
      else if t = ''command_executions'' then map command_vals (db_commands d)
      else if t = ''security_events'' then map event_vals (db_events d)
      else [])"

text \<open>What the scripts say beyond \<open>db_ok\<close>: the integer columns are in the range of their types.
  What \<open>db_ok\<close> says beyond the scripts: the sequences are ahead of the keys they gave.\<close>

definition fits :: "(int \<Rightarrow> bool) \<Rightarrow> int option \<Rightarrow> bool" where
  "fits p v \<longleftrightarrow> (case v of None \<Rightarrow> True | Some i \<Rightarrow> p i)"

definition ints_ok :: "db \<Rightarrow> bool" where
  "ints_ok d \<longleftrightarrow>
     (\<forall>r \<in> set (db_hosts d). fits in_i32 (hr_cpu_cores r) \<and> fits in_i64 (hr_memory_bytes r)) \<and>
     (\<forall>r \<in> set (db_identities d). in_i64 (ir_id r)) \<and>
     (\<forall>r \<in> set (db_configs d). in_i64 (cr_config_version r) \<and>
        in_i32 (cr_heartbeat_interval_seconds r) \<and> in_i32 (cr_metric_collection_interval_seconds r)) \<and>
     (\<forall>r \<in> set (db_commands d). in_i32 (xr_tier r) \<and> fits in_i32 (xr_exit_code r) \<and>
        fits in_i64 (xr_duration_ms r)) \<and>
     (\<forall>r \<in> set (db_events d). in_i64 (er_id r))"

definition sequences_ok :: "db \<Rightarrow> bool" where
  "sequences_ok d \<longleftrightarrow>
     (\<forall>r \<in> set (db_identities d). ir_id r < db_identity_seq d) \<and>
     (\<forall>r \<in> set (db_events d). er_id r < db_event_seq d)"

lemma opt_val_simps [simp]:
  "opt_val f None = SNull" "opt_val f (Some x) = f x"
  by (simp_all add: opt_val_def)

lemma has_type_opt_val [simp]:
  "has_type TEXT (opt_val SText t)" "has_type TIMESTAMPTZ (opt_val STime i)"
  "has_type JSONB (opt_val SJson j)"
  "has_type INTEGER (opt_val SInt n) = fits in_i32 n" "has_type BIGINT (opt_val SInt n) = fits in_i64 n"
  by (simp_all add: opt_val_def fits_def split: option.splits)

lemma row_ok_simps [simp]:
  "row_ok [] []"
  "row_ok ((n, t, os) # cs) ((m, v) # r) \<longleftrightarrow> m = n \<and> value_ok (n, t, os) v \<and> row_ok cs r"
  by (simp_all add: row_ok_def)

lemma col_simps [simp]:
  "col c [] = SNull" "col c ((m, v) # r) = (if m = c then v else col c r)"
  by (simp_all add: col_def)

lemmas value_simps = value_ok_def needs_value_def is_primary_def

subsection \<open>What the scripts build\<close>

text \<open>The tables and the indexes a script creates.\<close>

fun created_tables :: "ddl list \<Rightarrow> (string \<times> column list) list" where
  "created_tables [] = []"
| "created_tables (CreateTable t cs # ds) = (t, cs) # created_tables ds"
| "created_tables (_ # ds) = created_tables ds"

fun created_indexes :: "ddl list \<Rightarrow> index list" where
  "created_indexes [] = []"
| "created_indexes (CreateIndex i # ds) = i # created_indexes ds"
| "created_indexes (_ # ds) = created_indexes ds"

lemmas column_defs = hosts_columns_def agent_identities_columns_def enrollment_tokens_columns_def
  host_configs_columns_def command_executions_columns_def security_events_columns_def

lemmas up_defs = create_hosts_up_def create_agent_identities_up_def create_enrollment_tokens_up_def
  create_host_configs_up_def create_command_executions_up_def create_security_events_up_def

text \<open>The schema after the first \<open>n\<close> scripts.\<close>

definition schema_of :: "nat \<Rightarrow> schema" where
  "schema_of n = \<lparr>sc_tables = concat (map (\<lambda>p. created_tables (fst p)) (take n scripts)),
     sc_indexes = concat (map (\<lambda>p. created_indexes (fst p)) (take n scripts))\<rparr>"

lemma length_scripts [simp]: "length scripts = 6"
  by (simp add: scripts_def)

text \<open>What the runs evaluate to: each script takes its schema to the next one, its reverse takes that
  back, and the reverse of the first is refused while another table refers to \<open>hosts\<close>.\<close>

definition up_and_down :: "nat \<Rightarrow> bool" where
  "up_and_down k \<longleftrightarrow> run_script (fst (scripts ! k)) (schema_of k) = Inr (schema_of (Suc k)) \<and>
     run_script (snd (scripts ! k)) (schema_of (Suc k)) = Inr (schema_of k) \<and>
     (0 < k \<longrightarrow> run_script create_hosts_down (schema_of (Suc k)) = Inl (DependentObjects ''hosts''))"

lemma scripts_evaluated: "list_all up_and_down [0, 1, 2, 3, 4, 5]"
  by code_simp

lemma scripts_up_and_down: "k < 6 \<Longrightarrow> up_and_down k"
proof -
  assume "k < 6"
  then have "k \<in> set [0, 1, 2, 3, 4, 5]" by auto
  then show ?thesis using scripts_evaluated unfolding list_all_iff by blast
qed

lemma migrate_up_schema: "k \<le> 6 \<Longrightarrow> migrate_up k = Inr (schema_of k)"
proof (induction k)
  case 0
  show ?case by (simp add: migrate_up_def schema_of_def empty_schema_def)
next
  case (Suc k)
  then have "take (Suc k) scripts = take k scripts @ [scripts ! k]"
    by (simp add: take_Suc_conv_app_nth)
  with Suc show ?case
    using scripts_up_and_down [of k] by (simp add: up_and_down_def migrate_up_def run_script_append)
qed

text \<open>C29: In the order of their numbers the scripts run without an error, each reverse takes back exactly
  what its script did, and once a later script has run the reverse of the first is refused: the
  tables that refer to \<open>hosts\<close> have to go first.\<close>

theorem scripts_revert:
  assumes "k < length scripts" "migrate_up k = Inr s"
  shows "\<exists>s'. run_script (fst (scripts ! k)) s = Inr s' \<and> migrate_up (Suc k) = Inr s'
    \<and> run_script (snd (scripts ! k)) s' = Inr s
    \<and> (0 < k \<longrightarrow> run_script create_hosts_down s' = Inl (DependentObjects ''hosts''))"
  using assms scripts_up_and_down [of k] migrate_up_schema [of k] migrate_up_schema [of "Suc k"]
  by (simp add: up_and_down_def)

theorem scripts_revert_witness:
  "\<exists>s s'. run_script create_agent_identities_up s = Inr s' \<and> run_script create_agent_identities_down s' = Inr s
    \<and> run_script create_hosts_down s' = Inl (DependentObjects ''hosts'')"
  using scripts_revert [of 1] migrate_up_schema [of 1] by (auto simp: scripts_def)

subsection \<open>The constraints the scripts declare, and the invariant of the tables\<close>

lemma distinct_col:
  assumes "\<And>r. col c (f r) = g (key r)" "inj g"
  shows "distinct (map (col c \<circ> f) rs) \<longleftrightarrow> distinct (map key rs)"
proof -
  have "map (col c \<circ> f) rs = map g (map key rs)" by (simp add: assms(1))
  then show ?thesis using assms(2) by (simp add: distinct_map inj_on_subset [OF _ subset_UNIV] del: map_map)
qed

lemma inj_vals [simp]: "inj SText" "inj SInt"
  by (simp_all add: inj_def)

lemma keys_ok_simps [simp]:
  "keys_ok [] rs"
  "keys_ok ((c, t, os) # cs) rs \<longleftrightarrow> (PrimaryKey \<in> set os \<longrightarrow> distinct (map (col c) rs)) \<and> keys_ok cs rs"
  by (simp_all add: keys_ok_def is_primary_def)

definition refers :: "sql_val \<Rightarrow> sql_val set \<Rightarrow> bool" where
  "refers v vs \<longleftrightarrow> v = SNull \<or> v \<in> vs"

lemma references_ok_simps [simp]:
  "references_ok tab [] rs"
  "references_ok tab ((c, t, os) # cs) rs \<longleftrightarrow>
     list_all (\<lambda>(u, k). \<forall>r \<in> set rs. refers (col c r) (col k ` set (tab u))) (opt_references os) \<and>
     references_ok tab cs rs"
  by (simp_all add: references_ok_def col_references_def refers_def)

lemma db_rows_simps [simp]:
 "db_rows d ''hosts'' = map host_vals (db_hosts d)" 
 "db_rows d ''agent_identities'' = map identity_vals (db_identities d)" 
 "db_rows d ''enrollment_tokens'' = map token_vals (db_tokens d)" 
 "db_rows d ''host_configs'' = map config_vals (db_configs d)" 
 "db_rows d ''command_executions'' = map command_vals (db_commands d)" 
 "db_rows d ''security_events'' = map event_vals (db_events d)" 
  by (simp_all add: db_rows_def)

lemma host_refers:
  "refers (SText h) (col ''id'' ` set (db_rows d ''hosts'')) \<longleftrightarrow> host_exists h d"
  "refers (opt_val SText v) (col ''id'' ` set (db_rows d ''hosts'')) \<longleftrightarrow> (\<forall>h. v = Some h \<longrightarrow> host_exists h d)"
proof -
  have "col ''id'' ` set (db_rows d ''hosts'') = SText ` hr_id ` set (db_hosts d)"
    by (simp add: image_image host_vals_def)
  then show "refers (SText h) (col ''id'' ` set (db_rows d ''hosts'')) \<longleftrightarrow> host_exists h d"
  "refers (opt_val SText v) (col ''id'' ` set (db_rows d ''hosts'')) \<longleftrightarrow> (\<forall>h. v = Some h \<longrightarrow> host_exists h d)"
    by (auto simp: refers_def host_exists_iff opt_val_def simp del: db_rows_simps split: option.splits)
qed

lemma row_ok_vals:
  "row_ok hosts_columns (host_vals h) \<longleftrightarrow> fits in_i32 (hr_cpu_cores h) \<and> fits in_i64 (hr_memory_bytes h)"
  "row_ok agent_identities_columns (identity_vals i) \<longleftrightarrow> in_i64 (ir_id i)"
  "row_ok enrollment_tokens_columns (token_vals t)"
  "row_ok host_configs_columns (config_vals c) \<longleftrightarrow> in_i64 (cr_config_version c) \<and>
        in_i32 (cr_heartbeat_interval_seconds c) \<and> in_i32 (cr_metric_collection_interval_seconds c)"
  "row_ok command_executions_columns (command_vals x) \<longleftrightarrow> 
    in_i32 (xr_tier x) \<and> fits in_i32 (xr_exit_code x) \<and> fits in_i64 (xr_duration_ms x)"
  "row_ok security_events_columns (event_vals e) \<longleftrightarrow> in_i64 (er_id e)"
  by (simp_all add: column_defs host_vals_def identity_vals_def token_vals_def config_vals_def command_vals_def event_vals_def value_simps)

lemma keys_ok_vals:
  "keys_ok hosts_columns (map host_vals hs) \<longleftrightarrow> distinct (map hr_id hs)"
  "keys_ok agent_identities_columns (map identity_vals is) \<longleftrightarrow> distinct (map ir_id is)"
  "keys_ok enrollment_tokens_columns (map token_vals ts) \<longleftrightarrow> distinct (map tr_id ts)"
  "keys_ok host_configs_columns (map config_vals cs) \<longleftrightarrow> distinct (map cr_host_id cs)"
  "keys_ok command_executions_columns (map command_vals xs) \<longleftrightarrow> distinct (map xr_id xs)"
  "keys_ok security_events_columns (map event_vals es) \<longleftrightarrow> distinct (map er_id es)"
       apply (simp_all add: column_defs)
       apply (rule distinct_col [where g = SText]; simp add: host_vals_def)
      apply (rule distinct_col [where g = SInt]; simp add: identity_vals_def)
     apply (rule distinct_col [where g = SText]; simp add: token_vals_def)
    apply (rule distinct_col [where g = SText]; simp add: config_vals_def)
   apply (rule distinct_col [where g = SText]; simp add: command_vals_def)
  apply (rule distinct_col [where g = SInt]; simp add: event_vals_def)
  done

lemma host_columns_refer:
  "col ''host_id'' (identity_vals i) = SText (ir_host_id i)"
  "col ''host_id'' (config_vals c) = SText (cr_host_id c)"
  "col ''host_id'' (command_vals x) = SText (xr_host_id x)"
  "col ''host_id'' (event_vals e) = SText (er_host_id e)"
  "col ''used_by_host_id'' (token_vals t) = opt_val SText (tr_used_by_host_id t)"
  by (simp_all add: identity_vals_def token_vals_def config_vals_def command_vals_def event_vals_def)

lemma references_ok_vals:
  "references_ok (db_rows d) hosts_columns rs"
  "references_ok (db_rows d) agent_identities_columns (map identity_vals is) \<longleftrightarrow> 
    (\<forall>r \<in> set is. host_exists (ir_host_id r) d)"
  "references_ok (db_rows d) enrollment_tokens_columns (map token_vals ts) \<longleftrightarrow> 
    (\<forall>r \<in> set ts. \<forall>h. tr_used_by_host_id r = Some h \<longrightarrow> host_exists h d)"
  "references_ok (db_rows d) host_configs_columns (map config_vals cs) \<longleftrightarrow> 
    (\<forall>r \<in> set cs. host_exists (cr_host_id r) d)"
  "references_ok (db_rows d) command_executions_columns (map command_vals xs) \<longleftrightarrow>
    (\<forall>r \<in> set xs. host_exists (xr_host_id r) d)"
  "references_ok (db_rows d) security_events_columns (map event_vals es) \<longleftrightarrow> 
    (\<forall>r \<in> set es. host_exists (er_host_id r) d)"
  by (simp_all add: column_defs host_columns_refer host_refers del: db_rows_simps)

lemma entries_distinct:
  assumes ids: "distinct (map ident rs)"
    and held: "\<And>r. r \<in> set rs \<Longrightarrow> holds (f r) \<longleftrightarrow> key r \<noteq> None"
    and entry: "\<And>r k. key r = Some k \<Longrightarrow> ent (f r) = g k" "inj g" "\<And>k. SNull \<notin> set (g k)"
  shows "distinct (filter (\<lambda>k. SNull \<notin> set k) (map ent (filter holds (map f rs)))) \<longleftrightarrow>
    (\<forall>r \<in> set rs. \<forall>r' \<in> set rs. key r \<noteq> None \<and> key r = key r' \<longrightarrow> ident r = ident r')"
proof -
  let ?rs = "filter (\<lambda>r. key r \<noteq> None) rs"
  have "filter holds (map f rs) = map f ?rs"
    using held by (induction rs) auto
  then have "filter (\<lambda>k. SNull \<notin> set k) (map ent (filter holds (map f rs)))
      = filter (\<lambda>k. SNull \<notin> set k) (map (\<lambda>r. g (the (key r))) ?rs)"
    using entry(1) by (auto intro!: arg_cong [where f = "filter _"])
  also have "\<dots> = map (\<lambda>r. g (the (key r))) ?rs"
    using entry(3) by simp
  finally have e: "filter (\<lambda>k. SNull \<notin> set k) (map ent (filter holds (map f rs)))
      = map (\<lambda>r. g (the (key r))) ?rs" .
  have "distinct ?rs" "inj_on ident (set rs)" using ids by (simp_all add: distinct_map)
  then have "distinct (map (\<lambda>r. g (the (key r))) ?rs) \<longleftrightarrow>
      (\<forall>r \<in> set ?rs. \<forall>r' \<in> set ?rs. the (key r) = the (key r') \<longrightarrow> ident r = ident r')"
    by (auto simp: distinct_map inj_on_def inj_eq [OF entry(2)]) (metis option.sel)
  also have "\<dots> \<longleftrightarrow> (\<forall>r \<in> set ?rs. \<forall>r' \<in> set ?rs. key r = key r' \<longrightarrow> ident r = ident r')"
    by (intro ball_cong refl) (auto dest: option.expand)
  also have "\<dots> \<longleftrightarrow>
      (\<forall>r \<in> set rs. \<forall>r' \<in> set rs. key r \<noteq> None \<and> key r = key r' \<longrightarrow> ident r = ident r')"
    by (simp del: not_None_eq) metis
  finally show ?thesis unfolding e .
qed

lemma index_ok_plain [simp]: "\<not> ix_unique i \<Longrightarrow> index_ok tab i"
  by (simp add: index_ok_def)

lemma hosts_index:
  assumes "distinct (map hr_id (db_hosts d))"
  shows "list_all (index_ok (db_rows d)) (created_indexes create_hosts_up) \<longleftrightarrow>
    (\<forall>r \<in> set (db_hosts d). \<forall>r' \<in> set (db_hosts d).
        machine_key r \<noteq> None \<and> machine_key r = machine_key r' \<longrightarrow> hr_id r = hr_id r')"
  unfolding create_hosts_up_def index_ok_def index_entries_def
  apply simp
  apply (rule entries_distinct [OF assms, where g = "\<lambda>(m, n). [SText m, SText n]" and key = machine_key, simplified])
  apply (auto simp: host_vals_def machine_key_def opt_val_def inj_def split: option.splits)
  done

definition live_fingerprint :: "identity_row \<Rightarrow> string option" where
  "live_fingerprint r = (if ir_revoked_at r = None then Some (ir_cert_fingerprint r) else None)"

lemma identities_index:
  assumes "distinct (map ir_id (db_identities d))"
  shows "list_all (index_ok (db_rows d)) (created_indexes create_agent_identities_up) \<longleftrightarrow>
     (\<forall>r \<in> set (db_identities d). \<forall>r' \<in> set (db_identities d).
        live_fingerprint r \<noteq> None \<and> live_fingerprint r = live_fingerprint r' \<longrightarrow> ir_id r = ir_id r')"
  unfolding create_agent_identities_up_def index_ok_def index_entries_def
  apply simp
  apply (rule entries_distinct [OF assms, where g = "\<lambda>m. [SText m]" and key = live_fingerprint, simplified])
  apply (auto simp: identity_vals_def live_fingerprint_def opt_val_def inj_def split: option.splits if_splits)
  done

lemma other_indexes:
  "list_all (index_ok tab) (created_indexes create_enrollment_tokens_up)"
  "list_all (index_ok tab) (created_indexes create_host_configs_up)"
  "list_all (index_ok tab) (created_indexes create_command_executions_up)"
  "list_all (index_ok tab) (created_indexes create_security_events_up)"
  by (simp_all add: up_defs)

lemma created_tables_up [simp]:
  "created_tables create_hosts_up = [(''hosts'', hosts_columns)]"
  "created_tables create_agent_identities_up = [(''agent_identities'', agent_identities_columns)]"
  "created_tables create_enrollment_tokens_up = [(''enrollment_tokens'', enrollment_tokens_columns)]"
  "created_tables create_host_configs_up = [(''host_configs'', host_configs_columns)]"
  "created_tables create_command_executions_up = [(''command_executions'', command_executions_columns)]"
  "created_tables create_security_events_up = [(''security_events'', security_events_columns)]"
  by (simp_all add: up_defs)

lemma table_ok_map:
  "table_ok tab (t, cs) \<longleftrightarrow> (\<forall>r \<in> set (tab t). row_ok cs r) \<and> keys_ok cs (tab t) \<and> references_ok tab cs (tab t)"
  by (simp add: table_ok_def list_all_iff)

lemma schema_of_6: "schema_of 6 = \<lparr>sc_tables = 
   created_tables create_hosts_up @ created_tables create_agent_identities_up @
   created_tables create_enrollment_tokens_up @ created_tables create_host_configs_up @
   created_tables create_command_executions_up @ created_tables create_security_events_up,
   sc_indexes = created_indexes create_hosts_up @ created_indexes create_agent_identities_up @
   created_indexes create_enrollment_tokens_up @ created_indexes create_host_configs_up @
   created_indexes create_command_executions_up @ created_indexes create_security_events_up\<rparr>"
  by (simp add: schema_of_def scripts_def)

lemma schema_iff_db_ok: "satisfies (db_rows d) (schema_of 6) \<and> sequences_ok d \<longleftrightarrow> db_ok d \<and> ints_ok d"
proof -
  have "identities_ok (db_identities d) \<longleftrightarrow> distinct (map ir_id (db_identities d)) \<and>
     list_all (index_ok (db_rows d)) (created_indexes create_agent_identities_up)"
    by (auto simp: identities_ok_def identities_index live_fingerprint_def split: if_splits cong: conj_cong)
  moreover have "hosts_ok (db_hosts d) \<longleftrightarrow> distinct (map hr_id (db_hosts d)) \<and>
     list_all (index_ok (db_rows d)) (created_indexes create_hosts_up)"
    by (auto simp: hosts_ok_def hosts_index cong: conj_cong)
  ultimately show ?thesis
    unfolding db_ok_def satisfies_def schema_of_6
    by (auto simp: table_ok_map row_ok_vals keys_ok_vals references_ok_vals other_indexes refs_ok_def
      ints_ok_def sequences_ok_def)
qed


text \<open>C7: What the development calls well-formed tables is what the migrations declare: tables satisfy
  the schema that the six scripts build, with sequences ahead of the keys they gave, exactly when
  \<open>db_ok\<close> holds and the integer columns are in the range of their types.\<close>

theorem migrations_declare_integrity:
  "\<exists>s. migrate_up (length scripts) = Inr s
    \<and> (\<forall>d. (satisfies (db_rows d) s \<and> sequences_ok d) = (db_ok d \<and> ints_ok d))"
  using migrate_up_schema [of 6] schema_iff_db_ok by simp

end
