(* ===== verification/Migrated.thy ===== *)
theory Migrated
  imports Schema Statements
begin

text \<open>
  The statements of the stores on the schema the migrations build: every INSERT stores the row that
  Postgres makes of the columns it lists and of the defaults of the schema, and a run of statements
  whose integers are in the range of their Go types keeps the tables within the schema, as long as
  the counters it moves stay below the largest BIGINT.
\<close>

subsection \<open>INSERT with the defaults of the schema\<close>

fun opt_default :: "instant \<Rightarrow> col_opt list \<Rightarrow> sql_val" where
  "opt_default now [] = SNull"
| "opt_default now (Default NOW # _) = STime now"
| "opt_default now (Default (Literal v) # _) = v"
| "opt_default now (_ # os) = opt_default now os"

text \<open>The row an INSERT with the values \<open>given\<close> stores; a BIGSERIAL column takes the next number.\<close>

definition insert_row :: "column list \<Rightarrow> (string \<times> sql_val) list \<Rightarrow> instant \<Rightarrow> int \<Rightarrow> row" where
  "insert_row cs given now next =
     map (\<lambda>(c, t, os). (c, case map_of given c of
                             Some v \<Rightarrow> v
                           | None \<Rightarrow> if t = BIGSERIAL then SInt next else opt_default now os)) cs"

text \<open>The columns the INSERT statements list, with their parameters.\<close>

definition host_insert_values :: "host_row \<Rightarrow> (string \<times> sql_val) list" where
  "host_insert_values n = filter (\<lambda>(c, _). c \<noteq> ''first_seen_at'') (host_vals n)"

definition token_insert_values :: "token_row \<Rightarrow> (string \<times> sql_val) list" where
  "token_insert_values n =
     [(''id'', SText (tr_id n)), (''token_hash'', SText (tr_token_hash n)),
      (''label'', opt_val SText (tr_label n)), (''org_id'', SText (tr_org_id n)),
      (''created_by'', opt_val SText (tr_created_by n)), (''expires_at'', STime (tr_expires_at n))]"

definition identity_insert_values :: "identity_row \<Rightarrow> (string \<times> sql_val) list" where
  "identity_insert_values n =
     [(''host_id'', SText (ir_host_id n)), (''cert_pem'', SText (ir_cert_pem n)),
      (''cert_fingerprint'', SText (ir_cert_fingerprint n)), (''expires_at'', STime (ir_expires_at n))]"

definition config_insert_values :: "string \<Rightarrow> string \<Rightarrow> int \<Rightarrow> (string \<times> sql_val) list" where
  "config_insert_values h field v =
     [(''host_id'', SText h), (''config_version'', SInt 1), (field, SInt v)]"

definition command_insert_values :: "command_row \<Rightarrow> (string \<times> sql_val) list" where
  "command_insert_values n =
     [(''id'', SText (xr_id n)), (''host_id'', SText (xr_host_id n)), (''tier'', SInt (xr_tier n)),
      (''command_json'', SJson (xr_command_json n)), (''reason'', SText (xr_reason n)),
      (''issued_by'', SText (xr_issued_by n)), (''status'', SText ''pending'')]"

definition event_insert_values ::
  "string \<Rightarrow> instant \<Rightarrow> string \<Rightarrow> string \<Rightarrow> json \<Rightarrow> string \<Rightarrow> (string \<times> sql_val) list" where
  "event_insert_values h oc ty src j raw =
     [(''host_id'', SText h), (''occurred_at'', STime oc), (''type'', SText ty),
      (''source'', SText src), (''data'', SJson j), (''raw'', SText raw)]"

lemmas insert_value_defs = token_insert_values_def identity_insert_values_def config_insert_values_def
  command_insert_values_def event_insert_values_def

lemmas vals_defs = host_vals_def token_vals_def identity_vals_def config_vals_def command_vals_def
  event_vals_def

lemma upsert_inserts:
  assumes "upsert_sql n t d = Inr (u, d')" "\<not> host_exists (hr_id n) d"
  shows "db_rows d' ''hosts'' = db_rows d ''hosts'' @ [insert_row hosts_columns (host_insert_values n) t 0]"
  using assms by (auto simp: upsert_sql_def Let_def host_exists_def insert_row_def hosts_columns_def
      host_insert_values_def host_vals_def split: if_splits option.splits)

lemma insert_token_inserts:
  assumes "insert_token_sql n t d = Inr (u, d')"
  shows "db_rows d' ''enrollment_tokens'' =
    db_rows d ''enrollment_tokens'' @ [insert_row enrollment_tokens_columns (token_insert_values n) t 0]"
  using assms by (auto simp: insert_token_sql_def insert_row_def enrollment_tokens_columns_def
      token_insert_values_def token_vals_def split: if_splits)

lemma insert_identity_inserts:
  assumes "insert_identity_sql n t d = Inr (u, d')"
  shows "db_rows d' ''agent_identities'' = db_rows d ''agent_identities'' @
    [insert_row agent_identities_columns (identity_insert_values n) t (db_identity_seq d)]"
  using assms by (auto simp: insert_identity_sql_def insert_row_def agent_identities_columns_def
      identity_insert_values_def identity_vals_def split: if_splits)

lemma set_field_inserts:
  assumes "set_field_sql h field v t d = Inr (u, d')" "find_by cr_host_id h (db_configs d) = None"
    "field \<in> set allowed_fields"
  shows "db_rows d' ''host_configs'' = db_rows d ''host_configs'' @
    [insert_row host_configs_columns (config_insert_values h field v) t 0]"
  using assms by (auto simp: set_field_sql_def insert_row_def host_configs_columns_def allowed_fields_def
      config_insert_values_def config_vals_def new_config_row_def set_column_def split: if_splits)

lemma insert_command_inserts:
  assumes "insert_command_sql n t d = Inr (u, d')"
  shows "db_rows d' ''command_executions'' = db_rows d ''command_executions'' @
    [insert_row command_executions_columns (command_insert_values n) t 0]"
  using assms by (auto simp: insert_command_sql_def insert_row_def command_executions_columns_def
      command_insert_values_def command_vals_def split: if_splits)

lemma insert_event_inserts:
  assumes "insert_event_sql h oc ty src j raw t d = Inr (u, d')"
  shows "db_rows d' ''security_events'' = db_rows d ''security_events'' @
    [insert_row security_events_columns (event_insert_values h oc ty src j raw) t (db_event_seq d)]"
  using assms by (auto simp: insert_event_sql_def insert_row_def security_events_columns_def
      event_insert_values_def event_vals_def split: if_splits)

text \<open>C28: Each INSERT of the stores adds exactly the row Postgres builds from the columns the statement
  lists and the defaults of the migrations, and leaves the rows that were there: what a statement
  does not list (the times, the pending status of a new command's result columns, the intervals of
  a first configuration) comes from the schema.\<close>

theorem inserts_follow_schema:
  "(\<forall>n u d'. upsert_sql n t d = Inr (u, d') \<and> \<not> host_exists (hr_id n) d \<longrightarrow>
      db_rows d' ''hosts'' = db_rows d ''hosts'' @ [insert_row hosts_columns (host_insert_values n) t 0])
   \<and> (\<forall>n u d'. insert_token_sql n t d = Inr (u, d') \<longrightarrow> db_rows d' ''enrollment_tokens'' =
      db_rows d ''enrollment_tokens'' @ [insert_row enrollment_tokens_columns (token_insert_values n) t 0])
   \<and> (\<forall>n u d'. insert_identity_sql n t d = Inr (u, d') \<longrightarrow> db_rows d' ''agent_identities'' =
      db_rows d ''agent_identities'' @
      [insert_row agent_identities_columns (identity_insert_values n) t (db_identity_seq d)])
   \<and> (\<forall>h field v u d'. set_field_sql h field v t d = Inr (u, d') \<and> field \<in> set allowed_fields
      \<and> find_by cr_host_id h (db_configs d) = None \<longrightarrow> db_rows d' ''host_configs'' =
      db_rows d ''host_configs'' @ [insert_row host_configs_columns (config_insert_values h field v) t 0])
   \<and> (\<forall>n u d'. insert_command_sql n t d = Inr (u, d') \<longrightarrow> db_rows d' ''command_executions'' =
      db_rows d ''command_executions'' @ [insert_row command_executions_columns (command_insert_values n) t 0])
   \<and> (\<forall>h oc ty src j raw u d'. insert_event_sql h oc ty src j raw t d = Inr (u, d') \<longrightarrow>
      db_rows d' ''security_events'' = db_rows d ''security_events'' @
      [insert_row security_events_columns (event_insert_values h oc ty src j raw) t (db_event_seq d)])"
  using upsert_inserts insert_token_inserts insert_identity_inserts set_field_inserts
    insert_command_inserts insert_event_inserts by meson

theorem inserts_follow_schema_witness:
  "\<exists>d'. set_field_sql ''H1'' ''heartbeat_interval_seconds'' 60 5 (empty_db\<lparr>db_hosts := [plain_host ''H1'']\<rparr>) = Inr ((), d')
    \<and> db_rows d' ''host_configs'' =
      [[(''host_id'', SText ''H1''), (''config_version'', SInt 1), (''heartbeat_interval_seconds'', SInt 60),
        (''metric_collection_interval_seconds'', SInt 15), (''log_sources'', STexts []), (''updated_at'', STime 5)]]"
proof -
  let ?d = "empty_db\<lparr>db_hosts := [plain_host ''H1'']\<rparr>" and ?f = "''heartbeat_interval_seconds''"
  have none: "find_by cr_host_id ''H1'' (db_configs ?d) = None" "?f \<in> set allowed_fields"
    by (simp_all add: empty_db_def allowed_fields_def)
  obtain d' where x: "set_field_sql ''H1'' ?f 60 5 ?d = Inr ((), d')"
    by (simp add: set_field_sql_def in_i32_def empty_db_def host_exists_def plain_host_def)
  then have "db_rows d' ''host_configs'' = db_rows ?d ''host_configs'' @
      [insert_row host_configs_columns (config_insert_values ''H1'' ?f 60) 5 0]"
    using inserts_follow_schema [of 5 ?d] none by blast
  with x show ?thesis
    by (simp add: empty_db_def insert_row_def host_configs_columns_def config_insert_values_def)
qed

subsection \<open>Runs of statements keep the schema\<close>

text \<open>The integers of a statement as their Go types hold them; where the code passes an \<open>int\<close> for an
  INTEGER column, the driver checks the range itself.\<close>

fun go_typed :: "statement \<Rightarrow> bool" where
  "go_typed (UpsertHost n) = (fits in_i32 (hr_cpu_cores n) \<and> fits in_i64 (hr_memory_bytes n))"
| "go_typed (CompleteCommand k code out err otr etr ms ae) = in_i64 ms"
| "go_typed _ = True"

text \<open>Room for \<open>k\<close> more steps: the integer columns fit, and the counters stay in a BIGINT.\<close>

definition host_fits :: "host_row \<Rightarrow> bool" where
  "host_fits r \<longleftrightarrow> fits in_i32 (hr_cpu_cores r) \<and> fits in_i64 (hr_memory_bytes r)"

definition config_fits :: "nat \<Rightarrow> config_row \<Rightarrow> bool" where
  "config_fits k r \<longleftrightarrow> 0 < cr_config_version r \<and> cr_config_version r + int k < 2 ^ 63 \<and>
     in_i32 (cr_heartbeat_interval_seconds r) \<and> in_i32 (cr_metric_collection_interval_seconds r)"

definition command_fits :: "command_row \<Rightarrow> bool" where
  "command_fits r \<longleftrightarrow>
     in_i32 (xr_tier r) \<and> fits in_i32 (xr_exit_code r) \<and> fits in_i64 (xr_duration_ms r)"

definition sequence_fits :: "nat \<Rightarrow> int \<Rightarrow> int list \<Rightarrow> bool" where
  "sequence_fits k next ids \<longleftrightarrow> 0 < next \<and> next + int k \<le> 2 ^ 63 \<and> list_all (\<lambda>i. 0 < i) ids"

definition room :: "nat \<Rightarrow> db \<Rightarrow> bool" where
  "room k d \<longleftrightarrow> list_all host_fits (db_hosts d) \<and> list_all (config_fits k) (db_configs d) \<and>
     list_all command_fits (db_commands d) \<and>
     sequence_fits k (db_identity_seq d) (map ir_id (db_identities d)) \<and>
     sequence_fits k (db_event_seq d) (map er_id (db_events d))"

lemma room_ints_ok: "room k d \<Longrightarrow> db_ok d \<Longrightarrow> ints_ok d"
  by (fastforce simp: room_def ints_ok_def db_ok_def in_i64_def list_all_iff host_fits_def
      config_fits_def command_fits_def sequence_fits_def)

lemma fits_simps [simp]: "fits p None" "fits p (Some i) = p i"
  by (simp_all add: fits_def)

lemma config_fits_Suc: "config_fits (Suc k) r \<Longrightarrow> config_fits k r"
  by (simp add: config_fits_def)

lemma sequence_fits_Suc:
  "sequence_fits (Suc k) n is \<Longrightarrow> sequence_fits k n is"
  "sequence_fits (Suc k) n is \<Longrightarrow> sequence_fits k (n + 1) (is @ [n])"
  by (simp_all add: sequence_fits_def)

lemma room_Suc: "room (Suc k) d \<Longrightarrow> room k d"
  by (auto simp: room_def sequence_fits_Suc elim: list.pred_mono_strong config_fits_Suc)

lemma list_all_update_where:
  "list_all Q rs \<Longrightarrow> (\<And>r. Q r \<Longrightarrow> Q' r) \<Longrightarrow> (\<And>r. Q r \<Longrightarrow> P r \<Longrightarrow> Q' (f r)) \<Longrightarrow> list_all Q' (update_where P f rs)"
  by (induction rs) (auto simp: update_where_def)

lemma room_updates:
  assumes "room (Suc k) d"
  shows "room k (d\<lparr>db_tokens := ts\<rparr>)"
    and "list_all host_fits hs \<Longrightarrow> room k (d\<lparr>db_hosts := hs\<rparr>)"
    and "list_all (config_fits k) cs \<Longrightarrow> room k (d\<lparr>db_configs := cs\<rparr>)"
    and "list_all command_fits xs \<Longrightarrow> room k (d\<lparr>db_commands := xs\<rparr>)"
    and "map ir_id is = map ir_id (db_identities d) \<Longrightarrow> room k (d\<lparr>db_identities := is\<rparr>)"
  using room_Suc [OF assms] by (simp_all add: room_def)

lemma room_fields:
  assumes "room k d"
  shows "list_all host_fits (db_hosts d)" "list_all (config_fits k) (db_configs d)" "list_all command_fits (db_commands d)"
  using assms by (simp_all add: room_def)

lemma room_after:
  assumes "room (Suc k) d" "\<And>a d'. r = Inr (a, d') \<Longrightarrow> room k d'"
  shows "room k (after r d)"
  using assms room_Suc by (cases r) auto

lemma room_upsert:
  assumes "room (Suc k) d" "host_fits n" "upsert_sql n t d = Inr (u, d')"
  shows "room k d'"
proof -
  have "host_fits (n\<lparr>hr_first_seen_at := x\<rparr>)" for x using assms(2) by (simp add: host_fits_def)
  with assms room_fields [OF assms(1)] show ?thesis
    by (auto simp: upsert_sql_def Let_def intro!: room_updates list_all_update_where split: if_splits option.splits)
qed

lemma room_set_field:
  assumes "room (Suc k) d" "set_field_sql h f v t d = Inr (u, d')"
  shows "room k d'"
proof -
  have old: "list_all (config_fits (Suc k)) (db_configs d)" "list_all (config_fits k) (db_configs d)"
    using room_fields(2) [OF assms(1)] room_fields(2) [OF room_Suc [OF assms(1)]] .
  have k: "int k + 1 < 2 ^ 63" using assms(1) by (simp add: room_def sequence_fits_def)
  have v: "in_i32 v" using assms(2) by (simp add: set_field_sql_def split: if_splits)
  have "config_fits k (new_config_row h f v t)"
    using k v by (auto simp: config_fits_def new_config_row_def set_column_def in_i32_def)
  moreover have "config_fits k ((set_column f v c)\<lparr>cr_config_version := cr_config_version c + 1, cr_updated_at := t\<rparr>)"
    if "config_fits (Suc k) c" for c
    using that v by (auto simp: config_fits_def set_column_def)
  ultimately show ?thesis
    using assms(2) v old
    by (auto simp: set_field_sql_def intro!: room_updates(3) [OF assms(1)] list_all_update_where
        intro: config_fits_Suc split: if_splits option.splits)
qed

lemma room_complete:
  assumes "room (Suc k) d" "in_i64 ms" "complete_command_sql i code out err otr etr ms ae st t d = Inr (u, d')"
  shows "room k d'"
  using assms(2,3) room_fields(3) [OF assms(1)]
  by (auto simp: complete_command_sql_def command_fits_def intro!: room_updates(4) [OF assms(1)]
      list_all_update_where split: if_splits)

lemma room_insert_command:
  assumes "room (Suc k) d" "insert_command_sql n t d = Inr (u, d')"
  shows "room k d'"
  using assms(2) room_fields(3) [OF assms(1)]
  by (auto simp: insert_command_sql_def command_fits_def intro!: room_updates(4) [OF assms(1)] split: if_splits)

lemma room_insert_identity:
  assumes "room (Suc k) d" "insert_identity_sql n t d = Inr (u, d')"
  shows "room k d'"
  using assms(2) room_Suc [OF assms(1)] assms(1)
  by (auto simp: insert_identity_sql_def room_def sequence_fits_Suc split: if_splits)

lemma room_insert_event:
  assumes "room (Suc k) d" "insert_event_sql h oc ty src j raw t d = Inr (u, d')"
  shows "room k d'"
  using assms(2) room_Suc [OF assms(1)] assms(1)
  by (auto simp: insert_event_sql_def room_def sequence_fits_Suc split: if_splits)

text \<open>The statements on the tokens, the heartbeats and the revocations touch no counter.\<close>

lemma room_tokens:
  assumes "room (Suc k) d"
  shows "room k (after (insert_token_sql n t d) d)" "room k (snd (stmt_step (ClaimToken h, t) d))"
    and "room k (after (mark_used_sql i h t d) d)" "room k (after (set_used_by_sql h i t d) d)"
    and "room k (after (revoke_token_sql i t d) d)"
  using assms room_Suc [OF assms]
  by (auto intro!: room_updates simp: insert_token_sql_def claim_token_sql_def mark_used_sql_def set_used_by_sql_def
      revoke_token_sql_def Let_def split: if_splits sum.splits list.splits)

lemma room_rows:
  assumes "room (Suc k) d"
  shows "room k (after (update_heartbeat_sql h x st t d) d)" "room k (after (sweep_sql t d) d)"
    and "room k (after (revoke_identity_sql j reason t d) d)"
  using assms room_fields(1) [OF assms]
  by (auto intro!: room_updates list_all_update_where
      simp: update_heartbeat_sql_def sweep_sql_def revoke_identity_sql_def host_fits_def Let_def)

lemma room_step:
  assumes "room (Suc k) d" "go_typed op"
  shows "room k (snd (stmt_step (op, t) d))"
proof (cases op)
  case (UpsertHost n)
  with assms show ?thesis by (auto intro!: room_after elim: room_upsert simp: host_fits_def)
next
  case (CompleteCommand i code out err otr etr ms ae)
  with assms show ?thesis by (auto intro!: room_after elim: room_complete)
qed (use assms room_tokens [OF assms(1)] room_rows [OF assms(1)] in
    \<open>auto simp del: stmt_step.simps(5) intro!: room_after
       elim: room_insert_identity room_set_field room_insert_command room_insert_event\<close>)

lemma room_run:
  assumes "room (length ops) d" "list_all (go_typed \<circ> fst) ops"
  shows "room 0 (stmt_run ops d)"
  using assms
proof (induction ops arbitrary: d)
  case (Cons op ops)
  then show ?case using room_step [of "length ops" d "fst op" "snd op"] by simp
qed simp

text \<open>C8: Statements whose integers are in the range of their Go types, in any order and at any instants,
  keep the tables within the schema that the migrations build, types, NOT NULL, keys, references and
  unique indexes, as long as the sequences and the configuration versions have room for the run in
  a BIGINT.\<close>

theorem statements_keep_schema:
  assumes "migrate_up (length scripts) = Inr s" "db_ok d" "room (length ops) d"
    and "list_all (go_typed \<circ> fst) ops"
  shows "satisfies (db_rows (stmt_run ops d)) s \<and> sequences_ok (stmt_run ops d)"
  using schema_iff_db_ok [of "stmt_run ops d"] migrate_up_schema [of 6] assms(1)
    room_ints_ok [OF room_run [OF assms(3,4)]] interleaved.run_keeps [OF assms(2)]
  by simp

theorem statements_keep_schema_witness:
  "\<exists>s. migrate_up 6 = Inr s \<and> satisfies (db_rows (stmt_run
     [(UpsertHost ((plain_host ''H1'')\<lparr>hr_cpu_cores := Some 8\<rparr>), 1),
      (SetField ''H1'' ''heartbeat_interval_seconds'' 60, 2),
      (SetField ''H1'' ''heartbeat_interval_seconds'' (2 ^ 40), 3),
      (InsertEvent ''H1'' 4 ''SECURITY_EVENT_TYPE_LOGIN'' [] (JObj []) [], 5)] empty_db)) s"
proof -
  let ?ops = "[(UpsertHost ((plain_host ''H1'')\<lparr>hr_cpu_cores := Some 8\<rparr>), 1 :: instant),
      (SetField ''H1'' ''heartbeat_interval_seconds'' 60, 2),
      (SetField ''H1'' ''heartbeat_interval_seconds'' (2 ^ 40), 3),
      (InsertEvent ''H1'' 4 ''SECURITY_EVENT_TYPE_LOGIN'' [] (JObj []) [], 5)]"
  have "room (length ?ops) empty_db" by (simp add: room_def empty_db_def sequence_fits_def)
  moreover have "list_all (go_typed \<circ> fst) ?ops" by (simp add: plain_host_def in_i32_def)
  ultimately show ?thesis
    using statements_keep_schema [of _ empty_db ?ops] empty_db_ok migrate_up_schema [of 6] by auto
qed

end
