(* ===== verification/Journey.thy ===== *)
theory Journey
  imports System
begin

text \<open>
  What the components promise together, along the way of one agent: from its enrollment over its
  connection to the first command and to what the REST API shows of it, and from a configuration set
  on the command line to the message that carries it. Each theorem composes operations of several theories, with anything the rest of
  the system may do in between.
\<close>

subsection \<open>From enrollment to command\<close>

lemma command_Insert_NoFault:
  assumes "w_fault w (w_tick w) = NoFault" "in_i32 (xr_tier x)" "xr_id x \<notin> xr_id ` set (db_commands (w_db w))"
    "host_exists (xr_host_id x) (w_db w)"
  shows "\<exists>w'. command_Insert x w = (Inr (), w')"
  using assms by (simp add: command_Insert_def exec_stmt_NoFault insert_command_sql_def wrap_err_def)

text \<open>What \<open>Issue\<close> needs to succeed.\<close>

lemma Issue_delivers:
  assumes "fst (Allow (iq_HostID req) (w_clock (s_world s) (w_tick (s_world s))) (s_limiter s)) = None"
    "iq_Command req = Known p" "in_i32 (iq_Tier req)" "host_exists (iq_HostID req) (w_db (s_world s))"
    "k = w_ulid (s_world s) (w_tick (s_world s) + 2)" "k \<notin> xr_id ` set (db_commands (w_db (s_world s)))"
    "marshal (build_request k req p) = Inr j" "w_fault (s_world s) (w_tick (s_world s) + 3) = NoFault"
    "registry_Get (s_registry s) (iq_HostID req) = Some st" "s_send_error s (s_sends s) = None"
  shows "\<exists>s'. Issue marshal req s = ((k, None), s')
    \<and> s_sent s' = s_sent s @ [(st, CommandRequest (build_request k req p))]
    \<and> (\<exists>x. find_by xr_id k (db_commands (w_db (s_world s'))) = Some x \<and> xr_host_id x = iq_HostID req
         \<and> xr_status x = ''pending'')"
proof -
  let ?w = "tick (tick (tick (s_world s)))"
  obtain lim where al: "Allow (iq_HostID req) (w_clock (s_world s) (w_tick (s_world s))) (s_limiter s) = (None, lim)"
    using assms(1) by (cases "Allow (iq_HostID req) (w_clock (s_world s) (w_tick (s_world s))) (s_limiter s)") simp
  obtain w' where ins: "command_Insert (pending_row k req j) ?w = (Inr (), w')"
    using command_Insert_NoFault [of ?w "pending_row k req j"] assms(3,4,6,8) by (auto simp: pending_row_def numeral_eq_Suc)
  have "Issue marshal req s = push_command (iq_HostID req) (build_request k req p) (s\<lparr>s_limiter := lim, s_world := w'\<rparr>)"
    using assms(2,5,7) al ins
    by (simp add: Issue_def on_store_def go_now_def new_ulid_def Let_def)
  also have "\<dots> = ((k, None), s\<lparr>s_limiter := lim, s_world := w', s_sends := Suc (s_sends s),
      s_sent := s_sent s @ [(st, CommandRequest (build_request k req p))]\<rparr>)"
    using assms(9,10) by (simp add: push_command_def adapter_Get_def registry_GetSender_def registry_Get_def
        stream_Send_def build_request_def)
  finally have i: "Issue marshal req s = \<dots>" .
  show ?thesis
    using i command_Insert_stored [OF ins] by (auto simp: pending_row_def)
qed

text \<open>The certificate in the response names the agent, whose host is in the table.\<close>

lemma Enroll_leaves:
  assumes "crypto_ok c" "Enroll c a p req w = (Inr resp, w')"
    "c_pem_Decode c (ep_CertPem resp) = Some (ty, der)" "c_ParseCertificate c der = Inr crt"
  shows "ct_CommonName (crt_Fields crt) = ep_AgentId resp \<and> host_exists (ep_AgentId resp) (w_db w')"
proof -
  obtain re h w1 hi tid org w2 hid w3 pem w4 where
    ic: "IssueClient c a (eq_CsrPem req) hid clientCertTTL w3 = (Inr pem, w4)" and
    rec: "record_enrollment c a tid org hid req hi pem w4 = (Inr resp, w')"
    using assms(2) by (rule Enroll_Inr) blast
  have ids: "ep_AgentId resp = hid" "ep_CertPem resp = pem" using enrolled_row [OF rec] by simp_all
  obtain k crt' where "c_pem_Decode c pem = Some (''CERTIFICATE'', crt_Raw crt')"
    "c_ParseCertificate c (crt_Raw crt') = Inr crt'" "ct_CommonName (crt_Fields crt') = hid"
    using IssueClient_parsed [OF assms(1) ic] by blast
  then have "ct_CommonName (crt_Fields crt) = hid" using assms(3,4) ids by simp
  moreover have "host_exists hid (w_db w')" using enrolled_row [OF rec] by (auto simp: host_exists_def)
  ultimately show ?thesis using ids by simp
qed

lemma agent_Connect_accepts:
  assumes "ct_CommonName (crt_Fields leaf) = h" "h \<noteq> []"
  shows "agent_Connect m st (TLSInfo ((leaf # cas) # vcs)) H = (None, Connect_start st (TLSInfo ((leaf # cas) # vcs)) H)"
    and "hub_server (Connect_start st (TLSInfo ((leaf # cas) # vcs)) H) =
      (hub_server H)\<lparr>s_registry := registry_Add h st (s_registry (hub_server H))\<rparr>"
    and "hub_jobs (Connect_start st (TLSInfo ((leaf # cas) # vcs)) H) = hub_jobs H @ [SyncJob h]"
  using assms by (simp_all add: agent_Connect_def mtlsStreamEnforcer_def mtlsEnforcer_def Connect_start_def
    hostIDFromStream_def Let_def set_conn_def on_server_def)

text \<open>C2: From enrollment to command: an agent that has enrolled, and connects with the certificate it was
  given, is let in and registered as exactly the host of its enrollment, whatever the system did in
  between; a command issued for that host is then stored as pending and sent on that very stream,
  unless the rate limit, a fault of the database, a repeated ID or the stream itself prevents it.\<close>

theorem enrolled_agent_commanded:
  assumes "crypto_ok c" "Enroll c a p req w = (Inr resp, w1)" "ep_AgentId resp = h" "h \<noteq> []"
    and crt: "c_pem_Decode c (ep_CertPem resp) = Some (ty, der)" "c_ParseCertificate c der = Inr crt"
    and between: "tables s1 = w_db w1" "hub_server H = system_run S ops s1"
    and conn: "agent_Connect m st (TLSInfo ((crt # cas) # vcs)) H = (r, H1)" "s = hub_server H1"
    and command: "iq_HostID ireq = h" "iq_Command ireq = Known pl" "in_i32 (iq_Tier ireq)"
      "k = w_ulid (s_world s) (w_tick (s_world s) + 2)" "k \<notin> xr_id ` set (db_commands (tables s))"
      "marshal (build_request k ireq pl) = Inr j"
    and calm: "fst (Allow h (w_clock (s_world s) (w_tick (s_world s))) (s_limiter s)) = None"
      "w_fault (s_world s) (w_tick (s_world s) + 3) = NoFault" "s_send_error s (s_sends s) = None"
  shows "r = None \<and> registry_Get (s_registry s) h = Some st
    \<and> (\<exists>s'. Issue marshal ireq s = ((k, None), s')
        \<and> s_sent s' = s_sent s @ [(st, CommandRequest (build_request k ireq pl))]
        \<and> (\<exists>x. find_by xr_id k (db_commands (tables s')) = Some x \<and> xr_host_id x = h \<and> xr_status x = ''pending''))"
proof -
  have en: "ct_CommonName (crt_Fields crt) = h" "host_exists h (w_db w1)"
    using Enroll_leaves [OF assms(1,2) crt] assms(3) by simp_all
  have s: "r = None" "s = (hub_server H)\<lparr>s_registry := registry_Add h st (s_registry (hub_server H))\<rparr>"
    using agent_Connect_accepts(1) [OF en(1) assms(4), of m st cas vcs H]
      agent_Connect_accepts(2) [OF en(1) assms(4), of st cas vcs H] conn by simp_all
  have reg: "registry_Get (s_registry s) h = Some st" by (simp add: s(2) reg.lookup_add)
  have "host_exists h (tables s)"
    using en(2) presence.system_run_R [of s1 S ops] between by (simp add: s(2) hosts_stay_def)
  then show ?thesis
    using Issue_delivers [of ireq s pl k marshal j st] command calm reg s(1) by simp
qed

theorem enrolled_agent_commanded_witness:
  "\<exists>resp w1 crt H H1 k s'.
     Enroll demo_enroll_crypto demo_ca NoPeer demo_request (calm_world demo_db) = (Inr resp, w1)
     \<and> ep_AgentId resp = ''ULID-2'' \<and> tables (hub_server H) = w_db w1
     \<and> agent_Connect ''Connect'' 7 (TLSInfo [[crt]]) H = (None, H1)
     \<and> Issue (\<lambda>_. Inr (JObj [])) (demo_issue_request\<lparr>iq_HostID := ''ULID-2''\<rparr>) (hub_server H1) = ((k, None), s')"
proof -
  let ?req = "demo_issue_request\<lparr>iq_HostID := ''ULID-2''\<rparr>" and ?c = demo_enroll_crypto
  have ok: "crypto_ok ?c" by (simp add: demo_enroll_crypto_def demo_crypto_ok)
  obtain resp w1 where run: "Enroll ?c demo_ca NoPeer demo_request (calm_world demo_db) = (Inr resp, w1)"
    and id: "ep_AgentId resp = ''ULID-2''" using demo_enroll by blast
  obtain re h' v1 hi tid org v2 hid v3 pem v4 where
    ic: "IssueClient ?c demo_ca (eq_CsrPem demo_request) hid clientCertTTL v3 = (Inr pem, v4)" and
    rec: "record_enrollment ?c demo_ca tid org hid demo_request hi pem v4 = (Inr resp, w1)"
    using run by (rule Enroll_Inr) blast
  obtain crt where crt: "c_pem_Decode ?c (ep_CertPem resp) = Some (''CERTIFICATE'', crt_Raw crt)"
    "c_ParseCertificate ?c (crt_Raw crt) = Inr (crt :: certificate)"
    using IssueClient_parsed [OF ok ic] enrolled_row [OF rec] by metis
  have "finite (xr_id ` set (db_commands (w_db w1)))" by simp
  then obtain k where k: "k \<notin> xr_id ` set (db_commands (w_db w1))"
    using ex_new_if_finite [OF infinite_UNIV_listI] by blast
  define s1 where "s1 = (demo_server [])\<lparr>s_world := (calm_world (w_db w1))\<lparr>w_ulid := \<lambda>_. k\<rparr>\<rparr>"
  define H where "H = demo_start\<lparr>hub_server := s1\<rparr>"
  have s1: "tables s1 = w_db w1" "hub_server H = system_run demo_system [] s1" by (simp_all add: s1_def H_def calm_world_at)
  obtain r H1 where conn: "agent_Connect ''Connect'' 7 (TLSInfo [[crt]]) H = (r, H1)" by (metis surj_pair)
  have name: "ct_CommonName (crt_Fields crt) = ''ULID-2''" using Enroll_leaves [OF ok run crt] id by simp
  have H1: "hub_server H1 = s1\<lparr>s_registry := registry_Add ''ULID-2'' 7 (s_registry s1)\<rparr>"
    using agent_Connect_accepts(1) [OF name, of "''Connect''" 7 "[]" "[]" H]
      agent_Connect_accepts(2) [OF name, of 7 "[]" "[]" H] conn by (simp add: H_def)
  have "r = None \<and> registry_Get (s_registry (hub_server H1)) ''ULID-2'' = Some 7
    \<and> (\<exists>s'. Issue (\<lambda>_. Inr (JObj [])) ?req (hub_server H1) = ((k, None), s')
        \<and> s_sent s' = s_sent (hub_server H1) @ [(7, CommandRequest (build_request k ?req (DiagnosticCommand 1 None)))]
        \<and> (\<exists>x. find_by xr_id k (db_commands (tables s')) = Some x \<and> xr_host_id x = ''ULID-2'' \<and> xr_status x = ''pending''))"
    by (rule enrolled_agent_commanded [OF ok run id _ crt s1 conn refl])
      (use k in \<open>simp_all add: H1 s1_def demo_issue_request_def in_i32_def calm_world_def demo_server_def
         Allow_def NewRateLimiter_def\<close>)
  moreover have "tables (hub_server H) = w_db w1" using s1 by simp
  ultimately show ?thesis using run id conn by blast
qed

subsection \<open>From enrollment to the answer of the API\<close>

lemma Enroll_row:
  assumes "Enroll c a p req w = (Inr resp, w')"
  obtains hi org now t where "eq_HostInfo req = Some hi"
    "find_by hr_id (ep_AgentId resp) (db_hosts (w_db w')) =
       Some ((host_to_row (enrolled_host (ep_AgentId resp) org req hi now))\<lparr>hr_first_seen_at := t\<rparr>)"
proof -
  obtain re h w1 hi tid org w2 hid w3 pem w4 where
    hi: "eq_HostInfo req = Some hi" and rec: "record_enrollment c a tid org hid req hi pem w4 = (Inr resp, w')"
    using assms by (rule Enroll_Inr) blast
  then show ?thesis using enrolled_row [OF rec] that by blast
qed

text \<open>C26: From enrollment to the REST API: after an enrollment, a heartbeat with a timestamp and a sweep of the
  staleness job, a request for the host answers 200 with the data the agent reported when it
  enrolled: name, operating system with version and kernel, architecture, cores (cut to 32 bits),
  memory, machine ID, addresses, version of the agent, and the labels in key order; with the organisation
  and the time first seen of its row; with the timestamp of the heartbeat; and with the status online, or
  offline when that timestamp is more than 90 seconds behind the clock of the database.\<close>

theorem enrolled_host_shown:
  assumes "Enroll c a p req w = (Inr resp, w1)" "eq_HostInfo req = Some hi" "ep_AgentId resp = h"
    and beat: "w_db w2 = w_db w1" "handleMessage h (Heartbeat (Some ts)) w2 = (x, w3)" "w_fault w2 (w_tick w2 + 1) = NoFault"
    and sweep: "RunOnce url_ok url w3 = (y, w4)" "w_fault w2 (w_tick w2 + 2) = NoFault"
    and shown: "tables s = w_db w4" "w_fault (s_world s) (w_tick (s_world s)) = NoFault"
  shows "\<exists>hr s'. handleGetHost A h r s = (writeJSON 200 (HostBody hr), s')
    \<and> hp_ID hr = h \<and> hp_Hostname hr = hi_Hostname hi \<and> hp_OS hr = hi_Os hi \<and> hp_Arch hr = hi_Arch hi
    \<and> hp_OSVersion hr = hi_OsVersion hi \<and> hp_Kernel hr = hi_Kernel hi
    \<and> (\<forall>row. find_by hr_id h (db_hosts (w_db w1)) = Some row \<longrightarrow>
         hp_OrgID hr = hr_org_id row \<and> hp_FirstSeenAt hr = hr_first_seen_at row)
    \<and> hp_MemoryBytes hr = hi_MemoryBytes hi \<and> hp_CPUCores hr = wrap32 (hi_CpuCores hi)
    \<and> hp_MachineID hr = (if hi_MachineId hi = [] then None else Some (hi_MachineId hi)) \<and> hp_AgentVersion hr = eq_AgentVersion req
    \<and> hp_Labels hr = (case hi_Labels hi of None \<Rightarrow> [] | Some ls \<Rightarrow> sort_key fst ls)
    \<and> hp_IPAddresses hr = (case hi_IpAddresses hi of None \<Rightarrow> [] | Some ips \<Rightarrow> ips)
    \<and> hp_LastHeartbeatAt hr = ts
    \<and> hp_Status hr = (if ts < w_clock w2 (w_tick w2 + 2) - 90 * time_Second then ''offline'' else ''online'')"
proof -
  let ?st = "if ts < w_clock w2 (w_tick w2 + 2) - 90 * time_Second then ''offline'' else ''online''"
  obtain org now t where row: "find_by hr_id h (db_hosts (w_db w1)) =
      Some ((host_to_row (enrolled_host h org req hi now))\<lparr>hr_first_seen_at := t\<rparr>)"
    using assms(1-3) by (auto elim: Enroll_row)
  let ?h = "(enrolled_host h org req hi now)\<lparr>h_LastHeartbeatAt := Some ts, h_Status := ?st\<rparr>"
  have "find_by hr_id h (db_hosts (tables s)) = Some ((host_to_row ?h)\<lparr>hr_first_seen_at := t\<rparr>)"
    using heartbeat_then_sweep [OF beat(2) sweep(1) _ beat(3) sweep(2), unfolded beat(1), OF row] shown(1)
    by (simp add: host_to_row_def)
  then have "fst (host_GetByID h (s_world s)) =
      Inr (?h\<lparr>h_FirstSeenAt := t, h_Labels := map_option (sort_key fst) (h_Labels ?h)\<rparr>)" (is "_ = Inr ?h1")
    using shown(2) by (simp add: host_GetByID_def exec_query_NoFault key_row_def scan_one_def scanHost_host_to_row)
  then have "\<exists>s'. handleGetHost A h r s = (writeJSON 200 (HostBody (toHostResponse ?h1)), s')"
    by (cases "host_GetByID h (s_world s)") (simp add: handleGetHost_def on_store_def)
  moreover have "hp_AgentVersion (toHostResponse ?h1) = eq_AgentVersion req"
    "hp_OSVersion (toHostResponse ?h1) = hi_OsVersion hi" "hp_Kernel (toHostResponse ?h1) = hi_Kernel hi"
    "hp_MachineID (toHostResponse ?h1) = (if hi_MachineId hi = [] then None else Some (hi_MachineId hi))"
    by (simp_all add: toHostResponse_def enrolled_host_def non_empty_def)
  moreover have "\<forall>row. find_by hr_id h (db_hosts (w_db w1)) = Some row \<longrightarrow>
      hp_OrgID (toHostResponse ?h1) = hr_org_id row \<and> hp_FirstSeenAt (toHostResponse ?h1) = hr_first_seen_at row"
    by (simp add: row toHostResponse_def enrolled_host_def host_to_row_def)
  moreover have "hp_Labels (toHostResponse ?h1) = (case hi_Labels hi of None \<Rightarrow> [] | Some ls \<Rightarrow> sort_key fst ls)"
    by (simp add: toHostResponse_def enrolled_host_def split: option.split)
  ultimately show ?thesis
    by (elim exE, intro exI conjI) (assumption | simp add: toHostResponse_def enrolled_host_def)+
qed

theorem enrolled_host_shown_witness:
  "\<exists>resp w1 x w3 y w4 hr s'. Enroll demo_enroll_crypto demo_ca NoPeer demo_request (calm_world demo_db) = (Inr resp, w1)
     \<and> handleMessage ''ULID-2'' (Heartbeat (Some time_Hour)) (calm_world (w_db w1)) = (x, w3)
     \<and> RunOnce (\<lambda>_. True) [] w3 = (y, w4)
     \<and> handleGetHost demo_api ''ULID-2'' (demo_token_post 0) ((demo_server [])\<lparr>s_world := calm_world (w_db w4)\<rparr>) = (writeJSON 200 (HostBody hr), s')
     \<and> hp_Hostname hr = ''web-1'' \<and> hp_Status hr = ''online'' \<and> hp_LastHeartbeatAt hr = time_Hour"
proof -
  obtain resp w1 where run: "Enroll demo_enroll_crypto demo_ca NoPeer demo_request (calm_world demo_db) = (Inr resp, w1)"
    and id: "ep_AgentId resp = ''ULID-2''" using demo_enroll by blast
  let ?w2 = "calm_world (w_db w1)"
  obtain x w3 where m: "handleMessage ''ULID-2'' (Heartbeat (Some time_Hour)) ?w2 = (x, w3)" by (metis surj_pair)
  obtain y w4 where sw: "RunOnce (\<lambda>_. True) [] w3 = (y, w4)" by (metis surj_pair)
  let ?s = "(demo_server [])\<lparr>s_world := calm_world (w_db w4)\<rparr>"
  have hi: "eq_HostInfo demo_request = Some demo_info" by (simp add: demo_request_def)
  have calm: "w_db ?w2 = w_db w1" "w_fault ?w2 (w_tick ?w2 + 1) = NoFault" "w_fault ?w2 (w_tick ?w2 + 2) = NoFault"
    "tables ?s = w_db w4" "w_fault (s_world ?s) (w_tick (s_world ?s)) = NoFault"
    by (simp_all add: calm_world_at)
  obtain hr s' where "handleGetHost demo_api ''ULID-2'' (demo_token_post 0) ?s = (writeJSON 200 (HostBody hr), s')"
    "hp_Hostname hr = hi_Hostname demo_info" "hp_LastHeartbeatAt hr = time_Hour"
    "hp_Status hr = (if time_Hour < w_clock ?w2 (w_tick ?w2 + 2) - 90 * time_Second then ''offline'' else ''online'')"
    using enrolled_host_shown [OF run hi id calm(1) m calm(2) sw calm(3-5), of demo_api "demo_token_post 0"] by blast
  moreover have "hi_Hostname demo_info = ''web-1''" "\<not> time_Hour < w_clock ?w2 (w_tick ?w2 + 2) - 90 * time_Second"
    by (simp_all add: demo_info_def calm_world_at time_units)
  ultimately show ?thesis using run m sw by (intro exI conjI) (assumption | simp)+
qed

subsection \<open>From the command line to the agent\<close>

lemma runConfigSet_updates:
  assumes "runConfigSet E args w = (([ConfigUpdated h key v], n), w1)"
  shows "key \<in> set allowed_fields \<and> n = 0 \<and> set_field_sql h key v (w_clock w (w_tick w)) (w_db w) = Inr ((), w_db w1)"
proof -
  have "config_SetField (cl_is_print E) h key v w = (Inr (), w1) \<and> n = 0"
    using assms by (auto simp: runConfigSet_def with_pool_def exit1_def
        split: flag_result.splits list.splits option.splits prod.splits sum.splits)
  then show ?thesis by (auto simp: config_SetField_def exec_stmt_Inr split: if_splits)
qed

lemma SyncOnConnect_stored:
  assumes "w_fault (s_world s) (w_tick (s_world s)) = NoFault" "registry_Get (s_registry s) h = Some st"
    "s_send_error s (s_sends s) = None" "find_by cr_host_id h (db_configs (tables s)) = Some c"
    "v < cr_config_version c"
  shows "s_sent (snd (SyncOnConnect h v s)) = s_sent s @ [(st, ConfigUpdate (to_update c))]"
  using assms by (simp add: SyncOnConnect_def on_store_def config_Get_NoFault config_send_def stream_Send_def)

text \<open>C27: A configuration set on the command line, in another process, reaches the agent when it connects:
  the job started by the connection sends the new version, one above the version before, with the new
  value of the field that was set and the other settings as they were.\<close>

theorem config_set_reaches_agent:
  assumes set: "runConfigSet E args w = (([ConfigUpdated h key v], n), w1)" "configs_in_range (w_db w)"
    and peer: "ct_CommonName (crt_Fields leaf) = h" "h \<noteq> []" "tables (hub_server H) = w_db w1"
      "agent_Connect m st (TLSInfo ((leaf # cas) # vcs)) H = (r, H1)" "s = hub_server H1"
    and calm: "w_fault (s_world s) (w_tick (s_world s)) = NoFault" "s_send_error s (s_sends s) = None"
  defines "c \<equiv> (case find_by cr_host_id h (db_configs (w_db w)) of None \<Rightarrow> default_config h | Some c \<Rightarrow> c)"
  shows "SyncJob h \<in> set (hub_jobs H1) \<and> (\<exists>u. s_sent (run_job env (SyncJob h) s) = s_sent s @ [(st, ConfigUpdate u)]
    \<and> cu_ConfigVersion u = cr_config_version c + 1
    \<and> cu_HeartbeatIntervalSeconds u =
        (if key = ''heartbeat_interval_seconds'' then v else cr_heartbeat_interval_seconds c)
    \<and> cu_MetricCollectionIntervalSeconds u =
        (if key = ''metric_collection_interval_seconds'' then v else cr_metric_collection_interval_seconds c)
    \<and> cu_LogSources u = cr_log_sources c)"
proof -
  have key: "key = ''heartbeat_interval_seconds'' \<or> key = ''metric_collection_interval_seconds''"
    and sql: "set_field_sql h key v (w_clock w (w_tick w)) (w_db w) = Inr ((), w_db w1)"
    using runConfigSet_updates [OF set(1)] by (auto simp: allowed_fields_def)
  let ?c = "(set_column key v c)\<lparr>cr_config_version := cr_config_version c + 1,
    cr_updated_at := w_clock w (w_tick w)\<rparr>"
  have found: "find_by cr_host_id h (db_configs (w_db w1)) = Some ?c"
    using set_field_found [OF sql] key by (auto simp: c_def allowed_fields_def)
  have s: "s = (hub_server H)\<lparr>s_registry := registry_Add h st (s_registry (hub_server H))\<rparr>"
    and jobs: "hub_jobs H1 = hub_jobs H @ [SyncJob h]"
    using agent_Connect_accepts(1) [OF peer(1,2), of m st cas vcs H]
      agent_Connect_accepts(2,3) [OF peer(1,2), of st cas vcs H] peer(4,5) by simp_all
  have "configs_in_range (w_db w1)" using set_field_in_range [OF sql set(2)] .
  then have range: "in_i32 (cr_heartbeat_interval_seconds ?c)" "in_i32 (cr_metric_collection_interval_seconds ?c)"
     "0 < cr_config_version ?c"
    using find_by_SomeD [OF found] by (auto simp: configs_in_range_def)
  have "s_sent (snd (SyncOnConnect h 0 s)) = s_sent s @ [(st, ConfigUpdate (to_update ?c))]"
    using calm found range(3) peer(3) by (intro SyncOnConnect_stored) (simp_all add: s reg.lookup_add)
  then show ?thesis
    using jobs range key by (auto simp: run_job_def to_update_def wrap32_id set_column_def)
qed

theorem config_set_reaches_agent_witness:
  "\<exists>w1 H1 u. runConfigSet demo_cli [''H1'', ''heartbeat_interval_seconds=10'']
       (calm_world (empty_db\<lparr>db_hosts := [plain_host ''H1'']\<rparr>))
     = (([ConfigUpdated ''H1'' ''heartbeat_interval_seconds'' 10], 0), w1)
     \<and> agent_Connect ''Connect'' 7 (TLSInfo [[demo_leaf]]) (demo_start\<lparr>hub_server := (demo_server [])\<lparr>s_world := w1\<rparr>\<rparr>)
       = (None, H1)
     \<and> s_sent (run_job demo_env (SyncJob ''H1'') (hub_server H1)) = [(7, ConfigUpdate u)]
     \<and> cu_HeartbeatIntervalSeconds u = 10 \<and> cu_MetricCollectionIntervalSeconds u = 15 \<and> cu_ConfigVersion u = 1"
proof -
  let ?w = "calm_world (empty_db\<lparr>db_hosts := [plain_host ''H1'']\<rparr>)" and ?k = "''heartbeat_interval_seconds''"
  have h: "''H1'' = [] \<or> hd ''H1'' \<noteq> CHR ''-''" by simp
  have a: "split_assignment ''heartbeat_interval_seconds=10'' = Some (?k, ''10'')" "atoi ''10'' = Some 10"
    by (simp_all add: split_assignment_def atoi_def parse_unsigned_def char_digit_def in_i64_def)
  obtain w1 where set1: "config_SetField (cl_is_print demo_cli) ''H1'' ?k 10 ?w = (Inr (), w1)" "w_fault w1 = (\<lambda>_. NoFault)"
    by (simp add: config_SetField_def allowed_fields_def calm_simps set_field_sql_def host_exists_def plain_host_def
        empty_db_def wrap_err_def in_i32_def)
  then have run: "runConfigSet demo_cli [''H1'', ''heartbeat_interval_seconds=10''] ?w = (([ConfigUpdated ''H1'' ?k 10], 0), w1)"
    using a by (simp add: runConfigSet_def parse_flags_positional [OF h])
  define H where "H = demo_start\<lparr>hub_server := (demo_server [])\<lparr>s_world := w1\<rparr>\<rparr>"
  obtain r H1 where conn: "agent_Connect ''Connect'' 7 (TLSInfo [[demo_leaf]]) H = (r, H1)" by (metis surj_pair)
  have leaf: "ct_CommonName (crt_Fields demo_leaf) = ''H1''" by (simp add: demo_leaf_def client_template_def)
  have H1: "r = None" "hub_server H1 = (hub_server H)\<lparr>s_registry := registry_Add ''H1'' 7 (s_registry (hub_server H))\<rparr>"
    using agent_Connect_accepts(1) [OF leaf, of "''Connect''" 7 "[]" "[]" H] agent_Connect_accepts(2) [OF leaf, of 7 "[]" "[]" H]
      conn by simp_all
  have "SyncJob ''H1'' \<in> set (hub_jobs H1) \<and> (\<exists>u. s_sent (run_job demo_env (SyncJob ''H1'') (hub_server H1)) =
      s_sent (hub_server H1) @ [(7, ConfigUpdate u)]
    \<and> cu_ConfigVersion u = cr_config_version (default_config ''H1'') + 1
    \<and> cu_HeartbeatIntervalSeconds u = 10
    \<and> cu_MetricCollectionIntervalSeconds u = cr_metric_collection_interval_seconds (default_config ''H1'')
    \<and> cu_LogSources u = cr_log_sources (default_config ''H1''))"
    using config_set_reaches_agent [OF run _ leaf _ _ conn refl, where env = demo_env]
    by (simp add: H1 H_def set1(2) configs_in_range_def calm_world_at empty_db_def demo_server_def)
  moreover have "s_sent (hub_server H1) = []" by (simp add: H1 H_def demo_server_def)
  ultimately show ?thesis
    using run conn H1(1) unfolding H_def by (auto simp: default_config_def)
qed

subsection \<open>Several senders, one stream\<close>

text \<open>Nothing orders the Sends on one stream: while a connection runs, its ticker, the job that its start
  has left and a command issued over the API may all be about to send on it at once, in goroutines of
  their own. (The steps here are whole Sends; gRPC does not allow two at a time on one stream.)\<close>

theorem sends_unordered:
  assumes "hub_conns H st = Some c" "cn_running c" "hub_jobs H = xs @ SyncJob h # ys" "s = hub_server H"
    and "registry_Get (s_registry s) h = Some st" "s_send_error s (s_sends s) = None"
    and "w_fault (s_world s) (w_tick (s_world s)) = NoFault"
    and "find_by cr_host_id h (db_configs (tables s)) = Some cfg" "0 < cr_config_version cfg"
    and "Issue (e_marshal E) req s = ((k, None), s')" "iq_HostID req = h"
  shows "\<exists>H1 H2 H3 m. hub_step E (LServe st) H H1 \<and> s_sent (hub_server H1) = s_sent s @ [(st, Ping t)]
    \<and> hub_step E (LJob (SyncJob h)) H H2 \<and> s_sent (hub_server H2) = s_sent s @ [(st, ConfigUpdate (to_update cfg))]
    \<and> hub_step E (LIssue req) H H3 \<and> s_sent (hub_server H3) = s_sent s @ [(st, CommandRequest m)]"
proof -
  have "s_sent (hub_server (serve_tick st c t H)) = s_sent s @ [(st, Ping t)]"
    using assms(4,6) by (simp add: serve_tick_def stream_Send_def)
  moreover have "hub_step E (LServe st) H (serve_tick st c t H)"
    using assms(1,2) by (rule hub_step.ticker)
  moreover have "s_sent (run_job E (SyncJob h) s) = s_sent s @ [(st, ConfigUpdate (to_update cfg))]"
    using SyncOnConnect_stored [OF assms(7,5,6,8), of 0] assms(9) by (simp add: run_job_def)
  moreover have "hub_step E (LJob (SyncJob h)) H ((on_server (run_job E (SyncJob h)) H)\<lparr>hub_jobs := xs @ ys\<rparr>)"
    using assms(3) by (rule hub_step.job)
  moreover have "hub_step E (LIssue req) H (on_server (\<lambda>s. snd (Issue (e_marshal E) req s)) H)"
    by (rule hub_step.issue)
  moreover obtain m where "s_sent s' = s_sent s @ [(st, CommandRequest m)]"
    using Issue_sent [OF assms(10)] assms(5,11)
    by (auto simp: adapter_Get_def registry_GetSender_def registry_Get_def)
  ultimately show ?thesis
    using assms(4,10) by (intro exI conjI) (assumption | simp add: on_server_def)+
qed

end
