(* ===== verification/Race.thy ===== *)
theory Race
  imports System
begin

text \<open>
  Two enrollments at the same time. \<open>Enroll\<close> of \<open>internal/enrollment/service.go\<close> has no
  transaction, so another call may run between its steps; here it is cut after the certificate is
  issued (\<open>enroll_prepare\<close>, steps 1 to 5) and before anything but the token is written
  (\<open>record_enrollment\<close>, steps 6 to 8), and two calls for the same machine are interleaved there.
\<close>

subsection \<open>Enroll in two parts\<close>

text \<open>Steps 1 to 5: who is calling, the shape of the request, the claim of the token, the host ID and the
  certificate.\<close>


definition enroll_prepare ::
  "crypto \<Rightarrow> ca \<Rightarrow> peer \<Rightarrow> enroll_request \<Rightarrow> world
     \<Rightarrow> (grpc_error + string \<times> string \<times> string \<times> host_info \<times> string) \<times> world" where
  "enroll_prepare c auth p req w =
     (let ((isReEnroll, existingHostID), w1) = detect_reenroll p w
      in case validate_shape isReEnroll req of
           Some e \<Rightarrow> (Inl e, w1)
         | None \<Rightarrow>
             (case eq_HostInfo req of
                None \<Rightarrow> (Inl (Status InvalidArgument ''host_info.hostname is required''), w1)
              | Some hi \<Rightarrow>
                  (case authenticate c isReEnroll existingHostID (eq_EnrollmentToken req) w1 of
                     (Inl e, w2) \<Rightarrow> (Inl e, w2)
                   | (Inr (tokenID, orgID), w2) \<Rightarrow>
                       (let (hostID, w3) = resolveHostID (hi_MachineId hi) orgID existingHostID w2
                        in case IssueClient c auth (eq_CsrPem req) hostID clientCertTTL w3 of
                             (Inl e, w4) \<Rightarrow>
                               (Inl (Status InvalidArgument (''CSR rejected: '' @ error_text e)), w4)
                           | (Inr certPEM, w4) \<Rightarrow> (Inr (tokenID, orgID, hostID, hi, certPEM), w4)))))"

text \<open>The two parts are the whole call.\<close>

lemma Enroll_split:
  "Enroll c a p req w =
     (case enroll_prepare c a p req w of
        (Inl e, w') \<Rightarrow> (Inl e, w')
      | (Inr (tid, org, hid, hi, pem), w') \<Rightarrow> record_enrollment c a tid org hid req hi pem w')"
  by (simp add: Enroll_def enroll_prepare_def Let_def split: prod.split option.split sum.split)

text \<open>A statement that fails changes nothing, whatever becomes of its answer.\<close>

lemma exec_stmt_Inl: "f (w_clock w (w_tick w)) (w_db w) = Inl k \<Longrightarrow> \<exists>e. exec_stmt f w = (Inl e, tick w)"
  by (cases "w_fault w (w_tick w)") (simp_all add: exec_stmt_def Let_def)

text \<open>A machine the organisation does not know gets the next ULID.\<close>

lemma resolveHostID_new:
  assumes "resolveHostID m org [] w = (hid, w')" "m \<noteq> []"
    "\<forall>r \<in> set (db_hosts (w_db w)). \<not> (hr_machine_id r = Some m \<and> hr_org_id r = org)"
  shows "\<exists>n. hid = w_ulid w n \<and> w_tick w \<le> n \<and> n < w_tick w'"
proof -
  have "find_machine_sql m org t (w_db w) = Inl NoRows" for t
    using assms(3) by (simp add: find_machine_sql_def first_row_def filter_empty_conv)
  then have "(case find_machine_sql m org (w_clock w (w_tick w)) (w_db w) of Inl k \<Rightarrow> Inl k | Inr a \<Rightarrow> Inr (a, w_db w)) = Inl NoRows"
    by simp
  then obtain e where "exec_query (find_machine_sql m org) w = (Inl e, tick w)"
    unfolding exec_query_def using exec_stmt_Inl [of "\<lambda>t d. case find_machine_sql m org t d of Inl k \<Rightarrow> Inl k | Inr a \<Rightarrow> Inr (a, d)" w]
    by blast
  with assms(1,2) show ?thesis
    by (auto simp: resolveHostID_def fresh_ulid_def go_now_def new_ulid_def intro!: exI [of _ "Suc (Suc (w_tick w))"])
qed

text \<open>What the first part of a first enrollment of an unknown machine does: it claims the token, and draws a
  new host ID.\<close>

lemma enroll_prepare_first:
  assumes "enroll_prepare c a p req w = (Inr (tid, org, hid, hi, pem), w')" "verified_leaf p = None"
    "hi_MachineId hi \<noteq> []"
    "\<forall>r \<in> set (db_hosts (w_db w)). \<not> (hr_machine_id r = Some (hi_MachineId hi) \<and> hr_org_id r = org)"
  obtains n where "ParseAndValidate (eq_EnrollmentToken req) = None"
    "claim_token_sql (HashHex (c_Sum256 c) (eq_EnrollmentToken req)) (w_clock w (w_tick w)) (w_db w) = Inr ((tid, org), w_db w')"
    "hid = w_ulid w n" "w_tick w \<le> n" "n < w_tick w'" "goes_on w w'"
    "db_hosts (w_db w') = db_hosts (w_db w)" "db_identities (w_db w') = db_identities (w_db w)"
proof -
  let ?tok = "eq_EnrollmentToken req"
  have d: "detect_reenroll p w = ((False, []), w)" using assms(2) by (simp add: detect_reenroll_def)
  from assms(1) d obtain hi' where v: "validate_shape False req = None" and hi: "eq_HostInfo req = Some hi'"
    by (auto simp: enroll_prepare_def split: option.splits)
  from assms(1) d v hi obtain tid' org' w2 where au: "authenticate c False [] ?tok w = (Inr (tid', org'), w2)"
    by (auto simp: enroll_prepare_def split: prod.splits sum.splits)
  obtain hid' w3 where rs: "resolveHostID (hi_MachineId hi') org' [] w2 = (hid', w3)"
    by (cases "resolveHostID (hi_MachineId hi') org' [] w2")
  obtain r w4 where ic: "IssueClient c a (eq_CsrPem req) hid' clientCertTTL w3 = (r, w4)"
    by (cases "IssueClient c a (eq_CsrPem req) hid' clientCertTTL w3")
  have same: "tid' = tid" "org' = org" "w' = w4" "hid' = hid" "hi' = hi"
    using assms(1) d v hi au rs ic by (auto simp: enroll_prepare_def split: sum.splits)
  have tok: "ParseAndValidate ?tok = None"
    and ex: "exec_stmt (claim_token_sql (HashHex (c_Sum256 c) ?tok)) w = (Inr (tid, org), w2)"
    using au same by (auto simp: authenticate_first split: if_splits prod.splits sum.splits)
  have cl: "claim_token_sql (HashHex (c_Sum256 c) ?tok) (w_clock w (w_tick w)) (w_db w) = Inr ((tid, org), w_db w2)"
    using ex by (rule exec_stmt_Inr)
  have db: "w_db w3 = w_db w2" "w_db w' = w_db w2"
    using rs ic same(3) resolveHostID_db [of "hi_MachineId hi'" org' "[]" w2]
      IssueClient_db [of c a "eq_CsrPem req" hid' clientCertTTL w3] by simp_all
  have on: "goes_on w w2" "goes_on w2 w3" "goes_on w3 w'"
    using enroll_goes_on(2) [of w c False "[]" ?tok] enroll_goes_on(3) [of w2 "hi_MachineId hi'" org' "[]"]
      IssueClient_goes_on [of w3 c a "eq_CsrPem req" hid' clientCertTTL] au rs ic same(3) by simp_all
  have frame: "w_db w2 = (w_db w)\<lparr>db_tokens := db_tokens (w_db w2)\<rparr>" using cl by (rule claim_token_row) simp
  then have rows: "db_hosts (w_db w2) = db_hosts (w_db w)" "db_identities (w_db w2) = db_identities (w_db w)"
    by (metis db.select_convs(1,3) db.surjective db.update_convs(2))+
  obtain n where n: "hid = w_ulid w2 n" "w_tick w2 \<le> n" "n < w_tick w3"
    using resolveHostID_new [OF rs] assms(3,4) rows(1) same by auto
  have "w_ulid w2 = w_ulid w" "w_tick w \<le> w_tick w2" "w_tick w3 \<le> w_tick w'" using on by (simp_all add: goes_on_def)
  with n have "hid = w_ulid w n" "w_tick w \<le> n" "n < w_tick w'" by simp_all
  moreover have "goes_on w w'" using on by (blast intro: goes_on_trans)
  ultimately show ?thesis using that tok cl db(2) rows by simp
qed

text \<open>What decides whether a token can be claimed; the second part of an enrollment leaves it alone.\<close>

definition token_core :: "token_row \<Rightarrow> string \<times> instant option \<times> instant option \<times> instant" where
  "token_core r = (tr_token_hash r, tr_used_at r, tr_revoked_at r, tr_expires_at r)"

lemma claim_by_core:
  assumes "map token_core (db_tokens d') = map token_core (db_tokens d)" "claim_token_sql h t d = Inl NoRows"
  shows "claim_token_sql h t d' = Inl NoRows"
proof -
  have "\<not> (tr_token_hash r' = h \<and> token_usable t r')" if "r' \<in> set (db_tokens d')" for r'
  proof -
    have "token_core r' \<in> set (map token_core (db_tokens d'))" using that by simp
    then obtain r where "r \<in> set (db_tokens d)" "token_core r = token_core r'" unfolding assms(1) by auto
    moreover from this(1) have "\<not> (tr_token_hash r = h \<and> token_usable t r)"
      using assms(2) by (auto simp: claim_token_NoRows)
    ultimately show ?thesis by (simp add: token_core_def token_usable_def)
  qed
  then show ?thesis by (auto simp: claim_token_NoRows)
qed

lemma set_used_by_cores:
  "map token_core (db_tokens (w_db (snd (exec_stmt (set_used_by_sql h k) w)))) = map token_core (db_tokens (w_db w))"
  by (rule exec_stmt_keeps [where I = "\<lambda>d. map token_core (db_tokens d) = map token_core (db_tokens (w_db w))"])
     (auto simp: set_used_by_sql_def Let_def update_where_def token_core_def split: if_splits)

lemma record_enrollment_cores:
  assumes "record_enrollment c a tid org hid req hi pem w = (Inr resp, w')"
  shows "map token_core (db_tokens (w_db w')) = map token_core (db_tokens (w_db w))"
proof -
  let ?h = "enrolled_host hid org req hi (w_clock w (w_tick w))"
  obtain w2 w3 q where up: "host_Upsert ?h (tick w) = (Inr (), w2)"
    and w3: "w3 = (if tid \<noteq> [] then snd (exec_stmt (set_used_by_sql hid tid) w2) else w2)"
    and ins: "identity_Insert (issued_identity c hid pem (w_clock w (w_tick w))) w3 = (Inr q, w')"
    using assms by (rule record_enrollment_Inr) blast
  have "upsert_sql (host_to_row ?h) (w_clock w (Suc (w_tick w))) (w_db w) = Inr ((), w_db w2)"
    using up by (auto simp: host_Upsert_def dest!: exec_stmt_Inr)
  then have "db_tokens (w_db w2) = db_tokens (w_db w)" by (rule upsert_tokens)
  moreover have "db_tokens (w_db w') = db_tokens (w_db w3)"
    using ins by (auto simp: identity_Insert_def dest!: exec_stmt_Inr insert_identity_frame)
  ultimately show ?thesis using set_used_by_cores [of hid tid w2] by (simp add: w3)
qed

lemma Enroll_spent:
  assumes "claim_token_sql (HashHex (c_Sum256 c) (eq_EnrollmentToken req)) (w_clock w (w_tick w)) (w_db w) = Inl NoRows"
    "verified_leaf p = None" "validate_shape False req = None" "ParseAndValidate (eq_EnrollmentToken req) = None"
  shows "\<exists>w'. Enroll c a p req w =
    (Inl (Status Unauthenticated ''invalid, expired, or already-used enrollment token''), w') \<and> w_db w' = w_db w"
proof -
  obtain hi where "eq_HostInfo req = Some hi"
    using assms(3) by (auto simp: validate_shape_def split: option.splits if_splits)
  moreover obtain e where "exec_stmt (claim_token_sql (HashHex (c_Sum256 c) (eq_EnrollmentToken req))) w = (Inl e, tick w)"
    using exec_stmt_Inl [of "claim_token_sql (HashHex (c_Sum256 c) (eq_EnrollmentToken req))" w, OF assms(1)] by blast
  ultimately show ?thesis
    using assms(2-4) by (simp add: Enroll_def detect_reenroll_def authenticate_first)
qed

text \<open>A second machine with the machine ID of a known host of the organisation is never written.\<close>

lemma record_enrollment_taken:
  assumes "find_by hr_id h1 (db_hosts (w_db w)) = Some r" "hr_machine_id r = Some (hi_MachineId hi)" "hr_org_id r = org"
    "hi_MachineId hi \<noteq> []" "h1 \<noteq> hid"
  shows "\<exists>w'. record_enrollment c a tid org hid req hi pem w = (Inl (Status Internal ''internal error''), w')
    \<and> w_db w' = w_db w"
proof -
  let ?h = "enrolled_host hid org req hi (w_clock w (w_tick w))"
  have "r \<in> set (db_hosts (w_db w))" "hr_id r = h1" using find_by_SomeD [OF assms(1)] by simp_all
  then have "violates_machine_uidx (host_to_row ?h) (db_hosts (w_db w))"
    using assms(2-5) unfolding violates_machine_uidx_def
    by (intro bexI [of _ r]) (simp_all add: machine_key_def host_to_row_def enrolled_host_def non_empty_def)
  then have "upsert_sql (host_to_row ?h) t (w_db w) = Inl (UniqueViolation ''hosts_machine_id_org_id_uidx'')" for t
    by (simp add: upsert_sql_def Let_def)
  then have "\<exists>e w2. host_Upsert ?h (tick w) = (Inl e, w2) \<and> w_db w2 = w_db w"
    by (simp add: host_Upsert_def exec_stmt_def Let_def wrap_err_def split: fault.split)
  then show ?thesis by (auto simp: record_enrollment_def go_now_def)
qed

text \<open>C19: Two first enrollments of one machine that its organisation does not know, overlapping so that both have
  their certificate before one is recorded, get different host IDs, as long as ULIDs are not repeated.
  Without faults, and with the fingerprint of the first certificate not taken, the one recorded first
  succeeds; the other fails with an internal error at the unique index on the machine and writes
  nothing, but its token is used up all the same: a retry with it, any time later, is refused. (The
  code that looks for a known machine does not help: it ran before the first host was written.)\<close>

theorem concurrent_enrollments:
  assumes "db_ok (w_db w)" "w_fault w = (\<lambda>_. NoFault)" "inj (w_ulid w)"
    and "verified_leaf p1 = None" "verified_leaf p2 = None"
    and prep1: "enroll_prepare c a p1 req1 w = (Inr (tid1, org, hid1, hi1, pem1), w1)"
    and prep2: "enroll_prepare c a p2 req2 w1 = (Inr (tid2, org, hid2, hi2, pem2), w2)"
    and machine: "hi_MachineId hi1 = m" "hi_MachineId hi2 = m" "m \<noteq> []"
      "\<forall>r \<in> set (db_hosts (w_db w)). \<not> (hr_machine_id r = Some m \<and> hr_org_id r = org)"
    and untaken: "\<forall>i \<in> set (db_identities (w_db w)). ir_revoked_at i = None \<longrightarrow> ir_cert_fingerprint i \<noteq> certFingerprint c pem1"
  shows "hid1 \<noteq> hid2 \<and> (\<exists>resp w3 w4.
      record_enrollment c a tid1 org hid1 req1 hi1 pem1 w2 = (Inr resp, w3) \<and> ep_AgentId resp = hid1
    \<and> record_enrollment c a tid2 org hid2 req2 hi2 pem2 w3 = (Inl (Status Internal ''internal error''), w4)
    \<and> w_db w4 = w_db w3 \<and> host_exists hid1 (w_db w4) \<and> tid2 \<in> used_token_ids (w_db w4)
    \<and> (\<forall>p3 req3 w5. w_db w5 = w_db w4 \<and> w_clock w (w_tick w1) \<le> w_clock w5 (w_tick w5) \<and> verified_leaf p3 = None
         \<and> eq_EnrollmentToken req3 = eq_EnrollmentToken req2 \<and> validate_shape False req3 = None \<longrightarrow>
         (\<exists>w6. Enroll c a p3 req3 w5 =
            (Inl (Status Unauthenticated ''invalid, expired, or already-used enrollment token''), w6) \<and> w_db w6 = w_db w5)))"
proof -
  let ?hash = "HashHex (c_Sum256 c) (eq_EnrollmentToken req2)"
  obtain n1 where cl1: "claim_token_sql (HashHex (c_Sum256 c) (eq_EnrollmentToken req1)) (w_clock w (w_tick w)) (w_db w)
      = Inr ((tid1, org), w_db w1)"
    and n1: "hid1 = w_ulid w n1" "n1 < w_tick w1" "goes_on w w1"
    and d1: "db_hosts (w_db w1) = db_hosts (w_db w)" "db_identities (w_db w1) = db_identities (w_db w)"
    by (rule enroll_prepare_first [OF prep1 assms(4)]) (use machine in auto)
  obtain n2 where tok2: "ParseAndValidate (eq_EnrollmentToken req2) = None"
    and cl2: "claim_token_sql ?hash (w_clock w1 (w_tick w1)) (w_db w1) = Inr ((tid2, org), w_db w2)"
    and n2: "hid2 = w_ulid w1 n2" "w_tick w1 \<le> n2" "goes_on w1 w2"
    and d2: "db_hosts (w_db w2) = db_hosts (w_db w1)" "db_identities (w_db w2) = db_identities (w_db w1)"
    by (rule enroll_prepare_first [OF prep2 assms(5)]) (use machine d1 in auto)
  have env: "w_ulid w1 = w_ulid w" "w_clock w1 = w_clock w" "w_fault w2 = (\<lambda>_. NoFault)"
    using n1(3) n2(3) assms(2) by (simp_all add: goes_on_def)
  have ids: "hid1 \<noteq> hid2" using n1 n2 env(1) injD [OF assms(3), of n1 n2] by auto
  have ok1: "db_ok (w_db w1)" using claim_token_db_ok [OF cl1 assms(1)] .
  have tok: "tid2 \<in> used_token_ids (w_db w2)" "db_ok (w_db w2)"
    using claim_token_fresh [OF cl2 ok1] claim_token_db_ok [OF cl2 ok1] by simp_all
  let ?n = "host_to_row (enrolled_host hid1 org req1 hi1 (w_clock w2 (w_tick w2)))"
  have "machine_key ?n = Some (m, org)" using machine(1,3) by (simp add: machine_key_def host_to_row_def enrolled_host_def non_empty_def)
  then have "\<not> violates_machine_uidx ?n (db_hosts (w_db w2))"
    using machine(4) by (auto simp: violates_machine_uidx_def machine_key_def d1 d2)
  then obtain resp w3 where rec: "record_enrollment c a tid1 org hid1 req1 hi1 pem1 w2 = (Inr resp, w3)" "ep_AgentId resp = hid1"
    using record_enrollment_ok [OF env(3), of hid1 org req1 hi1 c pem1 a tid1] untaken d1 d2 by auto
  obtain r t where r: "find_by hr_id hid1 (db_hosts (w_db w3)) = Some r"
    "r = (host_to_row (enrolled_host hid1 org req1 hi1 (w_clock w2 (w_tick w2))))\<lparr>hr_first_seen_at := t\<rparr>"
    using enrolled_row [OF rec(1)] by blast
  then have "hr_machine_id r = Some (hi_MachineId hi2)" "hr_org_id r = org"
    using machine by (simp_all add: host_to_row_def enrolled_host_def non_empty_def)
  then obtain w4 where w4: "record_enrollment c a tid2 org hid2 req2 hi2 pem2 w3 = (Inl (Status Internal ''internal error''), w4)"
      "w_db w4 = w_db w3"
    using record_enrollment_taken [OF r(1), of hi2 org hid2 c a tid2 req2 pem2] ids machine(2,3) by auto
  have "tokens_evolve (w_db w2) (w_db w3)"
    using evolution.record_enrollment_R [of w2 c a tid1 org hid1 req1 hi1 pem1] rec(1) by simp
  then have used: "tid2 \<in> used_token_ids (w_db w4)" using used_token_ids_mono [OF tok(2)] tok(1) w4(2) by auto
  have retry: "\<exists>w6. Enroll c a p3 req3 w5 =
      (Inl (Status Unauthenticated ''invalid, expired, or already-used enrollment token''), w6) \<and> w_db w6 = w_db w5"
    if w5: "w_db w5 = w_db w4" "w_clock w (w_tick w1) \<le> w_clock w5 (w_tick w5)"
      and q: "verified_leaf p3 = None" "eq_EnrollmentToken req3 = eq_EnrollmentToken req2" "validate_shape False req3 = None"
    for p3 req3 w5
  proof (rule Enroll_spent)
    have "claim_token_sql ?hash (w_clock w5 (w_tick w5)) (w_db w2) = Inl NoRows"
      using cl2 w5(2) env(2) by (intro claim_token_spent) simp_all
    then have "claim_token_sql ?hash (w_clock w5 (w_tick w5)) (w_db w3) = Inl NoRows"
      by (rule claim_by_core [OF record_enrollment_cores [OF rec(1)]])
    then show "claim_token_sql (HashHex (c_Sum256 c) (eq_EnrollmentToken req3)) (w_clock w5 (w_tick w5)) (w_db w5) = Inl NoRows"
      using w4(2) w5(1) q(2) by simp
  qed (use q tok2 in simp_all)
  have "host_exists hid1 (w_db w4)" using r(1) w4(2) by (simp add: host_exists_def)
  with ids rec w4 used retry show ?thesis by blast
qed

subsection \<open>A concrete race\<close>

text \<open>A crypto that signs everything.\<close>

definition signing_crypto :: crypto where
  "signing_crypto = (demo_crypto [])\<lparr>c_CreateCertificate := \<lambda>_ _ _ _. Inr []\<rparr>"

definition race_crypto :: crypto where
  "race_crypto = signing_crypto\<lparr>c_Sum256 := \<lambda>s. if s = demo_token then [1] else [2]\<rparr>"

definition race_request :: "string \<Rightarrow> enroll_request" where
  "race_request tok = demo_request\<lparr>eq_EnrollmentToken := tok, eq_HostInfo := Some (demo_info\<lparr>hi_MachineId := ''m1''\<rparr>)\<rparr>"

definition race_token :: string where "race_token = format_plain (replicate 25 255)"

lemma race_tokens: "race_token \<noteq> demo_token" "race_token \<noteq> []" "ParseAndValidate race_token = None"
proof -
  show "ParseAndValidate race_token = None" by (simp add: race_token_def ParseAndValidate_format_plain)
  show "race_token \<noteq> demo_token" by code_simp
  show "race_token \<noteq> []" by code_simp
qed

definition race_db :: db where
  "race_db = empty_db\<lparr>db_tokens := [sample_token\<lparr>tr_token_hash := HashHex (c_Sum256 race_crypto) demo_token\<rparr>,
     sample_token\<lparr>tr_id := ''T2'', tr_token_hash := HashHex (c_Sum256 race_crypto) race_token\<rparr>]\<rparr>"

lemma race_hashes: "HashHex (c_Sum256 race_crypto) race_token \<noteq> HashHex (c_Sum256 race_crypto) demo_token"
proof -
  have "hex_byte 2 \<noteq> hex_byte 1" by code_simp
  then show ?thesis using race_tokens(1) by (simp add: race_crypto_def HashHex_def hex_bytes_def)
qed

lemma race_issue:
  "IssueClient race_crypto demo_ca (demo_encode ''CERTIFICATE REQUEST'' []) h ttl (calm_at n d) =
     (Inr (demo_encode ''CERTIFICATE'' []), calm_at (n + 3) d)"
proof -
  have "read_csr race_crypto (demo_encode ''CERTIFICATE REQUEST'' []) =
      Inr \<lparr>csr_CommonName = ''someone-else'', csr_PublicKey = demo_key, csr_Extensions = []\<rparr>"
    by (simp add: read_csr_def race_crypto_def signing_crypto_def demo_crypto_def demo_decode_encode key_error_def demo_key_def)
  moreover have "c_CreateCertificate race_crypto tm q k key = Inr []" "c_pem_Encode race_crypto = demo_encode" for tm q k key
    by (simp_all add: race_crypto_def signing_crypto_def demo_crypto_def)
  ultimately show ?thesis
    by (simp add: IssueClient_def randomSerial_def calm_steps Let_def numeral_eq_Suc)
qed

lemma demo_encode_nonempty: "demo_encode t b \<noteq> []"
  by (simp add: demo_encode_def)

lemma race_prepare:
  assumes "claim_token_sql (HashHex (c_Sum256 race_crypto) tok) (1000 * int n) d = Inr ((tid, org), d')" "db_hosts d' = []"
   "tok \<noteq> []" "ParseAndValidate tok = None"
  shows "enroll_prepare race_crypto demo_ca NoPeer (race_request tok) (calm_at n d) =
    (Inr (tid, org, ''ULID-'' @ nat_digits (n + 3), demo_info\<lparr>hi_MachineId := ''m1''\<rparr>, demo_encode ''CERTIFICATE'' []), calm_at (n + 7) d')"
  using assms
  by (simp add: enroll_prepare_def detect_reenroll_def verified_leaf_def validate_shape_def race_request_def
      demo_request_def demo_info_def authenticate_first calm_exec resolveHostID_def find_machine_sql_def first_row_def
      fresh_ulid_def calm_steps race_issue demo_encode_nonempty) (simp add: numeral_eq_Suc)

theorem concurrent_enrollments_witness:
  "\<exists>tid1 hid1 hi1 pem1 w1 tid2 hid2 hi2 pem2 w2 resp w3 w4 w6.
     enroll_prepare race_crypto demo_ca NoPeer (race_request demo_token) (calm_world race_db)
       = (Inr (tid1, ''default'', hid1, hi1, pem1), w1)
     \<and> enroll_prepare race_crypto demo_ca NoPeer (race_request race_token) w1
       = (Inr (tid2, ''default'', hid2, hi2, pem2), w2) \<and> hid1 \<noteq> hid2
     \<and> record_enrollment race_crypto demo_ca tid1 ''default'' hid1 (race_request demo_token) hi1 pem1 w2 = (Inr resp, w3)
     \<and> record_enrollment race_crypto demo_ca tid2 ''default'' hid2 (race_request race_token) hi2 pem2 w3
       = (Inl (Status Internal ''internal error''), w4)
     \<and> Enroll race_crypto demo_ca NoPeer (race_request race_token) (calm_at 99 (w_db w4))
       = (Inl (Status Unauthenticated ''invalid, expired, or already-used enrollment token''), w6)"
proof -
  let ?i = "demo_info\<lparr>hi_MachineId := ''m1''\<rparr>" and ?pem = "demo_encode ''CERTIFICATE'' []"
  let ?r1 = "sample_token\<lparr>tr_token_hash := HashHex (c_Sum256 race_crypto) demo_token\<rparr>"
  let ?r2 = "sample_token\<lparr>tr_id := ''T2'', tr_token_hash := HashHex (c_Sum256 race_crypto) race_token\<rparr>"
  let ?d1 = "empty_db\<lparr>db_tokens := [?r1\<lparr>tr_used_at := Some 0\<rparr>, ?r2]\<rparr>"
  let ?d2 = "empty_db\<lparr>db_tokens := [?r1\<lparr>tr_used_at := Some 0\<rparr>, ?r2\<lparr>tr_used_at := Some 7000\<rparr>]\<rparr>"
  let ?w = "calm_at 0 race_db"
  have "claim_token_sql (HashHex (c_Sum256 race_crypto) demo_token) (1000 * int 0) race_db = Inr ((''T1'', ''default''), ?d1)"
    using race_hashes by (simp add: claim_token_sql_def race_db_def token_usable_def sample_token_def update_where_def)
  then have p1: "enroll_prepare race_crypto demo_ca NoPeer (race_request demo_token) ?w
      = (Inr (''T1'', ''default'', ''ULID-'' @ nat_digits 3, ?i, ?pem), calm_at 7 ?d1)"
    using race_prepare [of demo_token 0 race_db "''T1''" "''default''" ?d1] demo_token_valid by (simp add: empty_db_def)
  have "claim_token_sql (HashHex (c_Sum256 race_crypto) race_token) (1000 * int 7) ?d1 = Inr ((''T2'', ''default''), ?d2)"
    using race_hashes by (auto simp: claim_token_sql_def token_usable_def sample_token_def update_where_def)
  then have p2: "enroll_prepare race_crypto demo_ca NoPeer (race_request race_token) (calm_at 7 ?d1)
      = (Inr (''T2'', ''default'', ''ULID-'' @ nat_digits 10, ?i, ?pem), calm_at 14 ?d2)"
    using race_prepare [of race_token 7 ?d1 "''T2''" "''default''" ?d2] race_tokens by (simp add: empty_db_def)
  have ok: "db_ok (w_db ?w)"
    by (simp add: race_db_def db_ok_def empty_db_def hosts_ok_def identities_ok_def refs_ok_def sample_token_def)
  have ulids: "inj (w_ulid ?w)" by (auto intro: injI dest: nat_digits_inj)
  have calm: "w_fault ?w = (\<lambda>_. NoFault)" "verified_leaf NoPeer = None" by (simp_all add: verified_leaf_def)
  have m: "hi_MachineId ?i = ''m1''" "''m1'' \<noteq> []" by simp_all
  have none: "\<forall>r \<in> set (db_hosts (w_db ?w)). \<not> (hr_machine_id r = Some ''m1'' \<and> hr_org_id r = ''default'')"
    "\<forall>i \<in> set (db_identities (w_db ?w)). ir_revoked_at i = None \<longrightarrow> ir_cert_fingerprint i \<noteq> certFingerprint race_crypto ?pem"
    by (simp_all add: race_db_def empty_db_def)
  note both = concurrent_enrollments [OF ok calm(1) ulids calm(2) calm(2) p1 p2 m(1) m(1) m(2) none]
  then have ids: "''ULID-'' @ nat_digits 3 \<noteq> ''ULID-'' @ nat_digits 10" by (rule conjunct1)
  from conjunct2 [OF both] obtain resp w3 w4 where
    rec: "record_enrollment race_crypto demo_ca ''T1'' ''default'' (''ULID-'' @ nat_digits 3)
      (race_request demo_token) ?i ?pem (calm_at 14 ?d2) = (Inr resp, w3)"
    and fails: "record_enrollment race_crypto demo_ca ''T2'' ''default'' (''ULID-'' @ nat_digits 10)
      (race_request race_token) ?i ?pem w3 = (Inl (Status Internal ''internal error''), w4)"
    and retry: "\<And>p3 req3 w5. w_db w5 = w_db w4 \<and> w_clock ?w (w_tick (calm_at 7 ?d1)) \<le> w_clock w5 (w_tick w5)
         \<and> verified_leaf p3 = None \<and> eq_EnrollmentToken req3 = eq_EnrollmentToken (race_request race_token)
         \<and> validate_shape False req3 = None \<Longrightarrow>
         \<exists>w6. Enroll race_crypto demo_ca p3 req3 w5 =
            (Inl (Status Unauthenticated ''invalid, expired, or already-used enrollment token''), w6)" by blast
  have "validate_shape False (race_request race_token) = None"
    by (simp add: validate_shape_def race_request_def demo_request_def demo_info_def race_tokens demo_encode_nonempty)
  then have "\<exists>w6. Enroll race_crypto demo_ca NoPeer (race_request race_token) (calm_at 99 (w_db w4)) =
      (Inl (Status Unauthenticated ''invalid, expired, or already-used enrollment token''), w6)"
    by (intro retry) (simp add: calm)
  then show ?thesis using p1 p2 rec fails ids unfolding calm_world_at by blast
qed

end
