(* ===== verification/Spec2Isabelle.thy ===== *)
theory Spec2Isabelle
  imports TokenLife Restart Migrated Journey Race
begin

text \<open>
  The control plane of praetor-server, a Go program that enrolls agents on Linux hosts, keeps a
  stream open to each, and stores what they report.

  The program. \<open>cmd/praetor-server\<close> starts the server or runs one of the subcommands
  \<open>token\<close>, \<open>config\<close> and \<open>migrate\<close> on the same Postgres database. The server has a gRPC
  side (\<open>internal/agent\<close>: Enroll, in \<open>internal/enrollment\<close>, with the certificates of
  \<open>internal/ca\<close>; Connect, in \<open>internal/stream\<close>), a REST side (\<open>internal/api\<close>), the broker of
  commands and its rate limiter (\<open>internal/command\<close>), the push of configuration
  (\<open>internal/configpush\<close>), the staleness job (\<open>internal/staleness\<close>), the writers to
  VictoriaMetrics and Loki (\<open>internal/storage\<close>), and the stores (\<open>internal/db/store\<close>) through
  which all of them share the tables. The streams share the registry of connected agents, too.

  How it is modelled. Stateful code passes its state explicitly: a call is a function from a
  \<open>world\<close> (World) to its result and the next world, or on a \<open>server\<close> (Broker), which adds the
  registry, the rate limiter, the streams that no longer take a message and the messages sent.
  A Go error is a value (\<open>go_error\<close>, \<open>grpc_error\<close>) on the left of a sum. Whatever the
  environment decides (clock, random bytes, ULIDs, lost connections, texts of the driver) is read
  from the world at the number of the interaction, so that every theorem holds for all of its
  choices; in particular a statement may take effect and its answer be lost. Integers keep their
  width where the code does (\<open>wrap64\<close>, \<open>wrap32\<close>, \<open>in_i64\<close>).

  The theories, in the order of the code:
  \<^item> Prelude, World: Go's integers, strings and printing; tables as lists of rows; statements and faults.
  \<^item> Token: \<open>internal/token\<close>. HostStore, TokenStore, IdentityStore, ConfigStore, CommandStore,
    EventStore: one per file of \<open>internal/db/store\<close>, each statement as a function on the tables
    (\<open>..._sql\<close>) and each method over it. The claim of a token, whose statement stands in
    \<open>internal/enrollment/service.go\<close>, is in TokenStore with the other statements on that table.
  \<^item> CA: \<open>internal/ca/ca.go\<close>, with the files it writes and a start in the middle of which any call
    may fail; the cryptographic library is the record \<open>crypto\<close>, and \<open>crypto_ok\<close> the laws used
    (what is encoded decodes, a created certificate has the fields of its template).
  \<^item> Enrollment: \<open>internal/enrollment/service.go\<close>. RateLimit, Registry, Broker, ConfigPush,
    Staleness: the packages of those names. VictoriaMetrics, Loki: the writers; GoQuote is the
    quoting of \<open>strconv.Quote\<close>.
  \<^item> Stream: \<open>internal/stream/handler.go\<close>. Connect runs for each stream with a receiver and with
    goroutines for the work a message leads to, so it is a step relation (\<open>hub_step\<close>) over all
    connections, whose labels are the moves of the environment and of the goroutines.
  \<^item> JsonBody, Rfc3339, Api, ApiServer, ApiBehaviour: \<open>internal/api\<close>: the decoding of bodies and
    times, the handlers, the routes behind the bearer token with the access log of the middleware, and
    what the handlers promise.
  \<^item> Flags, Config, Cli: the package \<open>flag\<close>, \<open>internal/config\<close>, the subcommands and
    \<open>internal/db/db.go\<close>. ServerMain: the interceptors of \<open>main.go\<close> and \<open>internal/agent\<close>.
  \<^item> Contracts, Effects: the interfaces as locales. \<open>store_effects\<close> is what the stores promise the
    handlers: a preorder on tables that every statement respects. A handler is shown to respect it
    once, in the locale, and six relations interpret it: well-formedness is kept, token rows only
    evolve, hosts are never deleted, what happens is a sequence of statements (Statements), the
    tables refine the machine of TokenLife, and they only add to their history (History).
    \<open>claim_register\<close> is what a source of single-use claims promises, and \<open>stream_registry\<close>
    (Registry) what the registry promises its clients; \<open>blind_handler\<close> (ApiServer) what a handler
    behind the authentication must not look at.
  \<^item> Statements: the statements one by one, as they interleave when calls run at the same time; it
    interprets \<open>claim_register\<close>, so single use of tokens needs no lock but the atomic statement.
  \<^item> System: all operations of the server and of the commands beside it, in any order, with changes
    of the environment in between, as one step function; it interprets \<open>claim_register\<close>.
    TokenLife: the life of a token as an abstract machine, which the tables refine. History: what an
    update may change of a row of each table (locale \<open>row_order\<close>), and the life of a command from its
    request to its result.
  \<^item> Lifecycle: the process of \<open>main.go\<close>, from the configuration file to its exit, as a step relation
    (\<open>proc_step\<close>) of main, the serving goroutines, the staleness job, the streams of \<open>hub_step\<close>, the
    clients, the clock and the signal. A sweep of the job is a step that begins it, one that runs its
    statement and one that has notified the webhook, with the signal and the shutdown possible in
    between. Restart: its steps respect \<open>store_effects\<close>, so the contracts of the tables hold across
    the lives of the server, and only the request of a command ever sends it.
  \<^item> Schema: the six scripts of \<open>internal/db/migrations\<close> with their reverses as statements on a schema
    (\<open>run_ddl\<close>), and when tables satisfy a schema. Migrated: the INSERTs of the stores against the
    defaults of the scripts, and runs of statements within the types of the columns. Race: two
    enrollments interleaved between their steps. Journey: the way of one agent through the components.

  What the lemmas show. For each store: the statements keep the keys, the references and the checks
  of the tables (\<open>..._db_ok\<close>), and what is written is read back. For the enrollment: nobody gets a
  certificate without authority, a token enrolls one agent, and a proper request succeeds. For the
  streams: the registered stream of a host belongs to a running connection that proved to be that
  host, so a command reported as sent went to the right one. For the API: no request without the key
  has an effect, and what each answer says about the tables and the streams. The limiter equals a
  specification by windows without its buckets. For the writers, the job and the commands: what they
  do on every branch, and under which condition on its text a metric is one line. For the process: nothing is served before the start is complete, and the
  shutdown ends within its ten seconds but for the connections of the pool, with status 0 unless a
  sweep that was under way at the signal panics on its webhook. For the schema: the
  scripts run in order and each reverse undoes its script, the invariant \<open>db_ok\<close> says of the tables
  exactly what the scripts declare, and the statements keep it with the types of the columns. Along
  the components: an agent that has enrolled can connect and be sent a command, the API shows it as
  its heartbeats leave it, and a configuration set on the command line reaches it. Where the code does
  something its comments deny or nobody can want, a theorem says so: an enrollment refused for its
  certificate request uses up the token, so does one that loses a race for its machine, a reconnection leaves an agent
  unreachable until the next, a queued command is delivered in no life of the server, a lifetime of a token wraps, a metric name forges samples, a connected
  agent holds up the shutdown, a server runs on without its REST API, a bad webhook ends it.

  Bounds and fuel. \<open>parse_duration\<close> (Flags) runs with the length of its text as fuel, which
  \<open>duration_fuel\<close> shows to be enough; every other recursion is structural or has a measure. A
  connection, which may run for ever, is a relation, and liveness is stated as what no step or some
  step can do.

  Not modelled. Logging (slog, the logger of goose) except the records of the API middleware and what
  main says of its servers: it decides nothing. How JSON responses are printed and headers other than
  Authorization. The code of pgx, goose, gRPC, TLS, net/http, the YAML decoder and the generated
  protobuf code, which is not in the repository: they are parameters, or the documented behaviour
  stated where it is used. The table in which goose remembers what has run is its own. An index that
  is not unique is only declared: it decides nothing but speed. A number that a failed INSERT has
  drawn from a sequence is not skipped. Timeouts of contexts appear as faults of the calls, and so does a text that Postgres
  refuses (a NUL byte, invalid UTF-8). A timestamp is not rounded to the microseconds of Postgres, and
  its integer columns overflow only where a value given by a caller can (how far the counters may
  run is the hypothesis \<open>room\<close> of Migrated). A statement is atomic, and so is a Send (that several
  goroutines may be about to send on one stream is \<open>sends_unordered\<close> of Journey); the
  calls interleave by statements in Statements, by the steps of the goroutines in Stream and
  Lifecycle, and as whole operations in System.
\<close>

end
